(* ===== verification/Anyhook_Prelude.thy ===== *)
theory Anyhook_Prelude
  imports Complex_Main "HOL-Library.AList" "HOL-Library.Multiset"
begin

text \<open>
  What every theory of the development shares: the exceptions the TypeScript sources throw, the
  model of an \<open>async\<close> function over a world (state passing, where a throw keeps the effects made
  before it), the model of a JavaScript \<open>Map\<close> as an association list in insertion order, and the
  lemmas that let the simplifier run such programs.

  The collection \<open>io_run\<close> holds the equations that execute a step of a program; a component that
  provides a port adds the equations of its operations to it.
\<close>

named_theorems io_run \<open>equations that execute one step of an async program\<close>

section \<open>Numbers\<close>

text \<open>
  A JavaScript number that takes part in arithmetic (times in milliseconds, delays, tokens, random
  draws) is a rational: the operations are exact, rounding of doubles is not modelled. Counters
  and HTTP statuses are \<open>nat\<close> or \<open>int\<close>.
\<close>

type_synonym millis = rat

section \<open>Exceptions and async programs\<close>

text \<open>The exceptions the sources throw, with the message where the code builds one.\<close>

datatype js_error =
    Error string
  | TypeError string
  | SyntaxError string
  | PortalHttpError int string
  | WebhookVerificationError string
  | CircuitWriteConflictError string string
  | ServiceError string

type_synonym ('w, 'a) io = "'w \<Rightarrow> (js_error + 'a) \<times> 'w"

definition return_io :: "'a \<Rightarrow> ('w, 'a) io" where
  "return_io x = (\<lambda>w. (Inr x, w))"

definition throw_io :: "js_error \<Rightarrow> ('w, 'a) io" where
  "throw_io e = (\<lambda>w. (Inl e, w))"

text \<open>\<open>const x = await m; ...\<close>: a throw of \<open>m\<close> skips the rest and keeps the world \<open>m\<close> left.\<close>

definition bind_io :: "('w, 'a) io \<Rightarrow> ('a \<Rightarrow> ('w, 'b) io) \<Rightarrow> ('w, 'b) io" where
  "bind_io m f = (\<lambda>w. case fst (m w) of Inl e \<Rightarrow> (Inl e, snd (m w)) | Inr x \<Rightarrow> f x (snd (m w)))"

text \<open>\<open>await m; ...\<close>\<close>

definition seq_io :: "('w, 'a) io \<Rightarrow> ('w, 'b) io \<Rightarrow> ('w, 'b) io" where
  "seq_io m k = bind_io m (\<lambda>_. k)"

text \<open>\<open>try m catch (e) h(e)\<close>\<close>

definition catch_io :: "('w, 'a) io \<Rightarrow> (js_error \<Rightarrow> ('w, 'a) io) \<Rightarrow> ('w, 'a) io" where
  "catch_io m h = (\<lambda>w. case fst (m w) of Inl e \<Rightarrow> h e (snd (m w)) | Inr x \<Rightarrow> (Inr x, snd (m w)))"

text \<open>\<open>for (const x of xs) await f(x)\<close>\<close>

fun for_io :: "'a list \<Rightarrow> ('a \<Rightarrow> ('w, unit) io) \<Rightarrow> ('w, unit) io" where
  "for_io [] f = return_io ()"
| "for_io (x # xs) f = seq_io (f x) (for_io xs f)"

text \<open>\<open>xs.map(f)\<close> with an effectful \<open>f\<close>, left to right.\<close>

fun map_io :: "('a \<Rightarrow> ('w, 'b) io) \<Rightarrow> 'a list \<Rightarrow> ('w, 'b list) io" where
  "map_io f [] = return_io []"
| "map_io f (x # xs) = bind_io (f x) (\<lambda>y. bind_io (map_io f xs) (\<lambda>ys. return_io (y # ys)))"

lemma return_io_apply [simp]: "return_io x w = (Inr x, w)"
  by (simp add: return_io_def)

lemma throw_io_apply [simp]: "throw_io e w = (Inl e, w)"
  by (simp add: throw_io_def)

text \<open>
  Execution rules. A port operation is known through the two projections of its result, so the
  rules for \<open>bind_io\<close> take the outcome of the first program as a condition.
\<close>

lemma bind_io_Inr [io_run]: "fst (m w) = Inr x \<Longrightarrow> bind_io m f w = f x (snd (m w))"
  by (simp add: bind_io_def)

lemma bind_io_Inl [io_run]: "fst (m w) = Inl e \<Longrightarrow> bind_io m f w = (Inl e, snd (m w))"
  by (simp add: bind_io_def)

lemma seq_io_Inr [io_run]: "fst (m w) = Inr x \<Longrightarrow> seq_io m k w = k (snd (m w))"
  by (simp add: seq_io_def bind_io_def)

lemma seq_io_Inl [io_run]: "fst (m w) = Inl e \<Longrightarrow> seq_io m k w = (Inl e, snd (m w))"
  by (simp add: seq_io_def bind_io_def)

lemma catch_io_Inr [io_run]: "fst (m w) = Inr x \<Longrightarrow> catch_io m h w = (Inr x, snd (m w))"
  by (simp add: catch_io_def)

lemma catch_io_Inl [io_run]: "fst (m w) = Inl e \<Longrightarrow> catch_io m h w = h e (snd (m w))"
  by (simp add: catch_io_def)

lemma bind_return_io [simp]: "bind_io (return_io x) f = f x"
  by (rule ext) (simp add: bind_io_def)

lemma seq_return_io [simp]: "seq_io (return_io x) k = k"
  by (simp add: seq_io_def)

lemma bind_throw_io [simp]: "bind_io (throw_io e) f = throw_io e"
  by (rule ext) (simp add: bind_io_def)

lemma seq_throw_io [simp]: "seq_io (throw_io e) k = throw_io e"
  by (simp add: seq_io_def)

text \<open>A fact about the world that the first program and the rest both keep, the whole keeps.\<close>

lemma snd_bind_io_keeps:
  assumes "P (snd (m w))" and "\<And>x. fst (m w) = Inr x \<Longrightarrow> P (snd (f x (snd (m w))))"
  shows "P (snd (bind_io m f w))"
  using assms by (auto simp: bind_io_def split: sum.splits)

section \<open>JavaScript maps\<close>

text \<open>
  A \<open>Map\<close> is an association list with distinct keys in insertion order: \<open>set\<close> on a present key
  keeps its place, on a new key appends, which is \<^const>\<open>AList.update\<close>; \<open>delete\<close> is
  \<^const>\<open>AList.delete\<close>; \<open>get\<close> is \<^const>\<open>map_of\<close>; \<open>values()\<close> are the second components.
\<close>

type_synonym ('k, 'v) jsmap = "('k \<times> 'v) list"

definition map_values :: "('k, 'v) jsmap \<Rightarrow> 'v list" where
  "map_values m = map snd m"

lemma map_of_update [simp]: "map_of (AList.update k v m) = (map_of m)(k \<mapsto> v)"
  by (rule update_conv')

lemma map_of_delete [simp]: "map_of (AList.delete k m) = (map_of m)(k := None)"
  by (rule delete_conv')

lemma distinct_keys_update [simp]:
  "distinct (map fst m) \<Longrightarrow> distinct (map fst (AList.update k v m))"
  by (rule distinct_update)

lemma distinct_keys_delete [simp]:
  "distinct (map fst m) \<Longrightarrow> distinct (map fst (AList.delete k m))"
  by (rule distinct_delete)

lemma set_map_values:
  "distinct (map fst m) \<Longrightarrow> set (map_values m) = ran (map_of m)"
  by (simp add: map_values_def ran_distinct)

lemma map_values_update:
  "map_of m k = None \<Longrightarrow> map_values (AList.update k v m) = map_values m @ [v]"
  by (induction m) (auto simp: map_values_def split: if_splits)

lemma set_alist_update: "x \<in> set (AList.update k v m) \<Longrightarrow> x = (k, v) \<or> x \<in> set m"
  by (induction m) (auto split: if_splits)

lemma set_alist_delete: "x \<in> set (AList.delete k m) \<Longrightarrow> x \<in> set m"
  by (simp add: AList.delete_eq)

section \<open>Lists\<close>

lemma in_map_filter: "y \<in> set (List.map_filter f xs) \<longleftrightarrow> (\<exists>x \<in> set xs. f x = Some y)"
  by (induction xs) (auto split: option.splits)

text \<open>A separator that the last parts do not hold splits a text in one way only.\<close>

lemma split_at_last:
  assumes "s @ c # t = s' @ c # t'" and "c \<notin> set t" and "c \<notin> set t'"
  shows "s = s' \<and> t = t'"
  using assms by (auto simp: append_eq_append_conv2 Cons_eq_append_conv append_eq_Cons_conv)

text \<open>\<open>xs.find(p) ?? null\<close> is \<^const>\<open>List.find\<close>; \<open>xs.slice(0, n)\<close> is \<^const>\<open>take\<close>.\<close>

lemma find_Some_iff_first:
  "List.find P xs = Some x \<Longrightarrow> x \<in> set xs \<and> P x"
  by (auto simp: find_Some_iff)

text \<open>
  \<open>rows.sort((a, b) => b.key - a.key)\<close>: a stable sort, largest key first.
\<close>

definition sort_desc :: "('a \<Rightarrow> 'k::linordered_idom) \<Rightarrow> 'a list \<Rightarrow> 'a list" where
  "sort_desc key xs = sort_key (\<lambda>x. - key x) xs"

lemma set_sort_desc [simp]: "set (sort_desc key xs) = set xs"
  by (simp add: sort_desc_def)

lemma length_sort_desc [simp]: "length (sort_desc key xs) = length xs"
  by (simp add: sort_desc_def)

lemma mset_sort_desc [simp]: "mset (sort_desc key xs) = mset xs"
  by (simp add: sort_desc_def)

lemma sorted_sort_desc: "sorted_wrt (\<lambda>x y. key y \<le> key x) (sort_desc key xs)"
proof -
  have "sorted (map (\<lambda>x. - key x) (sort_desc key xs))"
    by (simp add: sort_desc_def)
  then show ?thesis
    by (simp add: sorted_map)
qed

end
