(* ===== verification/Js_Values.thy ===== *)
theory Js_Values
  imports Anyhook_Prelude
begin

text \<open>
  The JavaScript values and library operations the sources use: strings with \<open>startsWith\<close>,
  \<open>endsWith\<close>, \<open>split\<close>, \<open>join\<close>, \<open>toLowerCase\<close>, \<open>trim\<close>; numbers to and from text
  (\<open>toString(radix)\<close>, \<open>parseInt\<close>, \<open>Number\<close>); JSON values and \<open>JSON.stringify\<close>.

  A string is a list of UTF-16 code units below 256, one \<open>char\<close> each, so \<open>length\<close> is JavaScript's
  \<open>length\<close>; code units from 256 on are outside the model. Numbers read from text are exact
  rationals, with overflow to infinity at the limit of a double.
\<close>

section \<open>Strings\<close>

definition starts_with :: "string \<Rightarrow> string \<Rightarrow> bool" where
  "starts_with s p \<longleftrightarrow> take (length p) s = p"

definition ends_with :: "string \<Rightarrow> string \<Rightarrow> bool" where
  "ends_with s q \<longleftrightarrow> drop (length s - length q) s = q"

lemma starts_with_iff: "starts_with s p \<longleftrightarrow> (\<exists>r. s = p @ r)"
  unfolding starts_with_def by (metis append_take_drop_id append_eq_conv_conj)

lemma starts_with_append [simp]: "starts_with (p @ r) p"
  by (auto simp: starts_with_iff)

lemma ends_with_iff: "ends_with s q \<longleftrightarrow> (\<exists>r. s = r @ q)"
proof
  assume "ends_with s q"
  then show "\<exists>r. s = r @ q"
    unfolding ends_with_def by (metis append_take_drop_id)
next
  assume "\<exists>r. s = r @ q"
  then show "ends_with s q"
    by (auto simp: ends_with_def)
qed

text \<open>\<open>s.split(c)\<close> for a one-character separator; the result is never empty.\<close>

fun split_on :: "char \<Rightarrow> string \<Rightarrow> string list" where
  "split_on c [] = [[]]"
| "split_on c (x # xs) =
     (if x = c then [] # split_on c xs
      else (case split_on c xs of [] \<Rightarrow> [[x]] | y # ys \<Rightarrow> (x # y) # ys))"

text \<open>\<open>xs.join(sep)\<close>\<close>

fun join_with :: "string \<Rightarrow> string list \<Rightarrow> string" where
  "join_with sep [] = []"
| "join_with sep [x] = x"
| "join_with sep (x # y # ys) = x @ sep @ join_with sep (y # ys)"

lemma split_on_not_Nil [simp]: "split_on c s \<noteq> []"
  by (induction s) (auto split: list.splits)

lemma split_on_no_sep: "c \<notin> set s \<Longrightarrow> split_on c s = [s]"
  by (induction s) auto

lemma split_on_append_sep:
  "c \<notin> set s \<Longrightarrow> split_on c (s @ c # r) = s # split_on c r"
  by (induction s) auto

lemma split_on_parts_no_sep: "p \<in> set (split_on c s) \<Longrightarrow> c \<notin> set p"
proof (induction s arbitrary: p)
  case (Cons x xs)
  then show ?case
    by (cases "split_on c xs") (auto split: if_splits)
qed simp

text \<open>Splitting undoes joining when no part holds the separator.\<close>

lemma split_join:
  "xs \<noteq> [] \<Longrightarrow> \<forall>x \<in> set xs. c \<notin> set x \<Longrightarrow> split_on c (join_with [c] xs) = xs"
proof (induction xs rule: induct_list012)
  case (2 x)
  then show ?case by (simp add: split_on_no_sep)
next
  case (3 x y zs)
  then show ?case by (simp add: split_on_append_sep)
qed simp

text \<open>\<open>toLowerCase\<close> on code units below 256 (ASCII and Latin-1 letters).\<close>

definition lower_char :: "char \<Rightarrow> char" where
  "lower_char c =
     (let n = (of_char c :: nat)
      in if (65 \<le> n \<and> n \<le> 90) \<or> (192 \<le> n \<and> n \<le> 222 \<and> n \<noteq> 215) then char_of (n + 32) else c)"

definition to_lower :: "string \<Rightarrow> string" where
  "to_lower s = map lower_char s"

lemma length_to_lower [simp]: "length (to_lower s) = length s"
  by (simp add: to_lower_def)

lemma lower_char_idem [simp]: "lower_char (lower_char c) = lower_char c"
proof -
  let ?n = "of_char c :: nat"
  have "?n < 256" by (metis nat_of_char_less_256)
  then show ?thesis
    by (auto simp: lower_char_def Let_def of_char_of)
qed

lemma to_lower_idem [simp]: "to_lower (to_lower s) = to_lower s"
  by (simp add: to_lower_def comp_def)

text \<open>\<open>trim\<close>: white space and line terminators among the code units below 256.\<close>

definition is_space :: "char \<Rightarrow> bool" where
  "is_space c \<longleftrightarrow> (of_char c :: nat) \<in> {9, 10, 11, 12, 13, 32, 160}"

definition trim :: "string \<Rightarrow> string" where
  "trim s = rev (dropWhile is_space (rev (dropWhile is_space s)))"

text \<open>\<open>Buffer.byteLength(s, 'utf8')\<close>\<close>

definition utf8_length :: "string \<Rightarrow> nat" where
  "utf8_length s = sum_list (map (\<lambda>c. if (of_char c :: nat) < 128 then 1 else 2) s)"

section \<open>Numbers and text\<close>

definition digit_chars :: string where
  "digit_chars = ''0123456789abcdefghijklmnopqrstuvwxyz''"

text \<open>\<open>n.toString(b)\<close> for an integer \<open>n \<ge> 0\<close> and a radix between 2 and 36.\<close>

fun to_radix :: "nat \<Rightarrow> nat \<Rightarrow> string" where
  "to_radix b n =
     (if b < 2 \<or> n < b then [digit_chars ! n] else to_radix b (n div b) @ [digit_chars ! (n mod b)])"

declare to_radix.simps [simp del]

definition nat_str :: "nat \<Rightarrow> string" where
  "nat_str n = to_radix 10 n"

definition int_str :: "int \<Rightarrow> string" where
  "int_str i = (if i < 0 then ''-'' @ nat_str (nat (- i)) else nat_str (nat i))"

text \<open>\<open>s.padStart(n, '0')\<close>\<close>

definition pad_zeros :: "nat \<Rightarrow> string \<Rightarrow> string" where
  "pad_zeros n s = replicate (n - length s) (CHR ''0'') @ s"

text \<open>The value of a digit in radixes up to 36, in either case.\<close>

definition digit_val :: "char \<Rightarrow> nat option" where
  "digit_val c =
     (let n = (of_char c :: nat)
      in if 48 \<le> n \<and> n \<le> 57 then Some (n - 48)
         else if 97 \<le> n \<and> n \<le> 122 then Some (n - 87)
         else if 65 \<le> n \<and> n \<le> 90 then Some (n - 55)
         else None)"

definition is_digit_in :: "nat \<Rightarrow> char \<Rightarrow> bool" where
  "is_digit_in b c \<longleftrightarrow> (case digit_val c of None \<Rightarrow> False | Some d \<Rightarrow> d < b)"

text \<open>\<open>parseInt(s, b)\<close> on a string of digits of that radix.\<close>

definition of_digits :: "nat \<Rightarrow> string \<Rightarrow> nat" where
  "of_digits b s = foldl (\<lambda>acc c. acc * b + the (digit_val c)) 0 s"

text \<open>A number as the result of \<open>Number(...)\<close>.\<close>

datatype jsnum = NaN | PosInf | NegInf | Fin rat

fun is_finite_num :: "jsnum \<Rightarrow> bool" where
  "is_finite_num (Fin _) = True"
| "is_finite_num _ = False"

text \<open>From \<open>2 ^ 1024 - 2 ^ 970\<close> on, the nearest double is infinity.\<close>

definition clamp_double :: "rat \<Rightarrow> jsnum" where
  "clamp_double q =
     (if 2 ^ 1024 - 2 ^ 970 \<le> q then PosInf else if q \<le> - (2 ^ 1024 - 2 ^ 970) then NegInf else Fin q)"

definition pow10 :: "int \<Rightarrow> rat" where
  "pow10 e = (if 0 \<le> e then 10 ^ nat e else 1 / 10 ^ nat (- e))"

text \<open>The exponent part of a decimal literal: nothing, or \<open>e\<close> with an optional sign and digits.\<close>

definition parse_exponent :: "string \<Rightarrow> int option" where
  "parse_exponent s =
     (case s of [] \<Rightarrow> Some 0
      | c # r \<Rightarrow>
        if c \<noteq> CHR ''e'' \<and> c \<noteq> CHR ''E'' then None
        else (let (neg, ds) = (case r of [] \<Rightarrow> (False, [])
                | d # r' \<Rightarrow> if d = CHR ''-'' then (True, r') else if d = CHR ''+'' then (False, r')
                            else (False, r))
              in if ds = [] \<or> \<not> list_all (is_digit_in 10) ds then None
                 else Some (if neg then - int (of_digits 10 ds) else int (of_digits 10 ds))))"

definition parse_unsigned_decimal :: "string \<Rightarrow> rat option" where
  "parse_unsigned_decimal s =
     (let ip = takeWhile (is_digit_in 10) s;
          r1 = dropWhile (is_digit_in 10) s;
          (fp, r2) = (case r1 of [] \<Rightarrow> ([], []) 
             | c # r \<Rightarrow> if c = CHR ''.'' then (takeWhile (is_digit_in 10) r, dropWhile (is_digit_in 10) r)
                         else ([], r1))
      in if ip = [] \<and> fp = [] then None
         else map_option
           (\<lambda>e. (rat_of_nat (of_digits 10 ip) + rat_of_nat (of_digits 10 fp) / 10 ^ length fp) * pow10 e)
           (parse_exponent r2))"

definition prefixed_digits :: "nat \<Rightarrow> string \<Rightarrow> jsnum" where
  "prefixed_digits b s =
     (if s \<noteq> [] \<and> list_all (is_digit_in b) s then clamp_double (rat_of_nat (of_digits b s)) else NaN)"

text \<open>\<open>Number(s)\<close> for a string.\<close>

definition js_Number :: "string \<Rightarrow> jsnum" where
  "js_Number str =
     (let s = trim str; low = to_lower (take 2 s)
      in if s = [] then Fin 0
         else if low = ''0x'' then prefixed_digits 16 (drop 2 s)
         else if low = ''0o'' then prefixed_digits 8 (drop 2 s)
         else if low = ''0b'' then prefixed_digits 2 (drop 2 s)
         else (let (neg, u) = (case s of [] \<Rightarrow> (False, [])
                 | c # r \<Rightarrow> if c = CHR ''-'' then (True, r) else if c = CHR ''+'' then (False, r)
                            else (False, s))
               in if u = ''Infinity'' then (if neg then NegInf else PosInf)
                  else case parse_unsigned_decimal u of None \<Rightarrow> NaN
                       | Some q \<Rightarrow> clamp_double (if neg then - q else q)))"

text \<open>\<open>String(n)\<close> for a finite number below \<open>10 ^ 21\<close>; the text of a number that is not an integer is the
  parameter \<open>frac_str\<close>.\<close>

definition number_text :: "(rat \<Rightarrow> string) \<Rightarrow> rat \<Rightarrow> string" where
  "number_text frac_str q = (if q = rat_of_int \<lfloor>q\<rfloor> then int_str \<lfloor>q\<rfloor> else frac_str q)"

section \<open>JSON\<close>

text \<open>
  A JSON value. A number is kept as the text \<open>JSON.stringify\<close> writes for it, an object as its
  members in order. A payload of type \<open>unknown\<close> is \<open>json option\<close>: \<open>None\<close> is \<open>undefined\<close>.
\<close>

datatype json = JNull | JBool bool | JNum string | JStr string | JArr "json list"
  | JObj "(string \<times> json) list"

definition hex4 :: "nat \<Rightarrow> string" where
  "hex4 n = pad_zeros 4 (to_radix 16 n)"

definition quote_char :: char where "quote_char = CHR 0x22"
definition backslash_char :: char where "backslash_char = CHR 0x5C"

definition escape_char :: "char \<Rightarrow> string" where
  "escape_char c =
     (let n = (of_char c :: nat)
      in if n = 34 then [backslash_char, quote_char]
         else if n = 92 then [backslash_char, backslash_char]
         else if n = 8 then [backslash_char, CHR ''b'']
         else if n = 9 then [backslash_char, CHR ''t'']
         else if n = 10 then [backslash_char, CHR ''n'']
         else if n = 12 then [backslash_char, CHR ''f'']
         else if n = 13 then [backslash_char, CHR ''r'']
         else if n < 32 then [backslash_char, CHR ''u''] @ hex4 n
         else [c])"

definition quote_str :: "string \<Rightarrow> string" where
  "quote_str s = [quote_char] @ concat (map escape_char s) @ [quote_char]"

fun stringify :: "json \<Rightarrow> string" where
  "stringify JNull = ''null''"
| "stringify (JBool b) = (if b then ''true'' else ''false'')"
| "stringify (JNum t) = t"
| "stringify (JStr s) = quote_str s"
| "stringify (JArr xs) = ''['' @ join_with '','' (map stringify xs) @ '']''"
| "stringify (JObj ms) =
     ''{'' @ join_with '','' (map (\<lambda>(k, v). quote_str k @ '':'' @ stringify v) ms) @ ''}''"

text \<open>The text of a number: digits, sign, point and exponent.\<close>

fun wf_json :: "json \<Rightarrow> bool" where
  "wf_json (JNum t) = (t \<noteq> [] \<and> list_all (\<lambda>c. is_digit_in 10 c \<or> c \<in> {CHR ''+'', CHR ''-'', CHR ''.'', CHR ''e''}) t)"
| "wf_json (JArr xs) = list_all wf_json xs"
| "wf_json (JObj ms) = list_all (\<lambda>(k, v). wf_json v) ms"
| "wf_json _ = True"

section \<open>Numbers printed and read back\<close>

lemma digit_val_digit_chars: "d < 36 \<Longrightarrow> digit_val (digit_chars ! d) = Some d"
proof -
  have "list_all (\<lambda>d. digit_val (digit_chars ! d) = Some d) [0..<36]"
    by code_simp
  then show "d < 36 \<Longrightarrow> ?thesis"
    by (simp add: list_all_iff)
qed

lemma of_digits_snoc: "of_digits b (s @ [c]) = of_digits b s * b + the (digit_val c)"
  by (simp add: of_digits_def)

lemma of_digits_to_radix: "2 \<le> b \<Longrightarrow> b \<le> 36 \<Longrightarrow> of_digits b (to_radix b n) = n"
proof (induction b n rule: to_radix.induct)
  case (1 b n)
  show ?case
  proof (cases "n < b")
    case True
    with 1 show ?thesis
      by (subst to_radix.simps) (simp add: of_digits_def digit_val_digit_chars)
  next
    case False
    with 1 have "of_digits b (to_radix b (n div b)) = n div b" by simp
    moreover have "n mod b < 36"
      using 1(3) 1(2) by (metis mod_less_divisor less_le_trans pos2)
    ultimately show ?thesis using False 1(2)
      by (subst to_radix.simps) (simp add: of_digits_snoc digit_val_digit_chars)
  qed
qed

lemma to_radix_digits:
  "2 \<le> b \<Longrightarrow> b \<le> 36 \<Longrightarrow> c \<in> set (to_radix b n) \<Longrightarrow> is_digit_in b c"
proof (induction b n rule: to_radix.induct)
  case (1 b n)
  show ?case
  proof (cases "n < b")
    case True
    with 1 show ?thesis
      by (simp add: to_radix.simps [of b n] is_digit_in_def digit_val_digit_chars)
  next
    case False
    have "n mod b < b" using 1(2) by simp
    then have "is_digit_in b (digit_chars ! (n mod b))"
      using 1(3) by (simp add: is_digit_in_def digit_val_digit_chars)
    with False 1 show ?thesis
      by (auto simp: to_radix.simps [of b n])
  qed
qed

lemma to_radix_not_Nil [simp]: "to_radix b n \<noteq> []"
  by (subst to_radix.simps) simp

lemma length_to_radix: "0 < k \<Longrightarrow> n < 10 ^ k \<Longrightarrow> length (to_radix 10 n) \<le> k"
proof (induction k arbitrary: n)
  case (Suc k)
  show ?case
  proof (cases "n < 10")
    case True
    then show ?thesis by (simp add: to_radix.simps [of 10 n])
  next
    case False
    then have "0 < k" using Suc.prems(2) by (cases k) auto
    moreover have "n div 10 < 10 ^ k" using Suc.prems(2) by (simp add: less_mult_imp_div_less mult.commute)
    ultimately have "length (to_radix 10 (n div 10)) \<le> k" by (rule Suc.IH)
    with False show ?thesis by (simp add: to_radix.simps [of 10 n])
  qed
qed simp

lemma of_digits_nat_str [simp]: "of_digits 10 (nat_str n) = n"
  unfolding nat_str_def by (rule of_digits_to_radix) simp_all

lemma inj_nat_str: "nat_str m = nat_str n \<Longrightarrow> m = n"
  by (metis of_digits_nat_str)

lemma nat_str_digits: "c \<in> set (nat_str n) \<Longrightarrow> is_digit_in 10 c"
  unfolding nat_str_def using to_radix_digits [of 10 c n] by simp

lemma nat_str_not_Nil [simp]: "nat_str n \<noteq> []"
  by (simp add: nat_str_def)

text \<open>Characters that are no decimal digit never occur in a printed number.\<close>

lemma nat_str_no_char: "\<not> is_digit_in 10 c \<Longrightarrow> c \<notin> set (nat_str n)"
  using nat_str_digits by blast

lemma not_digit_simps [simp]:
  "\<not> is_digit_in 10 CHR '':''" "\<not> is_digit_in 10 CHR '','' " "\<not> is_digit_in 10 CHR '' ''"
  "\<not> is_digit_in 10 CHR ''.''" "\<not> is_digit_in 10 CHR ''-''" "\<not> is_digit_in 10 CHR ''+''"
  "\<not> is_digit_in 10 CHR ''#''" "\<not> is_digit_in 10 CHR 0x22" "\<not> is_digit_in 10 CHR 0x5C"
  by (simp_all add: is_digit_in_def digit_val_def)

lemma is_space_not_digit: "is_digit_in 10 c \<Longrightarrow> \<not> is_space c"
  by (auto simp: is_digit_in_def is_space_def digit_val_def Let_def split: if_splits option.splits)

lemma int_str_not_Nil [simp]: "int_str i \<noteq> []"
  by (simp add: int_str_def)

lemma number_text_int [simp]: "number_text frac_str (rat_of_int i) = int_str i"
  by (simp add: number_text_def)

section \<open>No control character in JSON text\<close>

definition nul_char :: char where "nul_char = CHR 0x00"

lemma nul_not_digit: "\<not> is_digit_in b nul_char"
  by (simp add: is_digit_in_def digit_val_def nul_char_def)

lemma nul_not_plain: "nul_char \<noteq> quote_char" "nul_char \<noteq> backslash_char"
  by (simp_all add: nul_char_def quote_char_def backslash_char_def)

lemma hex4_no_nul: "nul_char \<notin> set (hex4 n)"
  using to_radix_digits [of 16 nul_char n] nul_not_digit [of 16]
  by (auto simp: hex4_def pad_zeros_def) (simp add: nul_char_def)

lemma escape_char_no_nul: "nul_char \<notin> set (escape_char c)"
proof -
  have "c \<noteq> nul_char" if "\<not> (of_char c :: nat) < 32"
    using that by (auto simp: nul_char_def)
  then show ?thesis
    using hex4_no_nul [of "of_char c"] nul_not_plain
    by (auto simp: escape_char_def Let_def) (simp_all add: nul_char_def)
qed

lemma quote_str_no_nul: "nul_char \<notin> set (quote_str s)"
  using nul_not_plain escape_char_no_nul by (auto simp: quote_str_def)

lemma join_with_chars: "c \<in> set (join_with sep xs) \<Longrightarrow> c \<in> set sep \<or> (\<exists>x \<in> set xs. c \<in> set x)"
  by (induction xs rule: induct_list012) auto

lemma stringify_no_nul: "wf_json j \<Longrightarrow> nul_char \<notin> set (stringify j)"
proof (induction j rule: stringify.induct)
  case (3 t)
  then show ?case using nul_not_digit [of 10] by (auto simp: list_all_iff) (auto simp: nul_char_def)
next
  case (5 xs)
  then show ?case
    by (auto simp: list_all_iff nul_char_def dest!: join_with_chars)
next
  case (6 ms)
  have "nul_char \<notin> set (quote_str k @ '':'' @ stringify v)" if "(k, v) \<in> set ms" for k v
    using 6 that quote_str_no_nul by (fastforce simp: list_all_iff nul_char_def)
  then show ?case by (auto simp: nul_char_def dest!: join_with_chars)
qed (auto simp: quote_str_no_nul, simp_all add: nul_char_def)

text \<open>A quoted text can be read back from the front of a longer one: no escape is the start of another.\<close>

lemma escape_char_first: "escape_char c = x # xs \<Longrightarrow> x \<noteq> quote_char"
  by (auto simp: escape_char_def Let_def quote_char_def backslash_char_def split: if_splits)

lemma escape_char_Nil: "escape_char c \<noteq> []"
  by (simp add: escape_char_def Let_def)

lemma hex4_inj: "m < 32 \<Longrightarrow> n < 32 \<Longrightarrow> hex4 m @ x = hex4 n @ y \<Longrightarrow> m = n \<and> x = y"
proof -
  have "list_all (\<lambda>m. length (hex4 m) = 4 \<and> of_digits 16 (hex4 m) = m) [0..<32]" by code_simp
  then have h: "length (hex4 m) = 4 \<and> of_digits 16 (hex4 m) = m" if "m < 32" for m using that by (simp add: list_all_iff)
  assume "m < 32" "n < 32" "hex4 m @ x = hex4 n @ y"
  with h [of m] h [of n] show ?thesis by (metis append_eq_append_conv)
qed

lemma escape_char_prefix: "escape_char c @ x = escape_char d @ y \<Longrightarrow> c = d \<and> x = y"
proof -
  define m n where "m = (of_char c :: nat)" and "n = (of_char d :: nat)"
  have eq: "c = d \<longleftrightarrow> m = n" by (simp add: m_def n_def)
  have "(of_char backslash_char :: nat) = 92" by (simp add: backslash_char_def)
  then have bs: "c = backslash_char \<longleftrightarrow> m = 92" "d = backslash_char \<longleftrightarrow> n = 92"
    unfolding m_def n_def by (metis of_char_eq_iff)+
  assume "escape_char c @ x = escape_char d @ y"
  then show ?thesis
    unfolding escape_char_def Let_def m_def [symmetric] n_def [symmetric] eq
    using hex4_inj [of m n x y] bs eq
    by (auto simp: quote_char_def backslash_char_def split: if_splits)
qed

lemma escapes_prefix:
  "concat (map escape_char s) @ quote_char # x = concat (map escape_char s') @ quote_char # y \<Longrightarrow> s = s' \<and> x = y"
proof (induction s arbitrary: s')
  case Nil
  then show ?case using escape_char_first escape_char_Nil by (cases s') (auto, metis append_Cons neq_Nil_conv list.inject)
next
  case (Cons c s)
  show ?case
  proof (cases s')
    case Nil
    then show ?thesis using Cons.prems escape_char_first escape_char_Nil [of c] by (auto, metis append_Cons neq_Nil_conv list.inject)
  next
    case (Cons d t)
    with Cons.prems escape_char_prefix [of c _ d] Cons.IH [of t] show ?thesis by simp
  qed
qed

lemma quote_str_prefix: "quote_str s @ x = quote_str s' @ y \<Longrightarrow> s = s' \<and> x = y"
  using escapes_prefix [of s x s' y] by (simp add: quote_str_def)

end
