(* ===== verification/Core_Types.thy ===== *)
theory Core_Types
  imports Js_Values
begin

text \<open>
  The domain types of \<open>packages/core/src/types\<close>. Field names carry a prefix for their record,
  since Isabelle's field selectors are global. An optional field is an \<open>option\<close>.
\<close>

section \<open>Events and receipts (event.ts)\<close>

record send_event =
  ev_type :: string
  ev_tenant :: string
  ev_payload :: "json option"
  ev_idempotencyKey :: "string option"
  ev_metadata :: "(string \<times> string) list option"

record receipt =
  rc_eventId :: string
  rc_accepted :: bool
  rc_messageCount :: nat

section \<open>Endpoints, circuits, rate buckets (endpoint.ts)\<close>

record endpoint =
  ep_endpointId :: string
  ep_tenant :: string
  ep_url :: string
  ep_eventTypes :: "string list"
  ep_description :: "string option"
  ep_disabled :: bool
  ep_rateLimit :: "rat option"
  ep_createdAt :: millis
  ep_secrets :: "string list"

datatype circuit_state = Closed | Open | HalfOpen

record circuit_record =
  ci_state :: circuit_state
  ci_consecutiveFailures :: nat
  ci_openedAt :: "millis option"
  ci_cooldownMs :: millis

record rate_bucket =
  rb_tokens :: rat
  rb_lastRefillMs :: millis

section \<open>Messages (message.ts)\<close>

datatype message_status = Pending | Delivering | Delivered | Retrying | Blocked | Dead

record message =
  msg_messageId :: string
  msg_tenant :: string
  msg_endpointId :: string
  msg_eventId :: string
  msg_eventType :: string
  msg_payload :: "json option"
  msg_attemptNo :: int
  msg_status :: message_status
  msg_nextAttemptAt :: "millis option"
  msg_createdAt :: millis

section \<open>Attempts and dead-letter reasons (attempt.ts)\<close>

datatype attempt_status = HttpStatus int | Timeout | Network

datatype attempt_outcome = AttDelivered | AttRetried | AttDead

record attempt =
  att_messageId :: string
  att_endpointId :: string
  att_tenant :: string
  att_eventType :: string
  att_attemptNo :: int
  att_status :: attempt_status
  att_latencyMs :: millis
  att_respSnippet :: string
  att_ts :: millis
  att_outcome :: attempt_outcome

datatype dlq_reason = ExhaustedRetries | Permanent4xx | BlockedSsrf | EndpointGone | CircuitOpenExpired

section \<open>Configuration (config.ts)\<close>

record retry_config =
  scheduleMs :: "millis list"

record circuit_config =
  failureThreshold :: nat
  cooldownMs :: millis

section \<open>Clock and random source (ports/index.ts)\<close>

type_synonym 'w clock = "('w, millis) io"
type_synonym 'w rng = "('w, rat) io"

end
