(* ===== verification/Core_Policy.thy ===== *)
theory Core_Policy
  imports Core_Types
begin

text \<open>
  The delivery policies of \<open>packages/core/src/policy\<close>: full jitter, outcome classification, the
  retry schedule, the per-endpoint circuit breaker and the token bucket. The lemmas give the bounds
  of every delay, the reachable states of the breaker, and what the bucket lets through over any
  sequence of calls. The arithmetic is that of the rationals: the tokens of a bucket and the wait of a
  throttled message are what the formulas of \<open>ratelimit.ts\<close> give without rounding, so that the wait the
  code computes in doubles can differ by a millisecond.
\<close>

section \<open>Full jitter (jitter.ts)\<close>

definition fullJitter :: "millis \<Rightarrow> 'w rng \<Rightarrow> ('w, millis) io" where
  "fullJitter baseMs rng = bind_io rng (\<lambda>r. return_io (baseMs * r))"

section \<open>Outcome classification (outcome.ts)\<close>

datatype outcome = OutDelivered | OutRetryable | OutPermanent

fun classifyOutcome :: "attempt_status \<Rightarrow> outcome" where
  "classifyOutcome Timeout = OutRetryable"
| "classifyOutcome Network = OutRetryable"
| "classifyOutcome (HttpStatus s) =
     (if s \<ge> 200 \<and> s < 300 then OutDelivered
      else if s = 429 then OutRetryable
      else if s \<ge> 300 \<and> s < 500 then OutPermanent
      else if s \<ge> 500 then OutRetryable
      else OutRetryable)"

section \<open>Retry schedule (retry.ts)\<close>

definition DEFAULT_SCHEDULE_MS :: "millis list" where
  "DEFAULT_SCHEDULE_MS =
     [5000, 30000, 120000, 600000, 1800000, 3600000, 10800000, 21600000]"

definition RETRY_AFTER_CAP_MS :: millis where
  "RETRY_AFTER_CAP_MS = 21600000"

definition DEFAULT_RETRY_CONFIG :: retry_config where
  "DEFAULT_RETRY_CONFIG = \<lparr>scheduleMs = DEFAULT_SCHEDULE_MS\<rparr>"

definition nextDelayMs ::
  "retry_config \<Rightarrow> int \<Rightarrow> 'w rng \<Rightarrow> millis option \<Rightarrow> ('w, millis option) io" where
  "nextDelayMs cfg attemptNo rng retryAfterMs =
     (if attemptNo < 0 \<or> attemptNo \<ge> int (length (scheduleMs cfg)) then return_io None
      else case retryAfterMs of
          Some r \<Rightarrow>
            if r \<ge> 0 then return_io (Some (min r RETRY_AFTER_CAP_MS))
            else bind_io (fullJitter (scheduleMs cfg ! nat attemptNo) rng) (\<lambda>d. return_io (Some d))
        | None \<Rightarrow>
            bind_io (fullJitter (scheduleMs cfg ! nat attemptNo) rng) (\<lambda>d. return_io (Some d)))"

section \<open>Circuit breaker (circuit.ts)\<close>

definition DEFAULT_FAILURE_THRESHOLD :: nat where
  "DEFAULT_FAILURE_THRESHOLD = 5"

definition DEFAULT_COOLDOWN_MS :: millis where
  "DEFAULT_COOLDOWN_MS = 30000"

definition initialCircuit :: "millis \<Rightarrow> circuit_record" where
  "initialCircuit cooldown =
     \<lparr>ci_state = Closed, ci_consecutiveFailures = 0, ci_openedAt = None, ci_cooldownMs = cooldown\<rparr>"

definition onFailure :: "circuit_record \<Rightarrow> millis \<Rightarrow> nat \<Rightarrow> circuit_record" where
  "onFailure rec now threshold =
     (if ci_state rec = HalfOpen
      then rec\<lparr>ci_state := Open, ci_consecutiveFailures := ci_consecutiveFailures rec + 1,
               ci_openedAt := Some now\<rparr>
      else let consecutiveFailures = ci_consecutiveFailures rec + 1
           in if consecutiveFailures \<ge> threshold
              then rec\<lparr>ci_state := Open, ci_consecutiveFailures := consecutiveFailures,
                       ci_openedAt := Some now\<rparr>
              else rec\<lparr>ci_state := Closed, ci_consecutiveFailures := consecutiveFailures,
                       ci_openedAt := None\<rparr>)"

definition onSuccess :: "circuit_record \<Rightarrow> circuit_record" where
  "onSuccess rec = rec\<lparr>ci_state := Closed, ci_consecutiveFailures := 0, ci_openedAt := None\<rparr>"

definition toHalfOpen :: "circuit_record \<Rightarrow> circuit_record" where
  "toHalfOpen rec = rec\<lparr>ci_state := HalfOpen\<rparr>"

text \<open>The pair is \<open>{ allow, probe }\<close>.\<close>

definition canAttempt :: "circuit_record \<Rightarrow> millis \<Rightarrow> bool \<times> bool" where
  "canAttempt rec now =
     (if ci_state rec = Closed then (True, False)
      else if ci_state rec = HalfOpen then (True, True)
      else let elapsed = now - (case ci_openedAt rec of Some t \<Rightarrow> t | None \<Rightarrow> 0)
           in if elapsed \<ge> ci_cooldownMs rec then (True, True) else (False, False))"

section \<open>Token bucket (ratelimit.ts)\<close>

definition capacityFor :: "rat \<Rightarrow> rat" where
  "capacityFor rateLimitPerSec = max 1 rateLimitPerSec"

definition initialBucket :: "rat \<Rightarrow> millis \<Rightarrow> rate_bucket" where
  "initialBucket rateLimitPerSec now =
     \<lparr>rb_tokens = capacityFor rateLimitPerSec, rb_lastRefillMs = now\<rparr>"

record rate_decision =
  rd_allowed :: bool
  rd_bucket :: rate_bucket
  rd_retryAfterMs :: millis

text \<open>Callers pass a positive rate, so the division below is the source's.\<close>

definition consumeToken :: "rate_bucket \<Rightarrow> rat \<Rightarrow> millis \<Rightarrow> rate_decision" where
  "consumeToken bucket rateLimitPerSec now =
     (let capacity = capacityFor rateLimitPerSec;
          elapsedSec = max 0 ((now - rb_lastRefillMs bucket) / 1000);
          tokens = min capacity (rb_tokens bucket + elapsedSec * rateLimitPerSec)
      in if tokens \<ge> 1
         then \<lparr>rd_allowed = True, rd_bucket = \<lparr>rb_tokens = tokens - 1, rb_lastRefillMs = now\<rparr>,
               rd_retryAfterMs = 0\<rparr>
         else \<lparr>rd_allowed = False, rd_bucket = \<lparr>rb_tokens = tokens, rb_lastRefillMs = now\<rparr>,
               rd_retryAfterMs = rat_of_int \<lceil>((1 - tokens) / rateLimitPerSec) * 1000\<rceil>\<rparr>)"

section \<open>The random source as an interface\<close>

text \<open>
  \<open>Rng.next()\<close> draws uniformly from \<open>[0, 1)\<close> and never throws. What the policies promise of
  delays is proved once from that law.
\<close>

locale rng_source =
  fixes rng :: "'w rng" and ok :: "'w \<Rightarrow> bool"
  assumes rng_draw: "ok w \<Longrightarrow> \<exists>r. fst (rng w) = Inr r \<and> 0 \<le> r \<and> r < 1"
    and rng_inv: "ok w \<Longrightarrow> ok (snd (rng w))"
begin

lemma rng_cases:
  assumes "ok w"
  obtains r where "fst (rng w) = Inr r" and "0 \<le> r" and "r < 1"
  using rng_draw [OF assms] by blast

lemma fullJitter_bounds:
  assumes "ok w" and "0 \<le> base"
  shows "\<exists>d. fst (fullJitter base rng w) = Inr d \<and> 0 \<le> d \<and> d \<le> base"
proof -
  obtain r where r: "fst (rng w) = Inr r" "0 \<le> r" "r < 1"
    using rng_cases [OF assms(1)] .
  then have "base * r \<le> base"
    using assms(2) by (simp add: mult_left_le)
  with r assms(2) show ?thesis
    by (simp add: fullJitter_def io_run)
qed

lemma fullJitter_world: "ok w \<Longrightarrow> snd (fullJitter base rng w) = snd (rng w)"
  by (rule rng_cases, assumption) (simp add: fullJitter_def io_run)

text \<open>The delay before the next attempt: none exactly when the schedule is used up; otherwise within
  the larger of the step's base and the cap.\<close>

lemma nextDelayMs_exhausted:
  "attemptNo < 0 \<or> attemptNo \<ge> int (length (scheduleMs cfg)) \<Longrightarrow>
   nextDelayMs cfg attemptNo rng ra w = (Inr None, w)"
  by (simp add: nextDelayMs_def)

lemma nextDelayMs_bounds:
  assumes "ok w" and "\<forall>b \<in> set (scheduleMs cfg). 0 \<le> b"
    and n: "0 \<le> n" "n < int (length (scheduleMs cfg))"
  shows "\<exists>d. fst (nextDelayMs cfg n rng ra w) = Inr (Some d) \<and> 0 \<le> d
             \<and> (case ra of Some r \<Rightarrow> 0 \<le> r \<longrightarrow> d = min r RETRY_AFTER_CAP_MS | None \<Rightarrow> True)
             \<and> ((case ra of Some r \<Rightarrow> r < 0 | None \<Rightarrow> True) \<longrightarrow> d \<le> scheduleMs cfg ! nat n)"
proof -
  have "0 \<le> scheduleMs cfg ! nat n"
    using assms(2) n by simp
  from fullJitter_bounds [OF assms(1) this] obtain d where
    d: "fst (fullJitter (scheduleMs cfg ! nat n) rng w) = Inr d" "0 \<le> d" "d \<le> scheduleMs cfg ! nat n"
    by blast
  then show ?thesis
    using n by (cases ra) (auto simp: nextDelayMs_def io_run RETRY_AFTER_CAP_MS_def)
qed

lemma nextDelayMs_inv: "ok w \<Longrightarrow> ok (snd (nextDelayMs cfg n rng ra w))"
  by (rule rng_cases, assumption)
     (auto simp: nextDelayMs_def fullJitter_def io_run rng_inv split: option.splits)

end

section \<open>The breaker as a state machine\<close>

text \<open>
  How the engine drives a record: a gate that lets a probe through moves it to half-open, a
  delivery that went through the gate ends in \<open>onSuccess\<close> or \<open>onFailure\<close>.
\<close>

inductive circuit_step :: "nat \<Rightarrow> circuit_record \<Rightarrow> circuit_record \<Rightarrow> bool" for threshold where
  probe: "canAttempt c now = (True, True) \<Longrightarrow> circuit_step threshold c (toHalfOpen c)"
| success: "ci_state c \<noteq> Open \<Longrightarrow> circuit_step threshold c (onSuccess c)"
| failure: "ci_state c \<noteq> Open \<Longrightarrow> circuit_step threshold c (onFailure c now threshold)"

inductive circuit_reachable :: "nat \<Rightarrow> circuit_record \<Rightarrow> bool" for threshold where
  start: "circuit_reachable threshold (initialCircuit cooldown)"
| step: "circuit_reachable threshold c \<Longrightarrow> circuit_step threshold c c' \<Longrightarrow> circuit_reachable threshold c'"

inductive_cases circuit_stepE: "circuit_step threshold c c'"

text \<open>
  What a record says about its endpoint: closed below the threshold and with no opening time,
  otherwise at or above the threshold with the time it opened.
\<close>

definition circuit_wf :: "nat \<Rightarrow> circuit_record \<Rightarrow> bool" where
  "circuit_wf threshold c \<longleftrightarrow>
     (if ci_state c = Closed then ci_consecutiveFailures c < threshold \<and> ci_openedAt c = None
      else ci_consecutiveFailures c \<ge> threshold \<and> ci_openedAt c \<noteq> None)"

lemmas circuit_defs = onFailure_def onSuccess_def toHalfOpen_def canAttempt_def initialCircuit_def

lemma circuit_wf_initial [simp]: "0 < threshold \<Longrightarrow> circuit_wf threshold (initialCircuit cooldown)"
  by (simp add: circuit_wf_def circuit_defs)

lemma circuit_wf_onSuccess [simp]: "0 < threshold \<Longrightarrow> circuit_wf threshold (onSuccess c)"
  by (simp add: circuit_wf_def circuit_defs)

lemma circuit_wf_toHalfOpen:
  "circuit_wf threshold c \<Longrightarrow> ci_state c \<noteq> Closed \<Longrightarrow> circuit_wf threshold (toHalfOpen c)"
  by (simp add: circuit_wf_def circuit_defs)

lemma circuit_wf_onFailure:
  "circuit_wf threshold c \<Longrightarrow> circuit_wf threshold (onFailure c now threshold)"
  by (auto simp: circuit_wf_def circuit_defs Let_def split: if_splits)

lemma circuit_wf_cooldown [simp]: "circuit_wf threshold (c\<lparr>ci_cooldownMs := d\<rparr>) = circuit_wf threshold c"
  by (simp add: circuit_wf_def)

lemma canAttempt_probe_open: "canAttempt c now = (a, True) \<Longrightarrow> ci_state c \<noteq> Closed"
  by (auto simp: canAttempt_def)

lemma circuit_step_wf:
  "circuit_step threshold c c' \<Longrightarrow> 0 < threshold \<Longrightarrow> circuit_wf threshold c \<Longrightarrow> circuit_wf threshold c'"
  by (induction rule: circuit_step.induct)
     (auto intro: circuit_wf_toHalfOpen circuit_wf_onFailure dest: canAttempt_probe_open)

text \<open>A run of consecutive failures through the gate.\<close>

fun fail_run :: "nat \<Rightarrow> circuit_record \<Rightarrow> millis list \<Rightarrow> circuit_record" where
  "fail_run threshold c [] = c"
| "fail_run threshold c (t # ts) = fail_run threshold (onFailure c t threshold) ts"

lemma fail_run_closed:
  "ci_state c = Closed \<Longrightarrow> ci_consecutiveFailures c + length ts < threshold \<Longrightarrow>
   ci_state (fail_run threshold c ts) = Closed
   \<and> ci_consecutiveFailures (fail_run threshold c ts) = ci_consecutiveFailures c + length ts"
  by (induction ts arbitrary: c) (auto simp: onFailure_def)

lemma fail_run_append: "fail_run threshold c (ts @ us) = fail_run threshold (fail_run threshold c ts) us"
  by (induction ts arbitrary: c) auto

lemma fail_run_cooldown [simp]: "ci_cooldownMs (fail_run threshold c ts) = ci_cooldownMs c"
  by (induction ts arbitrary: c) (auto simp: onFailure_def Let_def)

section \<open>What the bucket lets through\<close>

definition bucket_ok :: "rat \<Rightarrow> rate_bucket \<Rightarrow> bool" where
  "bucket_ok rate b \<longleftrightarrow> 0 \<le> rb_tokens b \<and> rb_tokens b \<le> capacityFor rate"

lemma capacityFor_pos [simp]: "1 \<le> capacityFor rate"
  by (simp add: capacityFor_def)

lemma bucket_ok_initial [simp]: "bucket_ok rate (initialBucket rate now)"
  using capacityFor_pos [of rate] by (simp add: bucket_ok_def initialBucket_def del: capacityFor_pos)

lemma bucket_ok_consume: "0 < rate \<Longrightarrow> bucket_ok rate b \<Longrightarrow> bucket_ok rate (rd_bucket (consumeToken b rate now))"
  using capacityFor_pos [of rate] by (auto simp: bucket_ok_def consumeToken_def Let_def)

lemma consumeToken_refill_time [simp]: "rb_lastRefillMs (rd_bucket (consumeToken b rate now)) = now"
  by (simp add: consumeToken_def Let_def)

text \<open>A sequence of calls, and how many of them were allowed.\<close>

fun consume_run :: "rat \<Rightarrow> rate_bucket \<Rightarrow> millis list \<Rightarrow> nat" where
  "consume_run rate b [] = 0"
| "consume_run rate b (t # ts) =
     (let d = consumeToken b rate t
      in (if rd_allowed d then 1 else 0) + consume_run rate (rd_bucket d) ts)"

text \<open>One call: what is allowed plus what is left never exceeds what was there plus the refill.\<close>

lemma consumeToken_budget:
  assumes "0 < rate" and "rb_lastRefillMs b \<le> now"
  shows "(if rd_allowed (consumeToken b rate now) then 1 else 0)
           + rb_tokens (rd_bucket (consumeToken b rate now))
         \<le> rb_tokens b + rate * (now - rb_lastRefillMs b) / 1000"
  using assms by (auto simp: consumeToken_def Let_def max_def min_def algebra_simps)

lemma consume_run_budget:
  assumes "0 < rate" and "bucket_ok rate b"
    and "sorted (rb_lastRefillMs b # ts)"
  shows "rat_of_nat (consume_run rate b ts)
         \<le> rb_tokens b + rate * (last (rb_lastRefillMs b # ts) - rb_lastRefillMs b) / 1000"
  using assms(2,3)
proof (induction ts arbitrary: b)
  case Nil
  then show ?case by (simp add: bucket_ok_def)
next
  case (Cons t ts)
  let ?d = "consumeToken b rate t" and ?fin = "last (t # ts)"
  have "rb_lastRefillMs b \<le> t" and "sorted (rb_lastRefillMs (rd_bucket ?d) # ts)"
    using Cons.prems by simp_all
  then have step: "(if rd_allowed ?d then 1 else 0) + rb_tokens (rd_bucket ?d)
      \<le> rb_tokens b + rate * (t - rb_lastRefillMs b) / 1000"
    and rest: "rat_of_nat (consume_run rate (rd_bucket ?d) ts)
      \<le> rb_tokens (rd_bucket ?d) + rate * (?fin - t) / 1000"
    using consumeToken_budget [OF assms(1)] Cons.IH [OF bucket_ok_consume [OF assms(1) Cons.prems(1)], of t]
    by simp_all
  have "rate * (t - rb_lastRefillMs b) / 1000 + rate * (?fin - t) / 1000
      = rate * (?fin - rb_lastRefillMs b) / 1000"
    by (simp add: field_simps)
  with step rest have "(if rd_allowed ?d then 1 else 0) + rat_of_nat (consume_run rate (rd_bucket ?d) ts)
      \<le> rb_tokens b + rate * (?fin - rb_lastRefillMs b) / 1000"
    by linarith
  then show ?case by (simp add: Let_def split: if_splits)
qed

section \<open>Properties\<close>

text \<open>
  C38: over any sequence of deliveries at non-decreasing times, the token bucket lets through at most
  its burst capacity (the rate, at least one) plus the rate times the seconds that passed.
\<close>

theorem rate_limit_budget:
  assumes "0 < rate" and "bucket_ok rate b" and "sorted (rb_lastRefillMs b # ts)"
  shows "rat_of_nat (consume_run rate b ts)
         \<le> capacityFor rate + rate * (last (rb_lastRefillMs b # ts) - rb_lastRefillMs b) / 1000"
  using consume_run_budget [OF assms] assms(2) by (simp add: bucket_ok_def)

theorem rate_limit_budget_witness:
  "consume_run 2 (initialBucket 2 0) [0, 0, 0, 500, 900] = 3 \<and> (3 :: rat) \<le> capacityFor 2 + 2 * (900 - 0) / 1000"
proof -
  have "consumeToken \<lparr>rb_tokens = 2, rb_lastRefillMs = 0\<rparr> 2 0
      = \<lparr>rd_allowed = True, rd_bucket = \<lparr>rb_tokens = 1, rb_lastRefillMs = 0\<rparr>, rd_retryAfterMs = 0\<rparr>"
    and "consumeToken \<lparr>rb_tokens = 1, rb_lastRefillMs = 0\<rparr> 2 0
      = \<lparr>rd_allowed = True, rd_bucket = \<lparr>rb_tokens = 0, rb_lastRefillMs = 0\<rparr>, rd_retryAfterMs = 0\<rparr>"
    and "consumeToken \<lparr>rb_tokens = 0, rb_lastRefillMs = 0\<rparr> 2 0
      = \<lparr>rd_allowed = False, rd_bucket = \<lparr>rb_tokens = 0, rb_lastRefillMs = 0\<rparr>, rd_retryAfterMs = 500\<rparr>"
    and "consumeToken \<lparr>rb_tokens = 0, rb_lastRefillMs = 0\<rparr> 2 500
      = \<lparr>rd_allowed = True, rd_bucket = \<lparr>rb_tokens = 0, rb_lastRefillMs = 500\<rparr>, rd_retryAfterMs = 0\<rparr>"
    and "\<not> rd_allowed (consumeToken \<lparr>rb_tokens = 0, rb_lastRefillMs = 500\<rparr> 2 900)"
    by (simp_all add: consumeToken_def capacityFor_def)
  then have n: "consume_run 2 (initialBucket 2 0) [0, 0, 0, 500, 900] = 3"
    by (simp add: initialBucket_def capacityFor_def Let_def)
  have "sorted (rb_lastRefillMs (initialBucket 2 0) # [0, 0, 0, 500, 900])"
    by (simp add: initialBucket_def)
  from rate_limit_budget [OF _ bucket_ok_initial this] n show ?thesis
    by (simp add: initialBucket_def)
qed

text \<open>
  Every circuit record the engine can reach is consistent: a closed circuit is below its threshold
  and has no opening time; an open or half-open one has reached the threshold and knows when it opened.
\<close>

theorem circuit_reachable_wf:
  assumes "circuit_reachable threshold c" and "0 < threshold"
  shows "circuit_wf threshold c"
  using assms by (induction rule: circuit_reachable.induct) (auto intro: circuit_step_wf)

theorem circuit_reachable_wf_witness:
  "circuit_reachable 1 (toHalfOpen (onFailure (initialCircuit 10) 5 1))
   \<and> circuit_wf 1 (toHalfOpen (onFailure (initialCircuit 10) 5 1))"
proof -
  have "circuit_step 1 (initialCircuit 10) (onFailure (initialCircuit 10) 5 1)"
    by (rule circuit_step.failure) (simp add: circuit_defs)
  then have "circuit_reachable 1 (onFailure (initialCircuit 10) 5 1)"
    by (rule circuit_reachable.step [OF circuit_reachable.start])
  moreover have "circuit_step 1 (onFailure (initialCircuit 10) 5 1) (toHalfOpen (onFailure (initialCircuit 10) 5 1))"
    by (rule circuit_step.probe [where now = 15]) (simp add: circuit_defs)
  ultimately have "circuit_reachable 1 (toHalfOpen (onFailure (initialCircuit 10) 5 1))"
    by (rule circuit_reachable.step)
  with circuit_reachable_wf [OF this] show ?thesis by simp
qed

text \<open>
  C39: a healthy endpoint's circuit stays closed through \<open>threshold - 1\<close> failures in a row, opens at the
  failure that makes the threshold, and then refuses every attempt until the cooldown has passed since
  that failure.
\<close>

theorem circuit_opens_at_threshold:
  assumes "ci_state c = Closed" and "ci_consecutiveFailures c = 0" and "0 < threshold" and "length ts = threshold"
  shows "ci_state (fail_run threshold c (butlast ts)) = Closed
       \<and> ci_state (fail_run threshold c ts) = Open
       \<and> (fst (canAttempt (fail_run threshold c ts) now) \<longleftrightarrow> last ts + ci_cooldownMs c \<le> now)"
proof -
  let ?c = "fail_run threshold c (butlast ts)"
  have ts: "ts = butlast ts @ [last ts]" using assms(3,4) by (cases ts rule: rev_cases) auto
  then have run: "fail_run threshold c ts = onFailure ?c (last ts) threshold"
    by (metis fail_run.simps fail_run_append)
  have closed: "ci_state ?c = Closed" "ci_consecutiveFailures ?c = threshold - 1"
    using fail_run_closed [OF assms(1), of "butlast ts" threshold] assms(2-4) by simp_all
  then have "onFailure ?c (last ts) threshold
      = ?c\<lparr>ci_state := Open, ci_consecutiveFailures := threshold, ci_openedAt := Some (last ts)\<rparr>"
    using assms(3) by (simp add: onFailure_def Let_def)
  with run closed(1) show ?thesis
    by (auto simp: canAttempt_def Let_def)
qed

theorem circuit_opens_at_threshold_witness:
  "ci_state (fail_run 3 (initialCircuit 1000) [7, 8]) = Closed
   \<and> ci_state (fail_run 3 (initialCircuit 1000) [7, 8, 9]) = Open
   \<and> \<not> fst (canAttempt (fail_run 3 (initialCircuit 1000) [7, 8, 9]) 1008)
   \<and> fst (canAttempt (fail_run 3 (initialCircuit 1000) [7, 8, 9]) 1009)"
  using circuit_opens_at_threshold [of "initialCircuit 1000" 3 "[7, 8, 9]" 1008]
    circuit_opens_at_threshold [of "initialCircuit 1000" 3 "[7, 8, 9]" 1009]
  by (simp add: initialCircuit_def)

text \<open>
  For every random source in \<open>[0, 1)\<close>, the delay before the next attempt is \<open>null\<close> exactly when the
  attempt number is outside the schedule; a server's \<open>Retry-After\<close> is honoured up to the six-hour cap;
  otherwise the delay lies between zero and the schedule's base.
\<close>

theorem nextDelay_bounds:
  assumes "rng_source rng ok" and "ok w" and "\<forall>b \<in> set (scheduleMs cfg). 0 \<le> b"
  shows "\<exists>delay. fst (nextDelayMs cfg n rng ra w) = Inr delay \<and>
    (case delay of
       None \<Rightarrow> n < 0 \<or> int (length (scheduleMs cfg)) \<le> n
     | Some d \<Rightarrow> 0 \<le> n \<and> n < int (length (scheduleMs cfg)) \<and>
         (case ra of
            Some a \<Rightarrow> if 0 \<le> a then d = min a RETRY_AFTER_CAP_MS else 0 \<le> d \<and> d \<le> scheduleMs cfg ! nat n
          | None \<Rightarrow> 0 \<le> d \<and> d \<le> scheduleMs cfg ! nat n))"
proof (cases "n < 0 \<or> int (length (scheduleMs cfg)) \<le> n")
  case True
  then show ?thesis by (simp add: rng_source.nextDelayMs_exhausted [OF assms(1)])
next
  case False
  with rng_source.nextDelayMs_bounds [OF assms, of n ra] show ?thesis
    by (cases ra) (auto simp: not_le not_less)
qed

theorem nextDelay_bounds_witness:
  "rng_source (return_io (1 / 2)) (\<lambda>_. True)
   \<and> fst (nextDelayMs DEFAULT_RETRY_CONFIG 1 (return_io (1 / 2)) None ()) = Inr (Some 15000)
   \<and> (\<exists>delay. fst (nextDelayMs DEFAULT_RETRY_CONFIG 1 (return_io (1 / 2)) None ()) = Inr delay \<and> delay \<noteq> None)"
proof -
  have src: "rng_source (return_io (1 / 2)) (\<lambda>_. True)"
    by unfold_locales (auto intro: exI [of _ "1 / 2"])
  have nonneg: "\<forall>b \<in> set (scheduleMs DEFAULT_RETRY_CONFIG). 0 \<le> b"
    by (simp add: DEFAULT_RETRY_CONFIG_def DEFAULT_SCHEDULE_MS_def)
  have "fst (nextDelayMs DEFAULT_RETRY_CONFIG 1 (return_io (1 / 2)) None ()) = Inr (Some 15000)"
    by (simp add: nextDelayMs_def fullJitter_def bind_io_def DEFAULT_RETRY_CONFIG_def DEFAULT_SCHEDULE_MS_def)
  with src nextDelay_bounds [OF src _ nonneg, where w = "()" and n = 1 and ra = None] show ?thesis by simp
qed

end
