(* ===== verification/Core_Fanout.thy ===== *)
theory Core_Fanout
  imports Core_Policy
begin

text \<open>
  Identifiers and fan-out: \<open>packages/core/src/id.ts\<close> and \<open>packages/core/src/fanout.ts\<close>. The SHA-256
  digest of \<open>node:crypto\<close> is a parameter (text to hexadecimal digest).
\<close>

section \<open>Identifiers (id.ts)\<close>

definition ALPHABET :: string where
  "ALPHABET = ''abcdefghijklmnopqrstuvwxyz0123456789''"

text \<open>
  \<open>ALPHABET[Math.floor(r * 36) % 36]\<close>: the remainder takes the sign of the dividend, and an index
  out of range reads \<open>undefined\<close>, which concatenation writes out.
\<close>

definition alphabet_char :: "rat \<Rightarrow> string" where
  "alphabet_char r =
     (let k = \<lfloor>r * 36\<rfloor>
      in if 0 \<le> k \<or> k mod 36 = 0 then [ALPHABET ! nat (k mod 36)] else ''undefined'')"

fun newId_chars :: "'w rng \<Rightarrow> nat \<Rightarrow> ('w, string) io" where
  "newId_chars rng 0 = return_io []"
| "newId_chars rng (Suc n) =
     bind_io rng (\<lambda>r. bind_io (newId_chars rng n) (\<lambda>s. return_io (alphabet_char r @ s)))"

definition newId :: "string \<Rightarrow> 'w rng \<Rightarrow> nat \<Rightarrow> ('w, string) io" where
  "newId prefix rng len = bind_io (newId_chars rng len) (\<lambda>s. return_io (prefix @ ''_'' @ s))"

text \<open>The template literal separates the fields with the NUL character.\<close>

definition canonical_event :: "send_event \<Rightarrow> string" where
  "canonical_event e =
     ev_tenant e @ [nul_char] @ ev_type e @ [nul_char] @
     (case ev_payload e of Some p \<Rightarrow> stringify p | None \<Rightarrow> ''undefined'')"

definition deriveIdempotencyKey :: "(string \<Rightarrow> string) \<Rightarrow> send_event \<Rightarrow> string" where
  "deriveIdempotencyKey sha256_hex e = ''idem_'' @ take 32 (sha256_hex (canonical_event e))"

section \<open>Subscriptions and fan-out (fanout.ts)\<close>

definition pattern_matches :: "string \<Rightarrow> string \<Rightarrow> bool" where
  "pattern_matches eventType pattern \<longleftrightarrow>
     (if pattern = ''*'' \<or> pattern = eventType then True
      else if ends_with pattern ''.*'' then starts_with eventType (butlast pattern)
      else False)"

definition subscribes :: "endpoint \<Rightarrow> string \<Rightarrow> bool" where
  "subscribes e eventType \<longleftrightarrow> list_ex (pattern_matches eventType) (ep_eventTypes e)"

definition fanout_message :: "send_event \<Rightarrow> string \<Rightarrow> millis \<Rightarrow> endpoint \<Rightarrow> string \<Rightarrow> message" where
  "fanout_message event eventId now e messageId =
     \<lparr>msg_messageId = messageId, msg_tenant = ev_tenant event, msg_endpointId = ep_endpointId e,
      msg_eventId = eventId, msg_eventType = ev_type event, msg_payload = ev_payload event,
      msg_attemptNo = 0, msg_status = Pending, msg_nextAttemptAt = None, msg_createdAt = now\<rparr>"

definition fanout_one :: "send_event \<Rightarrow> string \<Rightarrow> 'w rng \<Rightarrow> millis \<Rightarrow> endpoint \<Rightarrow> ('w, message) io" where
  "fanout_one event eventId rng now e =
     bind_io (newId ''msg'' rng 20) (\<lambda>messageId. return_io (fanout_message event eventId now e messageId))"

definition fanout ::
  "send_event \<Rightarrow> string \<Rightarrow> endpoint list \<Rightarrow> 'w rng \<Rightarrow> millis \<Rightarrow> ('w, message list) io" where
  "fanout event eventId endpoints rng now =
     map_io (fanout_one event eventId rng now)
       (filter (\<lambda>e. \<not> ep_disabled e \<and> subscribes e (ev_type event)) endpoints)"

section \<open>Subscription patterns\<close>

text \<open>The three kinds of pattern: everything, one type, and all types below a dotted prefix.\<close>

lemma pattern_matches_iff:
  "pattern_matches ty p \<longleftrightarrow>
     p = ''*'' \<or> p = ty \<or> (\<exists>prefix rest. p = prefix @ ''.*'' \<and> ty = prefix @ ''.'' @ rest)"
proof -
  have "starts_with ty (butlast p) \<longleftrightarrow> (\<exists>rest. ty = prefix @ ''.'' @ rest)" if "p = prefix @ ''.*''" for prefix
    using that by (auto simp: starts_with_iff butlast_append)
  then show ?thesis
    by (auto simp: pattern_matches_def ends_with_iff)
qed

section \<open>What the identifiers look like\<close>

definition id_wf :: "string \<Rightarrow> nat \<Rightarrow> string \<Rightarrow> bool" where
  "id_wf prefix len i \<longleftrightarrow>
     (\<exists>s. i = prefix @ ''_'' @ s \<and> length s = len \<and> set s \<subseteq> set ALPHABET)"

lemma length_ALPHABET [simp]: "length ALPHABET = 36"
  by (simp add: ALPHABET_def)

lemma alphabet_char_draw:
  assumes "0 \<le> r" and "r < 1"
  shows "\<exists>c \<in> set ALPHABET. alphabet_char r = [c]"
proof -
  have "0 \<le> \<lfloor>r * 36\<rfloor>" using assms(1) by simp
  moreover have "nat (\<lfloor>r * 36\<rfloor> mod 36) < 36"
    by (simp add: nat_less_iff)
  ultimately show ?thesis
    by (auto simp: alphabet_char_def Let_def intro: nth_mem)
qed

context rng_source
begin

lemma newId_chars_run:
  "ok w \<Longrightarrow> \<exists>s. fst (newId_chars rng n w) = Inr s \<and> length s = n \<and> set s \<subseteq> set ALPHABET
             \<and> ok (snd (newId_chars rng n w))"
proof (induction n arbitrary: w)
  case (Suc n)
  obtain r where r: "fst (rng w) = Inr r" "0 \<le> r" "r < 1"
    using rng_cases [OF Suc.prems] .
  from alphabet_char_draw [OF r(2,3)] obtain c where c: "c \<in> set ALPHABET" "alphabet_char r = [c]"
    by blast
  from Suc.IH [OF rng_inv [OF Suc.prems]] obtain s where
    "fst (newId_chars rng n (snd (rng w))) = Inr s" "length s = n" "set s \<subseteq> set ALPHABET"
    "ok (snd (newId_chars rng n (snd (rng w))))"
    by blast
  with r(1) c show ?case by (simp add: io_run)
qed simp

lemma newId_run:
  assumes "ok w"
  shows "\<exists>i. fst (newId prefix rng n w) = Inr i \<and> id_wf prefix n i \<and> ok (snd (newId prefix rng n w))"
  using newId_chars_run [OF assms, of n] by (auto simp: newId_def id_wf_def io_run)

text \<open>One message per matching, enabled endpoint, in order, each with its own identifier.\<close>

lemma fanout_run:
  assumes "ok w"
  shows "\<exists>ids. fst (fanout event eventId endpoints rng now w)
           = Inr (map2 (fanout_message event eventId now)
               (filter (\<lambda>e. \<not> ep_disabled e \<and> subscribes e (ev_type event)) endpoints) ids)
         \<and> length ids = length (filter (\<lambda>e. \<not> ep_disabled e \<and> subscribes e (ev_type event)) endpoints)
         \<and> (\<forall>i \<in> set ids. id_wf ''msg'' 20 i)
         \<and> ok (snd (fanout event eventId endpoints rng now w))"
proof -
  let ?f = "fanout_one event eventId rng now"
  have one: "\<exists>i. fst (?f e w) = Inr (fanout_message event eventId now e i) \<and> id_wf ''msg'' 20 i
               \<and> ok (snd (?f e w))" if "ok w" for e w
    using newId_run [OF that, of "''msg''" 20] by (auto simp: fanout_one_def io_run)
  have "ok w \<Longrightarrow> \<exists>ids. fst (map_io ?f es w) = Inr (map2 (fanout_message event eventId now) es ids)
          \<and> length ids = length es \<and> (\<forall>i \<in> set ids. id_wf ''msg'' 20 i) \<and> ok (snd (map_io ?f es w))"
    for es w
  proof (induction es arbitrary: w)
    case (Cons e es)
    from one [OF Cons.prems] obtain i where
      i: "fst (?f e w) = Inr (fanout_message event eventId now e i)" "id_wf ''msg'' 20 i" "ok (snd (?f e w))"
      by blast
    from Cons.IH [OF i(3)] obtain ids where
      ids: "fst (map_io ?f es (snd (?f e w))) = Inr (map2 (fanout_message event eventId now) es ids)"
        "length ids = length es" "\<forall>i \<in> set ids. id_wf ''msg'' 20 i" "ok (snd (map_io ?f es (snd (?f e w))))"
      by blast
    show ?case
      by (rule exI [of _ "i # ids"]) (use i ids in \<open>simp add: io_run\<close>)
  qed simp
  from this [OF assms] show ?thesis by (simp add: fanout_def)
qed

end

section \<open>Derived idempotency keys\<close>

text \<open>
  JSON text holds no NUL, so the hashed text always gives back the payload's text; it gives back the type
  and the tenant when those hold no NUL, and the type whenever the tenant is known.
\<close>

lemma canonical_event_inj:
  assumes p: "ev_payload e = Some p" "wf_json p" and p': "ev_payload e' = Some p'" "wf_json p'"
    and clean: "ev_tenant e = ev_tenant e' \<or> nul_char \<notin> set (ev_type e) \<and> nul_char \<notin> set (ev_type e')"
    and eq: "canonical_event e = canonical_event e'"
  shows "ev_tenant e = ev_tenant e' \<and> ev_type e = ev_type e' \<and> stringify p = stringify p'"
proof -
  have "(ev_tenant e @ nul_char # ev_type e) @ nul_char # stringify p = (ev_tenant e' @ nul_char # ev_type e') @ nul_char # stringify p'"
    using eq p p' by (simp add: canonical_event_def)
  then have "ev_tenant e @ nul_char # ev_type e = ev_tenant e' @ nul_char # ev_type e'" and "stringify p = stringify p'"
    using split_at_last stringify_no_nul [OF p(2)] stringify_no_nul [OF p'(2)] by (metis)+
  then show ?thesis
    using clean split_at_last [of "ev_tenant e" nul_char "ev_type e" "ev_tenant e'" "ev_type e'"] by auto
qed

section \<open>Properties\<close>

text \<open>
  An endpoint subscribes to an event type exactly when one of its patterns is \<open>*\<close>, is that type, or
  is a dotted prefix followed by \<open>*\<close> under which the type lies.
\<close>

theorem subscribes_iff:
  "subscribes e ty \<longleftrightarrow>
     (\<exists>p \<in> set (ep_eventTypes e).
        p = ''*'' \<or> p = ty \<or> (\<exists>prefix rest. p = prefix @ ''.*'' \<and> ty = prefix @ ''.'' @ rest))"
  by (simp add: subscribes_def list_ex_iff pattern_matches_iff)

text \<open>
  The text that is hashed into a derived idempotency key tells events apart: two events with payloads
  have the same text only if tenant, type and the payload's JSON text agree, provided the tenants agree or
  the types hold no NUL character. Different events share a key only if the digest collides.
\<close>

theorem derived_key_input_injective:
  assumes "ev_payload e = Some p" and "wf_json p" and "ev_payload e' = Some p'" and "wf_json p'"
    and "ev_tenant e = ev_tenant e' \<or> nul_char \<notin> set (ev_type e) \<and> nul_char \<notin> set (ev_type e')"
    and "canonical_event e = canonical_event e'"
  shows "ev_tenant e = ev_tenant e' \<and> ev_type e = ev_type e' \<and> stringify p = stringify p'"
  using assms by (rule canonical_event_inj)

definition example_event :: "string \<Rightarrow> string \<Rightarrow> json \<Rightarrow> send_event" where
  "example_event tenant ty p =
     \<lparr>ev_type = ty, ev_tenant = tenant, ev_payload = Some p, ev_idempotencyKey = None, ev_metadata = None\<rparr>"

theorem derived_key_input_injective_witness:
  "canonical_event (example_event ''a'' ''b'' (JStr ''x'')) = canonical_event (example_event ''a'' ''b'' (JStr ''x''))
   \<and> ev_type (example_event ''a'' ''b'' (JStr ''x'')) = ''b''"
  using derived_key_input_injective [of "example_event ''a'' ''b'' (JStr ''x'')" "JStr ''x''" "example_event ''a'' ''b'' (JStr ''x'')" "JStr ''x''"]
  by (simp add: example_event_def)

end
