(* ===== verification/Core_UrlPolicy.thy ===== *)
theory Core_UrlPolicy
  imports Core_Types
begin

text \<open>
  The SSRF policy of \<open>packages/core/src/security/url-policy.ts\<close>. The platform's URL parser
  (\<open>new URL(url)\<close>) is a parameter: it gives the protocol and the host name, or throws (\<open>None\<close>).
  The regular expressions of the source are the predicates below.
\<close>

section \<open>Definitions\<close>

record url_policy_options =
  allowHttp :: bool
  extraDeny :: "string list"

record url_parts =
  up_protocol :: string
  up_hostname :: string

record policy_result =
  pr_allowed :: bool
  pr_reason :: "string option"

text \<open>\<open>/^0x[0-9a-f]+$/i\<close>, \<open>/^0[0-7]+$/\<close>, \<open>/^[0-9]+$/\<close>\<close>

definition hex_field :: "string \<Rightarrow> bool" where
  "hex_field s \<longleftrightarrow> to_lower (take 2 s) = ''0x'' \<and> drop 2 s \<noteq> [] \<and> list_all (is_digit_in 16) (drop 2 s)"

definition oct_field :: "string \<Rightarrow> bool" where
  "oct_field s \<longleftrightarrow> take 1 s = ''0'' \<and> drop 1 s \<noteq> [] \<and> list_all (is_digit_in 8) (drop 1 s)"

definition dec_field :: "string \<Rightarrow> bool" where
  "dec_field s \<longleftrightarrow> s \<noteq> [] \<and> list_all (is_digit_in 10) s"

definition parseIpField :: "string \<Rightarrow> nat option" where
  "parseIpField s =
     (if hex_field s then Some (of_digits 16 (drop 2 s))
      else if oct_field s then Some (of_digits 8 s)
      else if dec_field s then Some (of_digits 10 s)
      else None)"

definition ipv4ToOctets :: "string \<Rightarrow> nat list option" where
  "ipv4ToOctets host =
     (let parts = split_on CHR ''.'' host
      in if length parts = 4
         then (let octs = map parseIpField parts
               in if list_ex (\<lambda>o'. case o' of None \<Rightarrow> True | Some n \<Rightarrow> n > 255) octs then None
                  else Some (map the octs))
         else if length parts = 1
         then (case parseIpField (hd parts) of None \<Rightarrow> None
               | Some n \<Rightarrow> if n > 0xffffffff then None
                   else Some [n div 2 ^ 24 mod 256, n div 2 ^ 16 mod 256, n div 2 ^ 8 mod 256, n mod 256])
         else None)"

definition looksNumeric :: "string \<Rightarrow> bool" where
  "looksNumeric host \<longleftrightarrow>
     list_ex (is_digit_in 10) host
     \<and> list_all (\<lambda>p. hex_field p \<or> dec_field p) (split_on CHR ''.'' host)"

fun isBlockedIpv4 :: "nat list \<Rightarrow> bool" where
  "isBlockedIpv4 (a # b # rest) =
     (if a = 10 then True
      else if a = 127 then True
      else if a = 0 then True
      else if a = 169 \<and> b = 254 then True
      else if a = 172 \<and> b \<ge> 16 \<and> b \<le> 31 then True
      else if a = 192 \<and> b = 168 then True
      else if a = 100 \<and> b \<ge> 64 \<and> b \<le> 127 then True
      else if a \<ge> 224 then True
      else False)"
| "isBlockedIpv4 _ = False"

text \<open>\<open>/^0(:0)*::?0?$/\<close>\<close>

definition unspecified_form :: "string \<Rightarrow> bool" where
  "unspecified_form h \<longleftrightarrow>
     list_ex (\<lambda>k. list_ex (\<lambda>t. h = ''0'' @ concat (replicate k '':0'') @ t) ['':'', ''::'', '':0'', ''::0''])
       [0..<length h]"

text \<open>\<open>/::ffff:(d.d.d.d)$/\<close> with one to three digits per field: the captured text.\<close>

definition mapped_quad :: "string \<Rightarrow> string option" where
  "mapped_quad h =
     (let q = rev (takeWhile (\<lambda>c. c \<noteq> CHR '':'') (rev h));
          before = take (length h - length q) h;
          fields = split_on CHR ''.'' q
      in if ends_with before ''::ffff:'' \<and> length fields = 4
            \<and> list_all (\<lambda>f. 1 \<le> length f \<and> length f \<le> 3 \<and> list_all (is_digit_in 10) f) fields
         then Some q else None)"

definition isBlockedIpv6 :: "string \<Rightarrow> bool" where
  "isBlockedIpv6 raw =
     (let h0 = to_lower raw;
          h = (if starts_with h0 ''['' \<and> ends_with h0 '']'' then butlast (tl h0) else h0)
      in if h = ''::1'' \<or> h = ''::'' then True
         else if h = ''0:0:0:0:0:0:0:1'' then True
         else if h = ''0:0:0:0:0:0:0:0'' \<or> unspecified_form h then True
         else if starts_with h ''fe8'' \<or> starts_with h ''fe9'' \<or> starts_with h ''fea'' \<or> starts_with h ''feb''
         then True
         else if starts_with h ''fc'' \<or> starts_with h ''fd'' then True
         else case mapped_quad h of
             Some q \<Rightarrow> (case ipv4ToOctets q of Some oct \<Rightarrow> isBlockedIpv4 oct | None \<Rightarrow> True)
           | None \<Rightarrow> False)"

definition denied :: "string \<Rightarrow> policy_result" where
  "denied reason = \<lparr>pr_allowed = False, pr_reason = Some reason\<rparr>"

definition allowed :: policy_result where
  "allowed = \<lparr>pr_allowed = True, pr_reason = None\<rparr>"

definition defaultUrlPolicy_check ::
  "(string \<Rightarrow> url_parts option) \<Rightarrow> url_policy_options \<Rightarrow> string \<Rightarrow> policy_result" where
  "defaultUrlPolicy_check url_parse opts url =
     (let deny = map to_lower (extraDeny opts)
      in case url_parse url of
          None \<Rightarrow> denied ''invalid_url''
        | Some parsed \<Rightarrow>
          (let scheme = up_protocol parsed
           in if scheme \<noteq> ''https:'' \<and> \<not> (allowHttp opts \<and> scheme = ''http:'')
              then denied (''blocked_scheme:'' @ remove1 CHR '':'' scheme)
              else let host = to_lower (up_hostname parsed)
              in if host \<in> set deny then denied ''denied_host''
                 else if host = ''localhost'' \<or> ends_with host ''.localhost'' then denied ''loopback_hostname''
                 else case ipv4ToOctets host of
                     Some v4 \<Rightarrow> if isBlockedIpv4 v4 then denied ''private_or_reserved_ipv4'' else allowed
                   | None \<Rightarrow>
                       if looksNumeric host then denied ''ambiguous_numeric_host''
                       else if CHR '':'' \<in> set host
                               \<or> (starts_with (up_hostname parsed) ''['' \<and> ends_with (up_hostname parsed) '']'')
                       then (if isBlockedIpv6 (up_hostname parsed) then denied ''private_or_reserved_ipv6''
                             else allowed)
                       else allowed))"

definition default_url_options :: url_policy_options where
  "default_url_options = \<lparr>allowHttp = True, extraDeny = []\<rparr>"

section \<open>The blocked IPv4 space\<close>

text \<open>The address of four octets, and membership in a CIDR block given by its base and prefix length.\<close>

definition ipv4_addr :: "nat list \<Rightarrow> nat" where
  "ipv4_addr octs = foldl (\<lambda>acc n. acc * 256 + n) 0 octs"

definition in_cidr :: "nat \<Rightarrow> nat list \<times> nat \<Rightarrow> bool" where
  "in_cidr addr = (\<lambda>(base, len). addr div 2 ^ (32 - len) = ipv4_addr base div 2 ^ (32 - len))"

definition blocked_cidrs :: "(nat list \<times> nat) list" where
  "blocked_cidrs =
     [([10, 0, 0, 0], 8), ([127, 0, 0, 0], 8), ([0, 0, 0, 0], 8), ([169, 254, 0, 0], 16),
      ([172, 16, 0, 0], 12), ([192, 168, 0, 0], 16), ([100, 64, 0, 0], 10), ([224, 0, 0, 0], 3)]"

definition octets_ok :: "nat list \<Rightarrow> bool" where
  "octets_ok octs \<longleftrightarrow> length octs = 4 \<and> list_all (\<lambda>n. n < 256) octs"

lemma ipv4_addr_high:
  assumes "c < 256" and "d < 256"
  shows "ipv4_addr [a, b, c, d] div 65536 = a * 256 + b"
proof -
  have "ipv4_addr [a, b, c, d] = (a * 256 + b) * 65536 + (c * 256 + d)"
    by (simp add: ipv4_addr_def)
  moreover have "c * 256 + d < 65536" using assms by simp
  ultimately show ?thesis by simp
qed

lemma ipv4_addr_blocks:
  assumes "b < 256" and "c < 256" and "d < 256"
  shows "ipv4_addr [a, b, c, d] div 2 ^ 24 = a"
    and "ipv4_addr [a, b, c, d] div 2 ^ 16 = a * 256 + b"
    and "ipv4_addr [a, b, c, d] div 2 ^ 20 = a * 16 + b div 16"
    and "ipv4_addr [a, b, c, d] div 2 ^ 22 = a * 4 + b div 64"
    and "ipv4_addr [a, b, c, d] div 2 ^ 29 = a div 32"
proof -
  let ?x = "ipv4_addr [a, b, c, d]"
  have h: "?x div 65536 = a * 256 + b" by (rule ipv4_addr_high) fact+
  have m: "?x div (65536 * k) = (a * 256 + b) div k" for k
    by (simp add: div_mult2_eq h)
  show "?x div 2 ^ 24 = a" using m [of 256] assms(1) by simp
  show "?x div 2 ^ 16 = a * 256 + b" using h by simp
  show "?x div 2 ^ 20 = a * 16 + b div 16" using m [of 16] by simp
  show "?x div 2 ^ 22 = a * 4 + b div 64" using m [of 64] by simp
  show "?x div 2 ^ 29 = a div 32" using m [of 8192] assms(1) by simp
qed

lemma mixed_radix_eq:
  assumes "r < k" and "q < k"
  shows "x * k + r = y * k + q \<longleftrightarrow> x = y \<and> r = (q :: nat)"
proof
  assume eq: "x * k + r = y * k + q"
  then have "(x * k + r) div k = (y * k + q) div k" by (rule arg_cong)
  then have "x = y" using assms by simp
  with eq show "x = y \<and> r = q" by simp
qed simp

lemma blocked_cidrs_iff:
  "list_ex (in_cidr x) blocked_cidrs \<longleftrightarrow>
     x div 2 ^ 24 = 10 \<or> x div 2 ^ 24 = 127 \<or> x div 2 ^ 24 = 0 \<or> x div 2 ^ 16 = 169 * 256 + 254
     \<or> x div 2 ^ 20 = 172 * 16 + 1 \<or> x div 2 ^ 16 = 192 * 256 + 168 \<or> x div 2 ^ 22 = 100 * 4 + 1
     \<or> x div 2 ^ 29 = 7"
  by (simp add: blocked_cidrs_def in_cidr_def ipv4_addr_def)

lemma isBlockedIpv4_cidr_aux:
  assumes "a < 256" and "b < 256" and "c < 256" and "d < 256"
  shows "isBlockedIpv4 [a, b, c, d] \<longleftrightarrow> list_ex (in_cidr (ipv4_addr [a, b, c, d])) blocked_cidrs"
proof -
  have "a * 16 + b div 16 = 172 * 16 + 1 \<longleftrightarrow> a = 172 \<and> b \<ge> 16 \<and> b \<le> 31"
    using assms(2) by (subst mixed_radix_eq) auto
  moreover have "a * 4 + b div 64 = 100 * 4 + 1 \<longleftrightarrow> a = 100 \<and> b \<ge> 64 \<and> b \<le> 127"
    using assms(2) by (subst mixed_radix_eq) auto
  moreover have "a * 256 + b = 169 * 256 + 254 \<longleftrightarrow> a = 169 \<and> b = 254"
    using assms(2) by (subst mixed_radix_eq) auto
  moreover have "a * 256 + b = 192 * 256 + 168 \<longleftrightarrow> a = 192 \<and> b = 168"
    using assms(2) by (subst mixed_radix_eq) auto
  moreover have "a div 32 = 7 \<longleftrightarrow> a \<ge> 224" using assms(1) by auto
  ultimately show ?thesis
    unfolding blocked_cidrs_iff ipv4_addr_blocks [OF assms(2-4)] isBlockedIpv4.simps by argo
qed

lemma isBlockedIpv4_cidr:
  assumes "octets_ok octs"
  shows "isBlockedIpv4 octs \<longleftrightarrow> list_ex (in_cidr (ipv4_addr octs)) blocked_cidrs"
proof -
  from assms obtain a b c d where "octs = [a, b, c, d]"
    by (auto simp: octets_ok_def numeral_eq_Suc length_Suc_conv)
  with assms isBlockedIpv4_cidr_aux show ?thesis by (simp add: octets_ok_def)
qed

section \<open>Every notation of an address decodes to it\<close>

lemma ipv4ToOctets_ok: "ipv4ToOctets host = Some octs \<Longrightarrow> octets_ok octs"
  by (force simp: ipv4ToOctets_def octets_ok_def Let_def list_ex_iff list_all_iff not_less
      split: if_splits option.splits)

lemma dec_field_nat_str: "dec_field (nat_str n)"
  by (simp add: dec_field_def list_all_iff nat_str_digits)

lemma nat_str_first: "0 < n \<Longrightarrow> hd (nat_str n) \<noteq> CHR ''0''"
proof (induction n rule: less_induct)
  case (less n)
  have r: "nat_str n = (if n < 10 then [digit_chars ! n] else nat_str (n div 10) @ [digit_chars ! (n mod 10)])"
    unfolding nat_str_def by (subst to_radix.simps) simp
  have "digit_chars ! n \<noteq> CHR ''0''" if "n < 10"
    using digit_val_digit_chars [of n] that less.prems by (auto simp: digit_val_def)
  moreover have "hd (nat_str (n div 10)) \<noteq> CHR ''0''" if "\<not> n < 10"
    using less.IH [of "n div 10"] that by simp
  ultimately show ?case by (simp add: r)
qed

lemma parseIpField_nat_str: "parseIpField (nat_str n) = Some n"
proof (cases "n = 0")
  case True
  have "nat_str 0 = ''0''" by (simp add: nat_str_def to_radix.simps digit_chars_def)
  then show ?thesis using True by (simp add: parseIpField_def hex_field_def oct_field_def dec_field_def
        to_lower_def is_digit_in_def digit_val_def of_digits_def)
next
  case False
  obtain c r where cr: "nat_str n = c # r" by (cases "nat_str n") simp_all
  then have "c \<noteq> CHR ''0''" using nat_str_first [of n] False by simp
  moreover have "lower_char c = CHR ''0'' \<longleftrightarrow> c = CHR ''0''"
    using nat_str_digits [of c n] cr
    by (auto simp: lower_char_def Let_def is_digit_in_def digit_val_def split: if_splits option.splits)
  ultimately show ?thesis
    using dec_field_nat_str [of n] of_digits_nat_str [of n] cr
    by (auto simp: parseIpField_def hex_field_def oct_field_def to_lower_def)
qed

definition octets_of :: "nat \<Rightarrow> nat list" where
  "octets_of n = [n div 2 ^ 24 mod 256, n div 2 ^ 16 mod 256, n div 2 ^ 8 mod 256, n mod 256]"

definition dotted :: "nat list \<Rightarrow> string" where
  "dotted octs = join_with ''.'' (map nat_str octs)"

lemma ipv4ToOctets_integer:
  "n \<le> 0xffffffff \<Longrightarrow> ipv4ToOctets (nat_str n) = Some (octets_of n)"
  by (simp add: ipv4ToOctets_def octets_of_def split_on_no_sep nat_str_no_char parseIpField_nat_str)

lemma hex_field_to_radix: "hex_field (''0x'' @ to_radix 16 n)"
  using to_radix_digits [of 16 _ n] by (simp add: hex_field_def to_lower_def lower_char_def list_all_iff)

lemma ipv4ToOctets_hex:
  assumes "n \<le> 0xffffffff"
  shows "ipv4ToOctets (''0x'' @ to_radix 16 n) = Some (octets_of n)"
proof -
  have "parseIpField (''0x'' @ to_radix 16 n) = Some n"
    using hex_field_to_radix [of n] of_digits_to_radix [of 16 n] by (simp add: parseIpField_def)
  moreover have "CHR ''.'' \<notin> set (''0x'' @ to_radix 16 n)"
    using to_radix_digits [of 16 "CHR ''.''" n] by (auto simp: is_digit_in_def digit_val_def)
  ultimately show ?thesis
    using assms by (simp add: ipv4ToOctets_def octets_of_def split_on_no_sep del: append.simps)
qed

lemma ipv4ToOctets_dotted:
  assumes "octets_ok octs"
  shows "ipv4ToOctets (dotted octs) = Some octs"
proof -
  have "split_on CHR ''.'' (dotted octs) = map nat_str octs"
    unfolding dotted_def using assms
    by (intro split_join) (auto simp: octets_ok_def nat_str_no_char)
  moreover have "\<not> list_ex (\<lambda>o'. case o' of None \<Rightarrow> True | Some n \<Rightarrow> n > 255) (map Some octs)"
    using assms by (auto simp: octets_ok_def list_ex_iff list_all_iff)
  ultimately show ?thesis
    using assms by (simp add: ipv4ToOctets_def octets_ok_def parseIpField_nat_str comp_def)
qed

lemma octets_of_ok: "octets_ok (octets_of n)"
  by (simp add: octets_ok_def octets_of_def)

lemma ipv4_addr_octets_of:
  assumes "n \<le> 0xffffffff"
  shows "ipv4_addr (octets_of n) = n"
proof -
  have "n div 2 ^ 24 mod 256 = n div 2 ^ 24" using assms by simp
  moreover have "n div 2 ^ 24 * 256 + n div 2 ^ 16 mod 256 = n div 2 ^ 16"
    using div_mult_mod_eq [of "n div 2 ^ 16" 256] by (simp flip: div_mult2_eq)
  moreover have "n div 2 ^ 16 * 256 + n div 2 ^ 8 mod 256 = n div 2 ^ 8"
    using div_mult_mod_eq [of "n div 2 ^ 8" 256] by (simp flip: div_mult2_eq)
  moreover have "n div 2 ^ 8 * 256 + n mod 256 = n"
    using div_mult_mod_eq [of n 256] by simp
  ultimately show ?thesis
    by (simp only: ipv4_addr_def octets_of_def foldl.simps) simp
qed

section \<open>IPv4-mapped addresses\<close>

text \<open>The host of an IPv4-mapped address as the WHATWG URL serializer writes it: the address as two hexadecimal groups.\<close>

definition mapped_host :: "nat \<Rightarrow> string" where
  "mapped_host n = ''[::ffff:'' @ to_radix 16 (n div 65536) @ '':'' @ to_radix 16 (n mod 65536) @ '']''"

lemma digit_lower: "is_digit_in 16 c \<Longrightarrow> c \<in> set digit_chars \<Longrightarrow> lower_char c = c"
  by (auto simp: digit_chars_def lower_char_def)

lemma to_radix_chars: "2 \<le> b \<Longrightarrow> b \<le> 36 \<Longrightarrow> c \<in> set (to_radix b n) \<Longrightarrow> c \<in> set digit_chars"
proof (induction b n rule: to_radix.induct)
  case (1 b n)
  have "d < b \<Longrightarrow> digit_chars ! d \<in> set digit_chars" for d
    using 1(3) by (intro nth_mem) (simp add: digit_chars_def)
  with 1 show ?case by (auto simp: to_radix.simps [of b n] split: if_splits)
qed

lemma to_lower_radix: "to_lower (to_radix 16 n) = to_radix 16 n"
  unfolding to_lower_def
  by (rule map_idI) (use to_radix_chars [of 16 _ n] to_radix_digits [of 16 _ n] digit_lower in auto)

lemma to_lower_append: "to_lower (xs @ ys) = to_lower xs @ to_lower ys"
  by (simp add: to_lower_def)

lemma takeWhile_last: "c \<notin> set q \<Longrightarrow> rev (takeWhile (\<lambda>x. x \<noteq> c) (rev (p @ c # q))) = q"
  by (auto simp: takeWhile_append)

lemma radix_no_char [simp]: "CHR '':'' \<notin> set (to_radix 16 n)" "CHR ''.'' \<notin> set (to_radix 16 n)"
  using to_radix_digits [of 16 "CHR '':''" n] to_radix_digits [of 16 "CHR ''.''" n] by (auto simp: is_digit_in_def digit_val_def)

lemma mapped_hex_no_quad: "mapped_quad (''::ffff:'' @ to_radix 16 a @ '':'' @ to_radix 16 b) = None"
proof -
  have "rev (takeWhile (\<lambda>x. x \<noteq> CHR '':'') (rev ((''::ffff:'' @ to_radix 16 a) @ CHR '':'' # to_radix 16 b))) = to_radix 16 b"
    by (rule takeWhile_last) simp
  moreover have "split_on CHR ''.'' (to_radix 16 b) = [to_radix 16 b]"
    by (rule split_on_no_sep) simp
  ultimately show ?thesis by (simp add: mapped_quad_def Let_def)
qed

text \<open>What the policy makes of a bracketed host that starts with \<open>::ffff:\<close> is what it makes of the embedded address.\<close>

lemma mapped_blocked_iff:
  assumes "to_lower rest = rest" and "rest \<noteq> []"
  shows "isBlockedIpv6 (''[::ffff:'' @ rest @ '']'') \<longleftrightarrow>
    (case mapped_quad (''::ffff:'' @ rest) of Some q \<Rightarrow> (case ipv4ToOctets q of Some oct \<Rightarrow> isBlockedIpv4 oct | None \<Rightarrow> True) | None \<Rightarrow> False)"
proof -
  have "to_lower (''[::ffff:'' @ rest @ '']'') = ''[::ffff:'' @ rest @ '']''"
    using assms(1) by (simp only: to_lower_append) (simp add: to_lower_def lower_char_def)
  moreover have "ends_with (''[::ffff:'' @ rest @ '']'') '']''" "starts_with (''[::ffff:'' @ rest @ '']'') ''[''"
    by (auto simp: ends_with_iff starts_with_iff)
  moreover have "butlast (tl (''[::ffff:'' @ rest @ '']'')) = ''::ffff:'' @ rest" by (simp add: butlast_append)
  moreover have "\<not> unspecified_form (''::ffff:'' @ rest)" by (auto simp: unspecified_form_def list_ex_iff)
  ultimately show ?thesis by (simp add: isBlockedIpv6_def Let_def starts_with_def)
qed

lemma mapped_host_blocked: "\<not> isBlockedIpv6 (mapped_host n)"
proof -
  let ?rest = "to_radix 16 (n div 65536) @ '':'' @ to_radix 16 (n mod 65536)"
  have "to_lower '':'' = '':''" by (simp add: to_lower_def lower_char_def)
  then have "to_lower ?rest = ?rest" by (simp only: to_lower_append to_lower_radix)
  from mapped_blocked_iff [OF this] mapped_hex_no_quad show ?thesis by (simp add: mapped_host_def)
qed

lemma mapped_host_lower: "to_lower (mapped_host n) = mapped_host n"
  unfolding mapped_host_def to_lower_append to_lower_radix by (simp add: to_lower_def lower_char_def)

lemma mapped_host_no_number:
  "ipv4ToOctets (mapped_host n) = None" "\<not> looksNumeric (mapped_host n)"
proof -
  have "CHR ''.'' \<notin> set (mapped_host n)" by (simp add: mapped_host_def)
  then have split: "split_on CHR ''.'' (mapped_host n) = [mapped_host n]" by (rule split_on_no_sep)
  have "\<not> hex_field (mapped_host n)" "\<not> oct_field (mapped_host n)" "\<not> dec_field (mapped_host n)"
    by (simp_all add: mapped_host_def hex_field_def oct_field_def dec_field_def to_lower_def lower_char_def)
  with split show "ipv4ToOctets (mapped_host n) = None" "\<not> looksNumeric (mapped_host n)"
    by (simp_all add: ipv4ToOctets_def looksNumeric_def parseIpField_def)
qed

lemma mapped_host_allowed:
  assumes "url_parse url = Some \<lparr>up_protocol = scheme, up_hostname = mapped_host n\<rparr>" and "scheme = ''https:'' \<or> scheme = ''http:''"
  shows "pr_allowed (defaultUrlPolicy_check url_parse default_url_options url)"
proof -
  have "\<not> ends_with (mapped_host n) ''.localhost''" "mapped_host n \<noteq> ''localhost''"
    by (auto simp: mapped_host_def ends_with_iff dest: arg_cong [of _ _ last])
  then show ?thesis
    using assms by (auto simp: defaultUrlPolicy_check_def Let_def default_url_options_def allowed_def mapped_host_lower
        mapped_host_no_number mapped_host_blocked)
qed

lemma mapped_dotted_blocked:
  assumes "octets_ok octs"
  shows "isBlockedIpv6 (''[::ffff:'' @ dotted octs @ '']'') \<longleftrightarrow> isBlockedIpv4 octs"
proof -
  from assms obtain a b c d where o: "octs = [a, b, c, d]" "a < 256" "b < 256" "c < 256" "d < 256"
    by (auto simp: octets_ok_def numeral_eq_Suc length_Suc_conv)
  have chars: "x \<in> set (dotted octs) \<Longrightarrow> is_digit_in 10 x \<or> x = CHR ''.''" for x
    unfolding o(1) dotted_def using nat_str_digits by auto
  have "lower_char x = x" if "x \<in> set (dotted octs)" for x
    using chars [OF that] by (auto simp: is_digit_in_def digit_val_def lower_char_def Let_def split: if_splits)
  then have low: "to_lower (dotted octs) = dotted octs" unfolding to_lower_def by (rule map_idI)
  have no_colon: "CHR '':'' \<notin> set (dotted octs)" using chars by force
  have "split_on CHR ''.'' (dotted octs) = map nat_str octs"
    unfolding dotted_def using o(1) by (intro split_join) (auto simp: nat_str_no_char)
  moreover have "length (nat_str k) \<le> 3" if "k < 256" for k
    using length_to_radix [of 3 k] that by (simp add: nat_str_def)
  moreover have "rev (takeWhile (\<lambda>x. x \<noteq> CHR '':'') (rev (''::ffff'' @ CHR '':'' # dotted octs))) = dotted octs"
    by (rule takeWhile_last [OF no_colon])
  ultimately have "mapped_quad (''::ffff:'' @ dotted octs) = Some (dotted octs)"
    using o by (simp add: mapped_quad_def Let_def ends_with_def Suc_le_eq list_all_iff nat_str_digits)
  moreover have "dotted octs \<noteq> []" unfolding o(1) dotted_def by simp
  ultimately show ?thesis
    using mapped_blocked_iff [OF low] ipv4ToOctets_dotted [OF assms] by simp
qed

section \<open>What the policy lets through\<close>

lemma check_cases_allowed:
  assumes "pr_allowed (defaultUrlPolicy_check url_parse opts url)"
  obtains parsed where "url_parse url = Some parsed"
    and "up_protocol parsed = ''https:'' \<or> allowHttp opts \<and> up_protocol parsed = ''http:''"
    and "to_lower (up_hostname parsed) \<notin> set (map to_lower (extraDeny opts))"
    and "to_lower (up_hostname parsed) \<noteq> ''localhost''"
    and "\<not> ends_with (to_lower (up_hostname parsed)) ''.localhost''"
    and "\<And>octs. ipv4ToOctets (to_lower (up_hostname parsed)) = Some octs \<Longrightarrow> \<not> isBlockedIpv4 octs"
    and "ipv4ToOctets (to_lower (up_hostname parsed)) = None \<Longrightarrow>
         \<not> looksNumeric (to_lower (up_hostname parsed))"
  using assms
  by (auto simp: defaultUrlPolicy_check_def Let_def denied_def allowed_def
      split: option.splits if_splits)

section \<open>Properties\<close>

text \<open>
  C34: a URL that the SSRF policy allows parses, is HTTPS (or HTTP where that is allowed), names no denied
  host and no \<open>localhost\<close>, and when its host reads as an IPv4 address in any of the notations the policy
  knows, that address lies in none of the private, loopback, link-local, shared or multicast blocks.
\<close>

theorem url_policy_blocks_private:
  assumes "pr_allowed (defaultUrlPolicy_check url_parse opts url)"
  shows "\<exists>parsed. url_parse url = Some parsed
    \<and> (up_protocol parsed = ''https:'' \<or> allowHttp opts \<and> up_protocol parsed = ''http:'')
    \<and> to_lower (up_hostname parsed) \<notin> set (map to_lower (extraDeny opts))
    \<and> to_lower (up_hostname parsed) \<noteq> ''localhost''
    \<and> \<not> ends_with (to_lower (up_hostname parsed)) ''.localhost''
    \<and> (\<forall>octs. ipv4ToOctets (to_lower (up_hostname parsed)) = Some octs \<longrightarrow>
         \<not> list_ex (in_cidr (ipv4_addr octs)) blocked_cidrs)"
proof -
  from assms obtain parsed where p: "url_parse url = Some parsed"
    "up_protocol parsed = ''https:'' \<or> allowHttp opts \<and> up_protocol parsed = ''http:''"
    "to_lower (up_hostname parsed) \<notin> set (map to_lower (extraDeny opts))"
    "to_lower (up_hostname parsed) \<noteq> ''localhost''" "\<not> ends_with (to_lower (up_hostname parsed)) ''.localhost''"
    and v4: "\<And>octs. ipv4ToOctets (to_lower (up_hostname parsed)) = Some octs \<Longrightarrow> \<not> isBlockedIpv4 octs"
    by (rule check_cases_allowed) blast
  then show ?thesis using isBlockedIpv4_cidr ipv4ToOctets_ok by blast
qed

definition example_url_parse :: "string \<Rightarrow> url_parts option" where
  "example_url_parse url =
     (if url = ''https://8.8.8.8/h'' then Some \<lparr>up_protocol = ''https:'', up_hostname = ''8.8.8.8''\<rparr>
      else if url = ''https://10.1.2.3/h'' then Some \<lparr>up_protocol = ''https:'', up_hostname = ''10.1.2.3''\<rparr>
      else None)"

theorem url_policy_blocks_private_witness:
  "pr_allowed (defaultUrlPolicy_check example_url_parse default_url_options ''https://8.8.8.8/h'')
   \<and> \<not> list_ex (in_cidr (ipv4_addr [8, 8, 8, 8])) blocked_cidrs"
proof -
  have v4: "ipv4ToOctets ''8.8.8.8'' = Some [8, 8, 8, 8]"
    by code_simp
  have a: "pr_allowed (defaultUrlPolicy_check example_url_parse default_url_options ''https://8.8.8.8/h'')"
    by code_simp
  from url_policy_blocks_private [OF a] a v4 show ?thesis
    by (auto simp: example_url_parse_def to_lower_def lower_char_def)
qed

text \<open>
  C35: an IPv4 address is judged alike however it is written: the dotted decimal form, the single decimal
  number and the single hexadecimal number of one address all decode to the same four octets.
\<close>

theorem ipv4_notations_agree:
  assumes "n \<le> 0xffffffff"
  shows "ipv4ToOctets (dotted (octets_of n)) = Some (octets_of n)
       \<and> ipv4ToOctets (nat_str n) = Some (octets_of n)
       \<and> ipv4ToOctets (''0x'' @ to_radix 16 n) = Some (octets_of n)
       \<and> ipv4_addr (octets_of n) = n"
  using assms ipv4ToOctets_dotted [OF octets_of_ok] ipv4ToOctets_integer ipv4ToOctets_hex ipv4_addr_octets_of
  by blast

theorem ipv4_notations_agree_witness:
  "ipv4ToOctets (nat_str 2130706433) = Some [127, 0, 0, 1] \<and> ipv4ToOctets (dotted [127, 0, 0, 1]) = Some [127, 0, 0, 1]"
  using ipv4_notations_agree [of 2130706433] by (simp add: octets_of_def)

text \<open>
  C36: the policy lets every IPv4-mapped IPv6 address through, whatever the address. URL parsers serialize
  the host of \<open>http://[::ffff:127.0.0.1]/\<close> as \<open>[::ffff:7f00:1]\<close>, two hexadecimal groups, and whenever the
  parser gives such a host, the policy allows the URL. In the dotted form, which the policy does look for but
  no parsed URL has, it refuses exactly the addresses of the blocked ranges.
\<close>

theorem url_policy_allows_mapped:
  assumes "url_parse url = Some \<lparr>up_protocol = scheme, up_hostname = mapped_host n\<rparr>"
    and "scheme = ''https:'' \<or> scheme = ''http:''" and "n \<le> 0xffffffff"
  shows "pr_allowed (defaultUrlPolicy_check url_parse default_url_options url)
    \<and> (isBlockedIpv6 (''[::ffff:'' @ dotted (octets_of n) @ '']'') \<longleftrightarrow> list_ex (in_cidr n) blocked_cidrs)"
  using mapped_host_allowed [of url_parse url scheme n, OF assms(1,2)] mapped_dotted_blocked [OF octets_of_ok] isBlockedIpv4_cidr [OF octets_of_ok]
    ipv4_addr_octets_of [OF assms(3)]
  by simp

theorem url_policy_allows_mapped_witness:
  "pr_allowed (defaultUrlPolicy_check (\<lambda>_. Some \<lparr>up_protocol = ''http:'', up_hostname = ''[::ffff:7f00:1]''\<rparr>) default_url_options
      ''http://[::ffff:127.0.0.1]/'')
   \<and> isBlockedIpv6 ''[::ffff:127.0.0.1]''"
proof -
  have h: "mapped_host 2130706433 = ''[::ffff:7f00:1]''" by (simp add: mapped_host_def to_radix.simps digit_chars_def)
  have d: "dotted (octets_of 2130706433) = ''127.0.0.1''"
    by (simp add: dotted_def octets_of_def nat_str_def to_radix.simps digit_chars_def)
  have "list_ex (in_cidr 2130706433) blocked_cidrs" by (simp add: blocked_cidrs_iff)
  with url_policy_allows_mapped [of "\<lambda>_. Some \<lparr>up_protocol = ''http:'', up_hostname = ''[::ffff:7f00:1]''\<rparr>"
      "''http://[::ffff:127.0.0.1]/''" "''http:''" 2130706433, unfolded h d]
  show ?thesis by simp
qed

end
