(* ===== verification/Core_Ports.thy ===== *)
theory Core_Ports
  imports Core_Fanout Core_UrlPolicy
begin

text \<open>
  The runtime ports of \<open>packages/core/src/ports/index.ts\<close>: one record of operations per interface,
  over a world \<open>'w\<close> that an adapter chooses. The contracts the engine relies on are locales over an
  abstract view of the world: what is stored per tenant, what was handed to the transport, which
  POSTs were made, and which retries are scheduled. Programs are reasoned about with a weakest
  precondition, whose rules for the port operations are the contracts.
\<close>

section \<open>Interfaces\<close>

datatype http_result = HttpResponse int string "(string \<times> string) list option" | HttpTimeout | HttpNetwork

record 'w http_client =
  http_post :: "string \<Rightarrow> string \<Rightarrow> (string \<times> string) list \<Rightarrow> millis \<Rightarrow> ('w, http_result) io"

record 'w url_policy =
  policy_check :: "string \<Rightarrow> ('w, policy_result) io"

type_synonym webhook_signer = "string list \<Rightarrow> string \<Rightarrow> string \<Rightarrow> millis \<Rightarrow> (string \<times> string) list"

record 'w transport =
  tr_send :: "message \<Rightarrow> ('w, unit) io"
  tr_subscribe :: "(message \<Rightarrow> ('w, unit) io) \<Rightarrow> ('w, unit) io"

record 'w scheduler =
  sch_scheduleRetry :: "message \<Rightarrow> millis \<Rightarrow> ('w, unit) io"

record 'w telemetry =
  tel_recordAttempt :: "attempt \<Rightarrow> ('w, unit) io"

definition noopTelemetry :: "'w telemetry" where
  "noopTelemetry = \<lparr>tel_recordAttempt = (\<lambda>_. return_io ())\<rparr>"

record delivery_query =
  dq_tenant :: string
  dq_endpointId :: "string option"
  dq_eventType :: "string option"
  dq_status :: "string option"
  dq_before :: "millis option"
  dq_after :: "millis option"
  dq_limit :: "nat option"

record record_result =
  rr_isNew :: bool
  rr_eventId :: string
  rr_messageCount :: nat

text \<open>The argument of \<open>createEndpoint\<close> and the patch of \<open>updateEndpoint\<close>.\<close>

record new_endpoint =
  ne_tenant :: string
  ne_url :: string
  ne_eventTypes :: "string list"
  ne_description :: "string option"
  ne_rateLimit :: "rat option"

record endpoint_patch =
  pa_url :: "string option"
  pa_eventTypes :: "string list option"
  pa_disabled :: "bool option"

type_synonym delivery_record = "message \<times> attempt list"
type_synonym dlq_row = "message \<times> dlq_reason"

record 'w state_store =
  ss_recordEvent :: "string \<Rightarrow> string \<Rightarrow> string \<Rightarrow> ('w, record_result) io"
  ss_finalizeEvent :: "string \<Rightarrow> string \<Rightarrow> string \<Rightarrow> nat \<Rightarrow> ('w, unit) io"
  ss_createEndpoint :: "new_endpoint \<Rightarrow> ('w, endpoint \<times> string) io"
  ss_getEndpoint :: "string \<Rightarrow> string \<Rightarrow> ('w, endpoint option) io"
  ss_listEndpoints :: "string \<Rightarrow> ('w, endpoint list) io"
  ss_matchEndpoints :: "string \<Rightarrow> string \<Rightarrow> ('w, endpoint list) io"
  ss_updateEndpoint :: "string \<Rightarrow> string \<Rightarrow> endpoint_patch \<Rightarrow> ('w, endpoint) io"
  ss_rotateSecret :: "string \<Rightarrow> string \<Rightarrow> ('w, string) io"
  ss_deleteEndpoint :: "string \<Rightarrow> string \<Rightarrow> ('w, unit) io"
  ss_putMessage :: "message \<Rightarrow> ('w, unit) io"
  ss_getMessage :: "string \<Rightarrow> string \<Rightarrow> ('w, message option) io"
  ss_appendAttempt :: "attempt \<Rightarrow> ('w, unit) io"
  ss_listDeliveries :: "delivery_query \<Rightarrow> ('w, delivery_record list) io"
  ss_getCircuit :: "string \<Rightarrow> string \<Rightarrow> ('w, circuit_record) io"
  ss_putCircuit :: "string \<Rightarrow> string \<Rightarrow> circuit_record \<Rightarrow> ('w, unit) io"
  ss_getRateBucket :: "string \<Rightarrow> string \<Rightarrow> ('w, rate_bucket option) io"
  ss_putRateBucket :: "string \<Rightarrow> string \<Rightarrow> rate_bucket \<Rightarrow> ('w, unit) io"
  ss_addToDlq :: "message \<Rightarrow> dlq_reason \<Rightarrow> ('w, unit) io"
  ss_listDlq :: "string \<Rightarrow> string option \<Rightarrow> ('w, dlq_row list) io"

section \<open>Weakest preconditions\<close>

text \<open>
  \<open>wpf esc m Q w\<close>: the program \<open>m\<close>, run in the world \<open>w\<close>, ends in a result and a world that satisfy \<open>Q\<close>, or
  throws an error in \<open>esc\<close> (the errors that a port call may throw at any time). With no such errors this
  is the weakest precondition \<open>wp\<close>.
\<close>

definition wpf :: "(js_error \<Rightarrow> bool) \<Rightarrow> ('w, 'a) io \<Rightarrow> (js_error + 'a \<Rightarrow> 'w \<Rightarrow> bool) \<Rightarrow> 'w \<Rightarrow> bool" where
  "wpf esc m Q w \<longleftrightarrow> (\<exists>e. fst (m w) = Inl e \<and> esc e) \<or> Q (fst (m w)) (snd (m w))"

abbreviation no_escape :: "js_error \<Rightarrow> bool" where
  "no_escape \<equiv> \<lambda>_. False"

abbreviation wp :: "('w, 'a) io \<Rightarrow> (js_error + 'a \<Rightarrow> 'w \<Rightarrow> bool) \<Rightarrow> 'w \<Rightarrow> bool" where
  "wp \<equiv> wpf no_escape"

lemma wp_def: "wp m Q w \<longleftrightarrow> Q (fst (m w)) (snd (m w))"
  by (simp add: wpf_def)

named_theorems wp_intro \<open>introduction rules of the weakest precondition\<close>

lemma wp_return [wp_intro]: "Q (Inr x) w \<Longrightarrow> wpf esc (return_io x) Q w"
  by (simp add: wpf_def)

lemma wp_throw [wp_intro]: "Q (Inl e) w \<Longrightarrow> wpf esc (throw_io e) Q w"
  by (simp add: wpf_def)

definition afterf ::
  "(js_error \<Rightarrow> bool) \<Rightarrow> ('a \<Rightarrow> ('w, 'b) io) \<Rightarrow> (js_error + 'b \<Rightarrow> 'w \<Rightarrow> bool) \<Rightarrow> js_error + 'a \<Rightarrow> 'w \<Rightarrow> bool" where
  "afterf esc f Q r w = (case r of Inl e \<Rightarrow> Q (Inl e) w | Inr x \<Rightarrow> wpf esc (f x) Q w)"

lemma after_Inr [wp_intro]: "wpf esc (f x) Q w \<Longrightarrow> afterf esc f Q (Inr x) w"
  by (simp add: afterf_def)

lemma after_Inl [wp_intro]: "Q (Inl e) w \<Longrightarrow> afterf esc f Q (Inl e) w"
  by (simp add: afterf_def)

lemma wp_bind [wp_intro]: "wpf esc m (afterf esc f Q) w \<Longrightarrow> wpf esc (bind_io m f) Q w"
  by (auto simp: wpf_def afterf_def bind_io_def split: sum.splits)

lemma wp_seq [wp_intro]: "wpf esc m (afterf esc (\<lambda>_. k) Q) w \<Longrightarrow> wpf esc (seq_io m k) Q w"
  unfolding seq_io_def by (rule wp_bind)

lemma wp_if [wp_intro]:
  "(b \<Longrightarrow> wpf esc m Q w) \<Longrightarrow> (\<not> b \<Longrightarrow> wpf esc m' Q w) \<Longrightarrow> wpf esc (if b then m else m') Q w"
  by simp

lemma wp_option [wp_intro]:
  "(x = None \<Longrightarrow> wpf esc m Q w) \<Longrightarrow> (\<And>y. x = Some y \<Longrightarrow> wpf esc (f y) Q w) \<Longrightarrow>
   wpf esc (case x of None \<Rightarrow> m | Some y \<Rightarrow> f y) Q w"
  by (cases x) simp_all

lemma wp_list [wp_intro]:
  "(x = [] \<Longrightarrow> wpf esc m Q w) \<Longrightarrow> (\<And>y ys. x = y # ys \<Longrightarrow> wpf esc (f y ys) Q w) \<Longrightarrow>
   wpf esc (case x of [] \<Rightarrow> m | y # ys \<Rightarrow> f y ys) Q w"
  by (cases x) simp_all

lemma wp_pair [wp_intro]: "(\<And>a b. x = (a, b) \<Longrightarrow> wpf esc (f a b) Q w) \<Longrightarrow> wpf esc (case x of (a, b) \<Rightarrow> f a b) Q w"
  by (cases x) simp

lemma wp_let [wp_intro]: "(\<And>y. y = x \<Longrightarrow> wpf esc (f y) Q w) \<Longrightarrow> wpf esc (let y = x in f y) Q w"
  by simp

lemma wp_mono: "wpf esc m Q w \<Longrightarrow> (\<And>r w'. Q r w' \<Longrightarrow> Q' r w') \<Longrightarrow> wpf esc m Q' w"
  by (auto simp: wpf_def)

lemma wpfD: "wpf esc m Q w \<Longrightarrow> m w = (Inr x, w') \<Longrightarrow> Q (Inr x) w'"
  by (simp add: wpf_def)

text \<open>A loop keeps what its body keeps.\<close>

lemma wp_for_keeps:
  assumes "I w" and "\<And>x w. x \<in> set xs \<Longrightarrow> I w \<Longrightarrow> wp (f x) (\<lambda>r w'. r = Inr () \<and> I w') w"
  shows "wp (for_io xs f) (\<lambda>r w'. r = Inr () \<and> I w') w"
  using assms
proof (induction xs arbitrary: w)
  case Nil
  then show ?case by (simp add: wp_def)
next
  case (Cons x xs)
  have "wp (f x) (\<lambda>r w'. r = Inr () \<and> I w') w" using Cons.prems by simp
  then have "wp (f x) (afterf no_escape (\<lambda>_. for_io xs f) (\<lambda>r w'. r = Inr () \<and> I w')) w"
    by (rule wp_mono) (use Cons in \<open>auto intro: after_Inr\<close>)
  then show ?case by (simp add: wp_seq)
qed

section \<open>The abstract view of a world\<close>

record view =
  v_events :: "string \<Rightarrow> string \<Rightarrow> (string \<times> nat) option"
  v_endpoints :: "string \<Rightarrow> string \<Rightarrow> endpoint option"
  v_messages :: "string \<Rightarrow> string \<Rightarrow> message option"
  v_attempts :: "string \<Rightarrow> string \<times> string \<Rightarrow> attempt list"
  v_circuits :: "string \<Rightarrow> string \<Rightarrow> circuit_record"
  v_buckets :: "string \<Rightarrow> string \<Rightarrow> rate_bucket option"
  v_dlq :: "string \<Rightarrow> string \<Rightarrow> dlq_row multiset"
  v_queue :: "message list"
  v_posts :: "(string \<times> string \<times> (string \<times> string) list) list"

definition upd2 :: "('t \<Rightarrow> 'k \<Rightarrow> 'v) \<Rightarrow> 't \<Rightarrow> 'k \<Rightarrow> 'v \<Rightarrow> ('t \<Rightarrow> 'k \<Rightarrow> 'v)" where
  "upd2 f t k x = f(t := (f t)(k := x))"

lemma upd2_apply [simp]: "upd2 f t k x t' k' = (if t' = t \<and> k' = k then x else f t' k')"
  by (simp add: upd2_def)

lemma upd2_same [simp]: "upd2 (upd2 f t k x) t k y = upd2 f t k y"
  by (simp add: upd2_def)

definition put_event :: "string \<Rightarrow> string \<Rightarrow> string \<times> nat \<Rightarrow> view \<Rightarrow> view" where
  "put_event t k r v = v\<lparr>v_events := upd2 (v_events v) t k (Some r)\<rparr>"

definition put_endpoint :: "endpoint \<Rightarrow> view \<Rightarrow> view" where
  "put_endpoint e v = v\<lparr>v_endpoints := upd2 (v_endpoints v) (ep_tenant e) (ep_endpointId e) (Some e)\<rparr>"

definition del_endpoint :: "string \<Rightarrow> string \<Rightarrow> view \<Rightarrow> view" where
  "del_endpoint t i v = v\<lparr>v_endpoints := upd2 (v_endpoints v) t i None\<rparr>"

definition put_msg :: "message \<Rightarrow> view \<Rightarrow> view" where
  "put_msg m v = v\<lparr>v_messages := upd2 (v_messages v) (msg_tenant m) (msg_messageId m) (Some m)\<rparr>"

definition add_att :: "attempt \<Rightarrow> view \<Rightarrow> view" where
  "add_att a v = v\<lparr>v_attempts :=
     upd2 (v_attempts v) (att_tenant a) (att_endpointId a, att_messageId a)
       (v_attempts v (att_tenant a) (att_endpointId a, att_messageId a) @ [a])\<rparr>"

definition put_circ :: "string \<Rightarrow> string \<Rightarrow> circuit_record \<Rightarrow> view \<Rightarrow> view" where
  "put_circ t i c v = v\<lparr>v_circuits := upd2 (v_circuits v) t i c\<rparr>"

definition put_buck :: "string \<Rightarrow> string \<Rightarrow> rate_bucket \<Rightarrow> view \<Rightarrow> view" where
  "put_buck t i b v = v\<lparr>v_buckets := upd2 (v_buckets v) t i (Some b)\<rparr>"

definition add_dlq :: "message \<Rightarrow> dlq_reason \<Rightarrow> view \<Rightarrow> view" where
  "add_dlq m r v = v\<lparr>v_dlq :=
     upd2 (v_dlq v) (msg_tenant m) (msg_endpointId m) (add_mset (m, r) (v_dlq v (msg_tenant m) (msg_endpointId m)))\<rparr>"

definition push_queue :: "message \<Rightarrow> view \<Rightarrow> view" where
  "push_queue m v = v\<lparr>v_queue := v_queue v @ [m]\<rparr>"

definition push_post :: "string \<times> string \<times> (string \<times> string) list \<Rightarrow> view \<Rightarrow> view" where
  "push_post p v = v\<lparr>v_posts := v_posts v @ [p]\<rparr>"

lemmas view_defs = put_event_def put_endpoint_def del_endpoint_def put_msg_def add_att_def put_circ_def
  put_buck_def add_dlq_def push_queue_def push_post_def

definition apply_patch :: "endpoint_patch \<Rightarrow> endpoint \<Rightarrow> endpoint" where
  "apply_patch p e =
     e\<lparr>ep_url := (case pa_url p of Some u \<Rightarrow> u | None \<Rightarrow> ep_url e),
       ep_eventTypes := (case pa_eventTypes p of Some ts \<Rightarrow> ts | None \<Rightarrow> ep_eventTypes e),
       ep_disabled := (case pa_disabled p of Some d \<Rightarrow> d | None \<Rightarrow> ep_disabled e)\<rparr>"

definition rotate :: "string \<Rightarrow> endpoint \<Rightarrow> endpoint" where
  "rotate secret e = e\<lparr>ep_secrets := [secret, hd (ep_secrets e)]\<rparr>"

lemma apply_patch_key [simp]:
  "ep_endpointId (apply_patch p e) = ep_endpointId e" "ep_tenant (apply_patch p e) = ep_tenant e"
  "ep_secrets (apply_patch p e) = ep_secrets e"
  by (simp_all add: apply_patch_def)

lemma rotate_key [simp]:
  "ep_endpointId (rotate s e) = ep_endpointId e" "ep_tenant (rotate s e) = ep_tenant e"
  by (simp_all add: rotate_def)

text \<open>The status as the code writes it, and the messages a delivery query asks for. An empty text in the query
  is no filter.\<close>

definition status_text :: "message_status \<Rightarrow> string" where
  "status_text s = (case s of Pending \<Rightarrow> ''pending'' | Delivering \<Rightarrow> ''delivering'' | Delivered \<Rightarrow> ''delivered''
     | Retrying \<Rightarrow> ''retrying'' | Blocked \<Rightarrow> ''blocked'' | Dead \<Rightarrow> ''dead'')"

definition text_matches :: "string option \<Rightarrow> string \<Rightarrow> bool" where
  "text_matches want x \<longleftrightarrow> (case want of None \<Rightarrow> True | Some y \<Rightarrow> y = [] \<or> x = y)"

definition query_matches :: "delivery_query \<Rightarrow> message \<Rightarrow> bool" where
  "query_matches q m \<longleftrightarrow>
     text_matches (dq_endpointId q) (msg_endpointId m) \<and> text_matches (dq_eventType q) (msg_eventType m)
     \<and> text_matches (dq_status q) (status_text (msg_status m))
     \<and> (case dq_before q of None \<Rightarrow> True | Some b \<Rightarrow> msg_createdAt m < b)
     \<and> (case dq_after q of None \<Rightarrow> True | Some a \<Rightarrow> msg_createdAt m > a)"

section \<open>Contracts\<close>

text \<open>
  One call: it returns \<open>r\<close>, leaves the world well-formed with view \<open>v\<close>, and touches no scheduled
  retry.
\<close>

definition calls ::
  "('w \<Rightarrow> bool) \<Rightarrow> ('w \<Rightarrow> view) \<Rightarrow> ('w \<Rightarrow> (message \<times> millis) set) \<Rightarrow>
   ('w, 'a) io \<Rightarrow> 'w \<Rightarrow> js_error + 'a \<Rightarrow> view \<Rightarrow> bool" where
  "calls ok vw sched m w r v \<longleftrightarrow>
     fst (m w) = r \<and> vw (snd (m w)) = v \<and> sched (snd (m w)) = sched w \<and> ok (snd (m w))"

lemma wp_calls:
  assumes "calls ok vw sched m w r v"
    and "\<And>w'. ok w' \<Longrightarrow> vw w' = v \<Longrightarrow> sched w' = sched w \<Longrightarrow> Q r w'"
  shows "wp m Q w"
  using assms by (simp add: calls_def wp_def)

text \<open>
  One call that may fail: it throws an error in \<open>esc\<close> and has had its effect on the view or none, or it
  returns a value and has had its effect, as \<open>R\<close> relates them. In either case the world stays well-formed
  and no scheduled retry is touched.
\<close>

definition answers ::
  "(js_error \<Rightarrow> bool) \<Rightarrow> ('w \<Rightarrow> bool) \<Rightarrow> ('w \<Rightarrow> view) \<Rightarrow> ('w \<Rightarrow> (message \<times> millis) set) \<Rightarrow>
   ('w, 'a) io \<Rightarrow> 'w \<Rightarrow> ('a \<Rightarrow> view \<Rightarrow> bool) \<Rightarrow> bool" where
  "answers esc ok vw sched m w R \<longleftrightarrow>
     ok (snd (m w)) \<and> sched (snd (m w)) = sched w
     \<and> (case fst (m w) of
          Inl e \<Rightarrow> esc e \<and> (vw (snd (m w)) = vw w \<or> (\<exists>x. R x (vw (snd (m w)))))
        | Inr x \<Rightarrow> R x (vw (snd (m w))))"

lemma wp_answers:
  assumes "answers esc ok vw sched m w R"
    and "\<And>x w'. R x (vw w') \<Longrightarrow> ok w' \<Longrightarrow> sched w' = sched w \<Longrightarrow> Q (Inr x) w'"
  shows "wpf esc m Q w"
  using assms by (auto simp: answers_def wpf_def split: sum.splits)

lemma calls_answers:
  assumes "calls ok vw sched m w (Inr x) v" and "R x v"
  shows "answers esc ok vw sched m w R"
  using assms by (simp add: calls_def answers_def)

locale clock_port =
  fixes clock :: "'w clock" and vw :: "'w \<Rightarrow> view" and sched :: "'w \<Rightarrow> (message \<times> millis) set"
    and ok :: "'w \<Rightarrow> bool"
  assumes clock_call: "ok w \<Longrightarrow> \<exists>t. calls ok vw sched clock w (Inr t) (vw w)"

locale rng_port =
  fixes rng :: "'w rng" and vw :: "'w \<Rightarrow> view" and sched :: "'w \<Rightarrow> (message \<times> millis) set"
    and ok :: "'w \<Rightarrow> bool"
  assumes rng_call: "ok w \<Longrightarrow> \<exists>r. 0 \<le> r \<and> r < 1 \<and> calls ok vw sched rng w (Inr r) (vw w)"

text \<open>A client POSTs to every URL the policy allows (an adapter's client checks the policy once more).\<close>

locale http_port =
  fixes http :: "'w http_client" and verdict :: "string \<Rightarrow> policy_result"
    and vw :: "'w \<Rightarrow> view" and sched :: "'w \<Rightarrow> (message \<times> millis) set" and ok :: "'w \<Rightarrow> bool"
  assumes http_call:
    "ok w \<Longrightarrow> pr_allowed (verdict url) \<Longrightarrow> \<exists>res. calls ok vw sched (http_post http url body hs tmo) w (Inr res) (push_post (url, body, hs) (vw w))"

locale policy_port =
  fixes policy :: "'w url_policy" and verdict :: "string \<Rightarrow> policy_result"
    and vw :: "'w \<Rightarrow> view" and sched :: "'w \<Rightarrow> (message \<times> millis) set" and ok :: "'w \<Rightarrow> bool"
  assumes policy_call: "ok w \<Longrightarrow> calls ok vw sched (policy_check policy url) w (Inr (verdict url)) (vw w)"

locale telemetry_port =
  fixes telemetry :: "'w telemetry" and vw :: "'w \<Rightarrow> view" and sched :: "'w \<Rightarrow> (message \<times> millis) set"
    and ok :: "'w \<Rightarrow> bool"
  assumes telemetry_call: "ok w \<Longrightarrow> calls ok vw sched (tel_recordAttempt telemetry a) w (Inr ()) (vw w)"

locale transport_port =
  fixes transport :: "'w transport" and vw :: "'w \<Rightarrow> view" and sched :: "'w \<Rightarrow> (message \<times> millis) set"
    and ok :: "'w \<Rightarrow> bool"
  assumes send_call: "ok w \<Longrightarrow> calls ok vw sched (tr_send transport m) w (Inr ()) (push_queue m (vw w))"

text \<open>
  A scheduled retry is there afterwards, and the entries of other messages stay as they were.
\<close>

definition entries_but :: "message \<Rightarrow> (message \<times> millis) set \<Rightarrow> (message \<times> millis) set" where
  "entries_but m S = {x \<in> S. msg_tenant (fst x) \<noteq> msg_tenant m \<or> msg_messageId (fst x) \<noteq> msg_messageId m}"

locale scheduler_port =
  fixes scheduler :: "'w scheduler" and vw :: "'w \<Rightarrow> view" and sched :: "'w \<Rightarrow> (message \<times> millis) set"
    and ok :: "'w \<Rightarrow> bool"
  assumes schedule_result: "ok w \<Longrightarrow> fst (sch_scheduleRetry scheduler m due w) = Inr ()"
    and schedule_view: "ok w \<Longrightarrow> vw (snd (sch_scheduleRetry scheduler m due w)) = vw w"
    and schedule_inv: "ok w \<Longrightarrow> ok (snd (sch_scheduleRetry scheduler m due w))"
    and schedule_in: "ok w \<Longrightarrow> (m, due) \<in> sched (snd (sch_scheduleRetry scheduler m due w))"
    and schedule_frame: "ok w \<Longrightarrow> entries_but m (sched (snd (sch_scheduleRetry scheduler m due w))) = entries_but m (sched w)"

text \<open>
  What a state store promises about every method (\<open>StateStore\<close>). The dead-letter rows of an endpoint are
  a multiset: the interface promises no order. An attempt belongs to its endpoint and message. A message
  stored with an empty endpoint identifier may or may not be found again.
\<close>

locale state_store_port =
  fixes S :: "'w state_store" and vw :: "'w \<Rightarrow> view" and sched :: "'w \<Rightarrow> (message \<times> millis) set"
    and ok :: "'w \<Rightarrow> bool"
  assumes endpoint_keys:
      "ok w \<Longrightarrow> v_endpoints (vw w) t i = Some e \<Longrightarrow> ep_tenant e = t \<and> ep_endpointId e = i \<and> ep_secrets e \<noteq> []"
    and message_keys:
      "ok w \<Longrightarrow> v_messages (vw w) t i = Some m \<Longrightarrow> msg_tenant m = t \<and> msg_messageId m = i"
    and dlq_keys:
      "ok w \<Longrightarrow> (m, r) \<in># v_dlq (vw w) t i \<Longrightarrow> msg_tenant m = t \<and> msg_endpointId m = i"
    and recordEvent_new:
      "ok w \<Longrightarrow> v_events (vw w) t k = None \<Longrightarrow>
       calls ok vw sched (ss_recordEvent S t eid k) w
         (Inr \<lparr>rr_isNew = True, rr_eventId = eid, rr_messageCount = 0\<rparr>) (put_event t k (eid, 0) (vw w))"
    and recordEvent_dup:
      "ok w \<Longrightarrow> v_events (vw w) t k = Some (eid', n) \<Longrightarrow>
       calls ok vw sched (ss_recordEvent S t eid k) w
         (Inr \<lparr>rr_isNew = False, rr_eventId = eid', rr_messageCount = n\<rparr>) (vw w)"
    and finalizeEvent_call:
      "ok w \<Longrightarrow> calls ok vw sched (ss_finalizeEvent S t k eid n) w (Inr ()) (put_event t k (eid, n) (vw w))"
    and createEndpoint_call:
      "ok w \<Longrightarrow> \<exists>i secret now. calls ok vw sched (ss_createEndpoint S ne) w
         (Inr (\<lparr>ep_endpointId = i, ep_tenant = ne_tenant ne, ep_url = ne_url ne, ep_eventTypes = ne_eventTypes ne,
                ep_description = ne_description ne, ep_disabled = False, ep_rateLimit = ne_rateLimit ne,
                ep_createdAt = now, ep_secrets = [secret]\<rparr>, secret))
         (put_endpoint \<lparr>ep_endpointId = i, ep_tenant = ne_tenant ne, ep_url = ne_url ne, ep_eventTypes = ne_eventTypes ne,
                ep_description = ne_description ne, ep_disabled = False, ep_rateLimit = ne_rateLimit ne,
                ep_createdAt = now, ep_secrets = [secret]\<rparr> (vw w))"
    and getEndpoint_call:
      "ok w \<Longrightarrow> calls ok vw sched (ss_getEndpoint S t i) w (Inr (v_endpoints (vw w) t i)) (vw w)"
    and listEndpoints_call:
      "ok w \<Longrightarrow> \<exists>es. distinct (map ep_endpointId es) \<and> set es = ran (v_endpoints (vw w) t)
         \<and> calls ok vw sched (ss_listEndpoints S t) w (Inr es) (vw w)"
    and matchEndpoints_call:
      "ok w \<Longrightarrow> \<exists>es. distinct (map ep_endpointId es) \<and> set es = {e \<in> ran (v_endpoints (vw w) t). subscribes e ty}
         \<and> calls ok vw sched (ss_matchEndpoints S t ty) w (Inr es) (vw w)"
    and updateEndpoint_call:
      "ok w \<Longrightarrow> v_endpoints (vw w) t i = Some e \<Longrightarrow>
       calls ok vw sched (ss_updateEndpoint S t i p) w (Inr (apply_patch p e)) (put_endpoint (apply_patch p e) (vw w))"
    and updateEndpoint_missing:
      "ok w \<Longrightarrow> v_endpoints (vw w) t i = None \<Longrightarrow>
       calls ok vw sched (ss_updateEndpoint S t i p) w (Inl (Error (''endpoint not found: '' @ i))) (vw w)"
    and rotateSecret_call:
      "ok w \<Longrightarrow> v_endpoints (vw w) t i = Some e \<Longrightarrow>
       \<exists>secret. calls ok vw sched (ss_rotateSecret S t i) w (Inr secret) (put_endpoint (rotate secret e) (vw w))"
    and rotateSecret_missing:
      "ok w \<Longrightarrow> v_endpoints (vw w) t i = None \<Longrightarrow>
       calls ok vw sched (ss_rotateSecret S t i) w (Inl (Error (''endpoint not found: '' @ i))) (vw w)"
    and deleteEndpoint_call:
      "ok w \<Longrightarrow> calls ok vw sched (ss_deleteEndpoint S t i) w (Inr ()) (del_endpoint t i (vw w))"
    and putMessage_call:
      "ok w \<Longrightarrow> calls ok vw sched (ss_putMessage S m) w (Inr ()) (put_msg m (vw w))"
    and getMessage_call:
      "ok w \<Longrightarrow> \<exists>r. calls ok vw sched (ss_getMessage S t i) w (Inr r) (vw w)
         \<and> (r = v_messages (vw w) t i \<or> r = None \<and> (\<exists>m. v_messages (vw w) t i = Some m \<and> msg_endpointId m = []))"
    and appendAttempt_call:
      "ok w \<Longrightarrow> calls ok vw sched (ss_appendAttempt S a) w (Inr ()) (add_att a (vw w))"
    and listDeliveries_call:
      "ok w \<Longrightarrow> \<exists>rows. calls ok vw sched (ss_listDeliveries S q) w (Inr rows) (vw w)
         \<and> (\<forall>(m, log) \<in> set rows. msg_tenant m = dq_tenant q \<and> query_matches q m
              \<and> filter (\<lambda>a. att_endpointId a = msg_endpointId m) log
                  = v_attempts (vw w) (dq_tenant q) (msg_endpointId m, msg_messageId m))"
    and getCircuit_call:
      "ok w \<Longrightarrow> calls ok vw sched (ss_getCircuit S t i) w (Inr (v_circuits (vw w) t i)) (vw w)"
    and putCircuit_call:
      "ok w \<Longrightarrow> calls ok vw sched (ss_putCircuit S t i c) w (Inr ()) (put_circ t i c (vw w))"
    and getRateBucket_call:
      "ok w \<Longrightarrow> calls ok vw sched (ss_getRateBucket S t i) w (Inr (v_buckets (vw w) t i)) (vw w)"
    and putRateBucket_call:
      "ok w \<Longrightarrow> calls ok vw sched (ss_putRateBucket S t i b) w (Inr ()) (put_buck t i b (vw w))"
    and addToDlq_call:
      "ok w \<Longrightarrow> calls ok vw sched (ss_addToDlq S m r) w (Inr ()) (add_dlq m r (vw w))"
    and listDlq_call:
      "ok w \<Longrightarrow> i \<noteq> [] \<Longrightarrow> \<exists>rows. mset rows = v_dlq (vw w) t i
         \<and> calls ok vw sched (ss_listDlq S t (Some i)) w (Inr rows) (vw w)"

end
