(* ===== verification/Core_Engine.thy ===== *)
theory Core_Engine
  imports Core_Ports
begin

text \<open>
  One delivery attempt (\<open>packages/core/src/deliver.ts\<close>) and the engine
  (\<open>packages/core/src/engine.ts\<close>): accepting an event, fanning it out, delivering one message and
  advancing its retry, circuit and dead-letter state. Every port of the engine is a field of the
  record, so the same program runs over every adapter.
\<close>

section \<open>One attempt (deliver.ts)\<close>

record 'w deliver_ports =
  dp_http :: "'w http_client"
  dp_signer :: webhook_signer
  dp_urlPolicy :: "'w url_policy"
  dp_clock :: "'w clock"
  dp_timeoutMs :: millis
  dp_snippetLimit :: "nat option"

record delivery_result =
  dr_status :: attempt_status
  dr_outcome :: outcome
  dr_latencyMs :: millis
  dr_respSnippet :: string
  dr_retryAfterMs :: "millis option"
  dr_blockedBySsrf :: bool

definition parseRetryAfterMs :: "(string \<times> string) list option \<Rightarrow> millis option" where
  "parseRetryAfterMs headers =
     (case headers of None \<Rightarrow> None
      | Some hs \<Rightarrow> (case map_of hs ''retry-after'' of None \<Rightarrow> None
          | Some raw \<Rightarrow> if raw = [] then None
              else (case js_Number (trim raw) of
                  Fin secs \<Rightarrow> if secs < 0 then None else Some (secs * 1000)
                | _ \<Rightarrow> None)))"

text \<open>\<open>{ ...a, ...b }\<close> for header records.\<close>

definition spread :: "(string \<times> string) list \<Rightarrow> (string \<times> string) list \<Rightarrow> (string \<times> string) list" where
  "spread a b = foldl (\<lambda>hs (k, v). AList.update k v hs) a b"

text \<open>\<open>JSON.stringify(m.payload)\<close>; \<open>send\<close> refuses an undefined payload, so the text is defined for
  every message the engine makes.\<close>

definition payload_text :: "json option \<Rightarrow> string" where
  "payload_text p = (case p of Some j \<Rightarrow> stringify j | None \<Rightarrow> ''undefined'')"

definition deliverOnce ::
  "message \<Rightarrow> endpoint \<Rightarrow> 'w deliver_ports \<Rightarrow> ('w, delivery_result) io" where
  "deliverOnce m endpoint p =
     (let limit = (case dp_snippetLimit p of Some n \<Rightarrow> n | None \<Rightarrow> 512);
          body = payload_text (msg_payload m)
      in bind_io (policy_check (dp_urlPolicy p) (ep_url endpoint)) (\<lambda>ssrf.
         if \<not> pr_allowed ssrf
         then return_io \<lparr>dr_status = Network, dr_outcome = OutPermanent, dr_latencyMs = 0,
                dr_respSnippet = ''ssrf_blocked:'' @ (case pr_reason ssrf of Some r \<Rightarrow> r | None \<Rightarrow> ''denied''),
                dr_retryAfterMs = None, dr_blockedBySsrf = True\<rparr>
         else bind_io (dp_clock p) (\<lambda>signedAt.
           let headers = spread [(''content-type'', ''application/json'')]
                           (dp_signer p (ep_secrets endpoint) (msg_messageId m) body signedAt)
           in bind_io (dp_clock p) (\<lambda>start.
              bind_io (http_post (dp_http p) (ep_url endpoint) body headers (dp_timeoutMs p)) (\<lambda>res.
              bind_io (dp_clock p) (\<lambda>finish.
                let latencyMs = max 0 (finish - start)
                in return_io (case res of
                    HttpTimeout \<Rightarrow> \<lparr>dr_status = Timeout, dr_outcome = OutRetryable, dr_latencyMs = latencyMs,
                      dr_respSnippet = ''timeout'', dr_retryAfterMs = None, dr_blockedBySsrf = False\<rparr>
                  | HttpNetwork \<Rightarrow> \<lparr>dr_status = Network, dr_outcome = OutRetryable, dr_latencyMs = latencyMs,
                      dr_respSnippet = ''network'', dr_retryAfterMs = None, dr_blockedBySsrf = False\<rparr>
                  | HttpResponse httpStatus rbody hs \<Rightarrow>
                      \<lparr>dr_status = HttpStatus httpStatus, dr_outcome = classifyOutcome (HttpStatus httpStatus),
                       dr_latencyMs = latencyMs, dr_respSnippet = take limit rbody,
                       dr_retryAfterMs = (if httpStatus = 429 \<or> httpStatus = 503 then parseRetryAfterMs hs else None),
                       dr_blockedBySsrf = False\<rparr>)))))))"

section \<open>The engine (engine.ts)\<close>

definition DEFAULT_MAX_PAYLOAD_BYTES :: nat where
  "DEFAULT_MAX_PAYLOAD_BYTES = 256 * 1024"

definition DEFAULT_TIMEOUT_MS :: millis where
  "DEFAULT_TIMEOUT_MS = 15000"

record 'w engine_options =
  eo_transport :: "'w transport"
  eo_state :: "'w state_store"
  eo_scheduler :: "'w scheduler"
  eo_http :: "'w http_client"
  eo_signer :: webhook_signer
  eo_telemetry :: "'w telemetry option"
  eo_urlPolicy :: "'w url_policy option"
  eo_clock :: "'w clock option"
  eo_rng :: "'w rng option"
  eo_scheduleMs :: "millis list option"
  eo_failureThreshold :: "nat option"
  eo_cooldownMs :: "millis option"
  eo_maxPayloadBytes :: "nat option"
  eo_timeoutMs :: "millis option"

record 'w engine =
  eng_transport :: "'w transport"
  eng_state :: "'w state_store"
  eng_scheduler :: "'w scheduler"
  eng_clock :: "'w clock"
  eng_rng :: "'w rng"
  eng_retry :: retry_config
  eng_circuitCfg :: circuit_config
  eng_maxPayloadBytes :: nat
  eng_telemetry :: "'w telemetry"
  eng_deliverPorts :: "'w deliver_ports"
  eng_sha256_hex :: "string \<Rightarrow> string"

text \<open>
  What the platform provides to the constructor's defaults: \<open>Date.now\<close>, \<open>Math.random\<close>, \<open>new URL\<close>
  and the SHA-256 digest.
\<close>

record 'w platform =
  pf_date_now :: "'w clock"
  pf_math_random :: "'w rng"
  pf_url_parse :: "string \<Rightarrow> url_parts option"
  pf_sha256_hex :: "string \<Rightarrow> string"

definition default_policy_port :: "(string \<Rightarrow> url_parts option) \<Rightarrow> 'w url_policy" where
  "default_policy_port url_parse =
     \<lparr>policy_check = (\<lambda>url. return_io (defaultUrlPolicy_check url_parse default_url_options url))\<rparr>"

definition WebhookEngine :: "'w platform \<Rightarrow> 'w engine_options \<Rightarrow> 'w engine" where
  "WebhookEngine pf opts =
     (let clock = (case eo_clock opts of Some c \<Rightarrow> c | None \<Rightarrow> pf_date_now pf)
      in \<lparr>eng_transport = eo_transport opts,
          eng_state = eo_state opts,
          eng_scheduler = eo_scheduler opts,
          eng_clock = clock,
          eng_rng = (case eo_rng opts of Some r \<Rightarrow> r | None \<Rightarrow> pf_math_random pf),
          eng_retry = \<lparr>scheduleMs = (case eo_scheduleMs opts of Some s \<Rightarrow> s | None \<Rightarrow> DEFAULT_SCHEDULE_MS)\<rparr>,
          eng_circuitCfg =
            \<lparr>failureThreshold = (case eo_failureThreshold opts of Some n \<Rightarrow> n | None \<Rightarrow> DEFAULT_FAILURE_THRESHOLD),
             cooldownMs = (case eo_cooldownMs opts of Some n \<Rightarrow> n | None \<Rightarrow> DEFAULT_COOLDOWN_MS)\<rparr>,
          eng_maxPayloadBytes = (case eo_maxPayloadBytes opts of Some n \<Rightarrow> n | None \<Rightarrow> DEFAULT_MAX_PAYLOAD_BYTES),
          eng_telemetry = (case eo_telemetry opts of Some t \<Rightarrow> t | None \<Rightarrow> noopTelemetry),
          eng_deliverPorts =
            \<lparr>dp_http = eo_http opts, dp_signer = eo_signer opts,
             dp_urlPolicy = (case eo_urlPolicy opts of Some p \<Rightarrow> p | None \<Rightarrow> default_policy_port (pf_url_parse pf)),
             dp_clock = clock,
             dp_timeoutMs = (case eo_timeoutMs opts of Some n \<Rightarrow> n | None \<Rightarrow> DEFAULT_TIMEOUT_MS),
             dp_snippetLimit = None\<rparr>,
          eng_sha256_hex = pf_sha256_hex pf\<rparr>)"

subsection \<open>send\<close>

definition send_enqueue :: "'w engine \<Rightarrow> message \<Rightarrow> ('w, unit) io" where
  "send_enqueue E m = seq_io (ss_putMessage (eng_state E) m) (tr_send (eng_transport E) m)"

text \<open>Lines 129 to 136: a new event is fanned out, every message stored and enqueued, the count kept.\<close>

definition send_fanout :: "'w engine \<Rightarrow> send_event \<Rightarrow> string \<Rightarrow> string \<Rightarrow> ('w, receipt) io" where
  "send_fanout E event idemKey eventId =
     bind_io (ss_matchEndpoints (eng_state E) (ev_tenant event) (ev_type event)) (\<lambda>endpoints.
     bind_io (eng_clock E) (\<lambda>now.
     bind_io (fanout event eventId endpoints (eng_rng E) now) (\<lambda>messages.
     seq_io (for_io messages (send_enqueue E))
     (seq_io (ss_finalizeEvent (eng_state E) (ev_tenant event) idemKey eventId (length messages))
     (return_io \<lparr>rc_eventId = eventId, rc_accepted = True, rc_messageCount = length messages\<rparr>)))))"

definition send_accept :: "'w engine \<Rightarrow> send_event \<Rightarrow> ('w, receipt) io" where
  "send_accept E event =
     (let idemKey = (case ev_idempotencyKey event of Some k \<Rightarrow> k
                     | None \<Rightarrow> deriveIdempotencyKey (eng_sha256_hex E) event)
      in bind_io (newId ''evt'' (eng_rng E) 20) (\<lambda>eventId.
         bind_io (ss_recordEvent (eng_state E) (ev_tenant event) eventId idemKey) (\<lambda>rec.
         if \<not> rr_isNew rec
         then return_io \<lparr>rc_eventId = rr_eventId rec, rc_accepted = True, rc_messageCount = rr_messageCount rec\<rparr>
         else send_fanout E event idemKey eventId)))"

text \<open>The guards: an empty type or tenant, an undefined payload (\<open>Buffer.byteLength(undefined)\<close> throws a
  \<open>TypeError\<close>), a payload over the limit.\<close>

definition send :: "'w engine \<Rightarrow> send_event \<Rightarrow> ('w, receipt) io" where
  "send E event =
     (if ev_type event = [] then throw_io (Error ''send: event.type is required'')
      else if ev_tenant event = [] then throw_io (Error ''send: event.tenant is required'')
      else case ev_payload event of
          None \<Rightarrow> throw_io (TypeError ''Buffer.byteLength'')
        | Some payload \<Rightarrow>
            if utf8_length (stringify payload) > eng_maxPayloadBytes E
            then throw_io (Error (''send: payload exceeds maxPayloadBytes ('' @ nat_str (eng_maxPayloadBytes E) @ '')''))
            else send_accept E event)"

subsection \<open>processMessage\<close>

text \<open>\<open>record\<close>: the delivery log, then the telemetry sink.\<close>

definition record_attempt :: "'w engine \<Rightarrow> attempt \<Rightarrow> ('w, unit) io" where
  "record_attempt E a =
     seq_io (ss_appendAttempt (eng_state E) a) (tel_recordAttempt (eng_telemetry E) a)"

definition dlq :: "'w engine \<Rightarrow> message \<Rightarrow> attempt \<Rightarrow> dlq_reason \<Rightarrow> ('w, unit) io" where
  "dlq E m a reason =
     seq_io (ss_putMessage (eng_state E) (m\<lparr>msg_status := Dead\<rparr>))
     (seq_io (record_attempt E (a\<lparr>att_outcome := AttDead\<rparr>))
     (ss_addToDlq (eng_state E) m reason))"

definition goneAttempt :: "message \<Rightarrow> millis \<Rightarrow> attempt" where
  "goneAttempt m ts =
     \<lparr>att_messageId = msg_messageId m, att_endpointId = msg_endpointId m, att_tenant = msg_tenant m,
      att_eventType = msg_eventType m, att_attemptNo = msg_attemptNo m, att_status = Network,
      att_latencyMs = 0, att_respSnippet = ''endpoint_gone'', att_ts = ts, att_outcome = AttDead\<rparr>"

definition attempt_of :: "message \<Rightarrow> delivery_result \<Rightarrow> millis \<Rightarrow> attempt" where
  "attempt_of m result ts =
     \<lparr>att_messageId = msg_messageId m, att_endpointId = msg_endpointId m, att_tenant = msg_tenant m,
      att_eventType = msg_eventType m, att_attemptNo = msg_attemptNo m, att_status = dr_status result,
      att_latencyMs = dr_latencyMs result, att_respSnippet = dr_respSnippet result, att_ts = ts,
      att_outcome = AttRetried\<rparr>"

text \<open>Lines 219 to 233: a retryable failure counts against the circuit, then the next attempt is
  scheduled or the schedule is exhausted.\<close>

definition settle_retryable ::
  "'w engine \<Rightarrow> message \<Rightarrow> circuit_record \<Rightarrow> delivery_result \<Rightarrow> attempt \<Rightarrow> ('w, unit) io" where
  "settle_retryable E m circuit result att =
     bind_io (eng_clock E) (\<lambda>failedAt.
     seq_io (ss_putCircuit (eng_state E) (msg_tenant m) (msg_endpointId m)
               (onFailure circuit failedAt (failureThreshold (eng_circuitCfg E))))
     (bind_io (nextDelayMs (eng_retry E) (msg_attemptNo m) (eng_rng E) (dr_retryAfterMs result)) (\<lambda>delay.
      case delay of
        None \<Rightarrow> dlq E m att ExhaustedRetries
      | Some d \<Rightarrow>
          seq_io (record_attempt E att)
          (bind_io (eng_clock E) (\<lambda>now.
           let due = now + d;
               nxt = m\<lparr>msg_attemptNo := msg_attemptNo m + 1, msg_status := Retrying, msg_nextAttemptAt := Some due\<rparr>
           in seq_io (ss_putMessage (eng_state E) nxt) (sch_scheduleRetry (eng_scheduler E) nxt due))))))"

text \<open>Lines 191 to 233: the attempt is recorded by its outcome.\<close>

definition settle ::
  "'w engine \<Rightarrow> message \<Rightarrow> circuit_record \<Rightarrow> delivery_result \<Rightarrow> ('w, unit) io" where
  "settle E m circuit result =
     bind_io (eng_clock E) (\<lambda>ts.
     let att = attempt_of m result ts
     in if dr_outcome result = OutDelivered
        then seq_io (ss_putCircuit (eng_state E) (msg_tenant m) (msg_endpointId m) (onSuccess circuit))
             (seq_io (ss_putMessage (eng_state E) (m\<lparr>msg_status := Delivered\<rparr>))
             (record_attempt E (att\<lparr>att_outcome := AttDelivered\<rparr>)))
        else if dr_outcome result = OutPermanent
        then bind_io (eng_clock E) (\<lambda>failedAt.
             seq_io (ss_putCircuit (eng_state E) (msg_tenant m) (msg_endpointId m)
                       (onFailure circuit failedAt (failureThreshold (eng_circuitCfg E))))
             (dlq E m att (if dr_blockedBySsrf result then BlockedSsrf else Permanent4xx)))
        else settle_retryable E m circuit result att)"

text \<open>Lines 171 to 234: the circuit gate, and what goes through it.\<close>

definition circuit_gate :: "'w engine \<Rightarrow> message \<Rightarrow> endpoint \<Rightarrow> ('w, unit) io" where
  "circuit_gate E m endpoint =
     bind_io (ss_getCircuit (eng_state E) (msg_tenant m) (msg_endpointId m)) (\<lambda>stored.
     let circuit = stored\<lparr>ci_cooldownMs := cooldownMs (eng_circuitCfg E)\<rparr>
     in bind_io (eng_clock E) (\<lambda>now.
        let gate = canAttempt circuit now
        in if \<not> fst gate
           then seq_io (ss_putMessage (eng_state E) (m\<lparr>msg_status := Blocked\<rparr>))
                (bind_io (case ci_openedAt circuit of Some t \<Rightarrow> return_io t | None \<Rightarrow> eng_clock E) (\<lambda>opened.
                 bind_io (fullJitter (ci_cooldownMs circuit) (eng_rng E)) (\<lambda>jitter.
                 sch_scheduleRetry (eng_scheduler E) m (opened + ci_cooldownMs circuit + jitter))))
           else let circuit' = (if snd gate then toHalfOpen circuit else circuit)
                in seq_io (if snd gate then ss_putCircuit (eng_state E) (msg_tenant m) (msg_endpointId m) circuit'
                           else return_io ())
                   (seq_io (ss_putMessage (eng_state E) (m\<lparr>msg_status := Delivering\<rparr>))
                   (bind_io (deliverOnce m endpoint (eng_deliverPorts E)) (\<lambda>result.
                    settle E m circuit' result)))))"

text \<open>Lines 158 to 169: the rate-limit gate, before the circuit.\<close>

definition rate_gate :: "'w engine \<Rightarrow> message \<Rightarrow> endpoint \<Rightarrow> rat \<Rightarrow> ('w, unit) io" where
  "rate_gate E m endpoint limit =
     bind_io (eng_clock E) (\<lambda>now.
     bind_io (ss_getRateBucket (eng_state E) (msg_tenant m) (msg_endpointId m)) (\<lambda>stored.
     let bucket = (case stored of Some b \<Rightarrow> b | None \<Rightarrow> initialBucket limit now);
         decision = consumeToken bucket limit now
     in seq_io (ss_putRateBucket (eng_state E) (msg_tenant m) (msg_endpointId m) (rd_bucket decision))
        (if \<not> rd_allowed decision
         then let due = now + rd_retryAfterMs decision
              in seq_io (ss_putMessage (eng_state E) (m\<lparr>msg_status := Retrying, msg_nextAttemptAt := Some due\<rparr>))
                 (sch_scheduleRetry (eng_scheduler E) m due)
         else circuit_gate E m endpoint)))"

definition processMessage :: "'w engine \<Rightarrow> message \<Rightarrow> ('w, unit) io" where
  "processMessage E m =
     bind_io (ss_getEndpoint (eng_state E) (msg_tenant m) (msg_endpointId m)) (\<lambda>found.
     case found of
       None \<Rightarrow> bind_io (eng_clock E) (\<lambda>ts. dlq E m (goneAttempt m ts) EndpointGone)
     | Some endpoint \<Rightarrow>
         if ep_disabled endpoint
         then bind_io (eng_clock E) (\<lambda>ts. dlq E m (goneAttempt m ts) EndpointGone)
         else case ep_rateLimit endpoint of
             Some limit \<Rightarrow> if limit > 0 then rate_gate E m endpoint limit else circuit_gate E m endpoint
           | None \<Rightarrow> circuit_gate E m endpoint)"

definition start :: "'w engine \<Rightarrow> ('w, unit) io" where
  "start E = tr_subscribe (eng_transport E) (processMessage E)"

end
