(* ===== verification/Core_Delivery_Spec.thy ===== *)
theory Core_Delivery_Spec
  imports Core_Engine
begin

text \<open>
  The abstract specification of delivering one message, as a step relation on the view, and the
  refinement lemma: over any ports that keep their contracts, \<open>processMessage\<close> returns and its effect
  is one step of the relation. What the engine promises about a delivery is then a property of the
  relation.
\<close>

section \<open>The abstract step\<close>

definition live :: "endpoint option \<Rightarrow> endpoint option" where
  "live found = (case found of None \<Rightarrow> None | Some e \<Rightarrow> if ep_disabled e then None else Some e)"

abbreviation live_endpoint :: "view \<Rightarrow> message \<Rightarrow> endpoint option" where
  "live_endpoint v m \<equiv> live (v_endpoints v (msg_tenant m) (msg_endpointId m))"

definition rate_limit_of :: "endpoint \<Rightarrow> rat option" where
  "rate_limit_of e = (case ep_rateLimit e of None \<Rightarrow> None | Some l \<Rightarrow> if l > 0 then Some l else None)"

definition rate_decision_on :: "rate_bucket option \<Rightarrow> rat \<Rightarrow> millis \<Rightarrow> rate_decision" where
  "rate_decision_on stored limit now =
     consumeToken (case stored of Some b \<Rightarrow> b | None \<Rightarrow> initialBucket limit now) limit now"

text \<open>The view behind the rate gate, when the gate lets the message through, judging by the bucket \<open>stored\<close>.\<close>

definition passes_rate :: "rate_bucket option \<Rightarrow> message \<Rightarrow> endpoint \<Rightarrow> view \<Rightarrow> view \<Rightarrow> bool" where
  "passes_rate stored m e v v1 \<longleftrightarrow>
     (case rate_limit_of e of
        None \<Rightarrow> v1 = v
      | Some l \<Rightarrow> (\<exists>now. rd_allowed (rate_decision_on stored l now)
                   \<and> v1 = put_buck (msg_tenant m) (msg_endpointId m) (rd_bucket (rate_decision_on stored l now)) v))"

definition circuit_of :: "circuit_config \<Rightarrow> view \<Rightarrow> message \<Rightarrow> circuit_record" where
  "circuit_of cc v m = (v_circuits v (msg_tenant m) (msg_endpointId m))\<lparr>ci_cooldownMs := cooldownMs cc\<rparr>"

definition gated :: "circuit_record \<Rightarrow> bool \<Rightarrow> circuit_record" where
  "gated c probe = (if probe then toHalfOpen c else c)"

text \<open>What an attempt makes of the answer \<open>res\<close> to its POST: the status, at most a beginning of the answer's body,
  and the wait the answer asks for, which counts for the statuses 429 and 503 only.\<close>

definition answer_of :: "http_result \<Rightarrow> delivery_result \<Rightarrow> bool" where
  "answer_of res r \<longleftrightarrow>
     dr_outcome r = classifyOutcome (dr_status r) \<and> \<not> dr_blockedBySsrf r \<and> 0 \<le> dr_latencyMs r
     \<and> (case res of
          HttpTimeout \<Rightarrow> dr_status r = Timeout \<and> dr_retryAfterMs r = None
        | HttpNetwork \<Rightarrow> dr_status r = Network \<and> dr_retryAfterMs r = None
        | HttpResponse n body hs \<Rightarrow> dr_status r = HttpStatus n \<and> (\<exists>k. dr_respSnippet r = take k body)
            \<and> dr_retryAfterMs r = (if n = 429 \<or> n = 503 then parseRetryAfterMs hs else None))"

text \<open>The POST of one attempt: none when the URL policy refuses the target; otherwise one, signed with
  the endpoint's secrets under the message's own identifier, whose answer makes the result.\<close>

definition attempt_made ::
  "(string \<Rightarrow> policy_result) \<Rightarrow> webhook_signer \<Rightarrow> message \<Rightarrow> endpoint \<Rightarrow> delivery_result \<Rightarrow> view \<Rightarrow> view \<Rightarrow> bool" where
  "attempt_made verdict signer m e r v1 v2 \<longleftrightarrow>
     (if pr_allowed (verdict (ep_url e))
      then (\<exists>res. answer_of res r)
           \<and> (\<exists>signedAt. v2 = push_post (ep_url e, payload_text (msg_payload m),
                 spread [(''content-type'', ''application/json'')]
                   (signer (ep_secrets e) (msg_messageId m) (payload_text (msg_payload m)) signedAt)) v1)
      else dr_status r = Network \<and> dr_outcome r = OutPermanent \<and> dr_latencyMs r = 0 \<and> dr_retryAfterMs r = None
           \<and> dr_blockedBySsrf r \<and> v2 = v1)"

lemma answer_of_result:
  "\<exists>res'. answer_of res' (case res of
      HttpTimeout \<Rightarrow> \<lparr>dr_status = Timeout, dr_outcome = OutRetryable, dr_latencyMs = max 0 l,
        dr_respSnippet = ''timeout'', dr_retryAfterMs = None, dr_blockedBySsrf = False\<rparr>
    | HttpNetwork \<Rightarrow> \<lparr>dr_status = Network, dr_outcome = OutRetryable, dr_latencyMs = max 0 l,
        dr_respSnippet = ''network'', dr_retryAfterMs = None, dr_blockedBySsrf = False\<rparr>
    | HttpResponse n body hs \<Rightarrow> \<lparr>dr_status = HttpStatus n, dr_outcome = classifyOutcome (HttpStatus n),
        dr_latencyMs = max 0 l, dr_respSnippet = take k body,
        dr_retryAfterMs = (if n = 429 \<or> n = 503 then parseRetryAfterMs hs else None), dr_blockedBySsrf = False\<rparr>)"
  by (rule exI [of _ res]) (cases res; auto simp: answer_of_def)

definition next_message :: "message \<Rightarrow> millis \<Rightarrow> message" where
  "next_message m due = m\<lparr>msg_attemptNo := msg_attemptNo m + 1, msg_status := Retrying, msg_nextAttemptAt := Some due\<rparr>"

definition retry_bound :: "retry_config \<Rightarrow> message \<Rightarrow> delivery_result \<Rightarrow> millis" where
  "retry_bound rc m r =
     (case dr_retryAfterMs r of
        Some a \<Rightarrow> if 0 \<le> a then min a RETRY_AFTER_CAP_MS else scheduleMs rc ! nat (msg_attemptNo m)
      | None \<Rightarrow> scheduleMs rc ! nat (msg_attemptNo m))"

definition dead_letter :: "message \<Rightarrow> attempt \<Rightarrow> dlq_reason \<Rightarrow> view \<Rightarrow> view" where
  "dead_letter m a reason v =
     add_dlq m reason (add_att (a\<lparr>att_outcome := AttDead\<rparr>) (put_msg (m\<lparr>msg_status := Dead\<rparr>) v))"

text \<open>How an attempt with result \<open>r\<close> that went out under circuit \<open>c\<close> is settled.\<close>

inductive settled ::
  "retry_config \<Rightarrow> circuit_config \<Rightarrow> message \<Rightarrow> circuit_record \<Rightarrow> delivery_result \<Rightarrow>
   view \<Rightarrow> view \<Rightarrow> (message \<times> millis) option \<Rightarrow> bool"
  for rc cc m c r v where
  delivered:
    "dr_outcome r = OutDelivered \<Longrightarrow>
     settled rc cc m c r v
       (add_att ((attempt_of m r ts)\<lparr>att_outcome := AttDelivered\<rparr>) (put_msg (m\<lparr>msg_status := Delivered\<rparr>)
          (put_circ (msg_tenant m) (msg_endpointId m) (onSuccess c) v))) None"
| permanent:
    "dr_outcome r = OutPermanent \<Longrightarrow> reason = (if dr_blockedBySsrf r then BlockedSsrf else Permanent4xx) \<Longrightarrow>
     settled rc cc m c r v
       (dead_letter m (attempt_of m r ts) reason
          (put_circ (msg_tenant m) (msg_endpointId m) (onFailure c failedAt (failureThreshold cc)) v)) None"
| exhausted:
    "dr_outcome r = OutRetryable \<Longrightarrow>
     msg_attemptNo m < 0 \<or> msg_attemptNo m \<ge> int (length (scheduleMs rc)) \<Longrightarrow>
     settled rc cc m c r v
       (dead_letter m (attempt_of m r ts) ExhaustedRetries
          (put_circ (msg_tenant m) (msg_endpointId m) (onFailure c failedAt (failureThreshold cc)) v)) None"
| retried:
    "dr_outcome r = OutRetryable \<Longrightarrow> 0 \<le> msg_attemptNo m \<Longrightarrow> msg_attemptNo m < int (length (scheduleMs rc)) \<Longrightarrow>
     0 \<le> d \<Longrightarrow> d \<le> retry_bound rc m r \<Longrightarrow> due = retriedAt + d \<Longrightarrow>
     settled rc cc m c r v
       (put_msg (next_message m due) (add_att (attempt_of m r ts)
          (put_circ (msg_tenant m) (msg_endpointId m) (onFailure c failedAt (failureThreshold cc)) v)))
       (Some (next_message m due, due))"

inductive_cases settledE: "settled rc cc m c r v v' s"

text \<open>One delivery: the endpoint is gone, the message is throttled, it is parked before an open circuit,
  or it is attempted and settled. What the delivery has read of its endpoint is \<open>found\<close>, what it has read of
  the endpoint's rate bucket is \<open>stored\<close>: a store may answer these two reads with older values.\<close>

inductive delivery_step_on ::
  "(string \<Rightarrow> policy_result) \<Rightarrow> webhook_signer \<Rightarrow> retry_config \<Rightarrow> circuit_config \<Rightarrow>
   endpoint option \<Rightarrow> rate_bucket option \<Rightarrow> message \<Rightarrow> view \<Rightarrow> view \<Rightarrow> (message \<times> millis) option \<Rightarrow> bool"
  for verdict signer rc cc found stored m v where
  gone:
    "live found = None \<Longrightarrow>
     delivery_step_on verdict signer rc cc found stored m v (dead_letter m (goneAttempt m ts) EndpointGone v) None"
| throttled:
    "live found = Some e \<Longrightarrow> rate_limit_of e = Some l \<Longrightarrow> d = rate_decision_on stored l now \<Longrightarrow>
     \<not> rd_allowed d \<Longrightarrow> due = now + rd_retryAfterMs d \<Longrightarrow>
     delivery_step_on verdict signer rc cc found stored m v
       (put_msg (m\<lparr>msg_status := Retrying, msg_nextAttemptAt := Some due\<rparr>)
          (put_buck (msg_tenant m) (msg_endpointId m) (rd_bucket d) v)) (Some (m, due))"
| parked:
    "live found = Some e \<Longrightarrow> passes_rate stored m e v v1 \<Longrightarrow> c = circuit_of cc v m \<Longrightarrow>
     \<not> fst (canAttempt c now) \<Longrightarrow> (case ci_openedAt c of Some t \<Rightarrow> opened = t | None \<Rightarrow> True) \<Longrightarrow>
     opened + cooldownMs cc \<le> due \<Longrightarrow> due \<le> opened + 2 * cooldownMs cc \<Longrightarrow>
     delivery_step_on verdict signer rc cc found stored m v (put_msg (m\<lparr>msg_status := Blocked\<rparr>) v1) (Some (m, due))"
| attempted:
    "live found = Some e \<Longrightarrow> passes_rate stored m e v v1 \<Longrightarrow> c = circuit_of cc v m \<Longrightarrow>
     canAttempt c now = (True, probe) \<Longrightarrow> attempt_made verdict signer m e r v1 v2 \<Longrightarrow>
     settled rc cc m (gated c probe) r v2 v' s \<Longrightarrow>
     delivery_step_on verdict signer rc cc found stored m v v' s"

inductive_cases delivery_step_onE: "delivery_step_on verdict signer rc cc found stored m v v' s"

text \<open>The step of a store whose reads show what is stored.\<close>

abbreviation delivery_step ::
  "(string \<Rightarrow> policy_result) \<Rightarrow> webhook_signer \<Rightarrow> retry_config \<Rightarrow> circuit_config \<Rightarrow> message \<Rightarrow>
   view \<Rightarrow> view \<Rightarrow> (message \<times> millis) option \<Rightarrow> bool" where
  "delivery_step verdict signer rc cc m v v' s \<equiv>
     delivery_step_on verdict signer rc cc (v_endpoints v (msg_tenant m) (msg_endpointId m))
       (v_buckets v (msg_tenant m) (msg_endpointId m)) m v v' s"

text \<open>What \<open>processMessage\<close> writes on the way (the half-open circuit, the status \<open>delivering\<close>) is
  overwritten when the attempt is settled.\<close>

lemma settled_overwrites:
  assumes "settled rc cc m c r (put_msg (m\<lparr>msg_status := st\<rparr>) v) v' s"
  shows "settled rc cc m c r v v' s"
proof -
  have "\<lbrakk>settled rc cc m c r v1 v' s; v1 = put_msg (m\<lparr>msg_status := st\<rparr>) v\<rbrakk> \<Longrightarrow> settled rc cc m c r v v' s" for v1
  proof (induction rule: settled.induct)
    case (delivered ts)
    with settled.delivered [of r rc cc m c v ts] show ?case by (simp add: view_defs)
  next
    case (permanent reason ts failedAt)
    with settled.permanent [of r reason rc cc m c v ts failedAt] show ?case
      by (simp add: view_defs dead_letter_def)
  next
    case (exhausted ts failedAt)
    with settled.exhausted [of r m rc cc c v ts failedAt] show ?case
      by (simp add: view_defs dead_letter_def)
  next
    case (retried d due retriedAt ts failedAt)
    with settled.retried [of r m rc d due retriedAt cc c v ts failedAt] show ?case
      by (simp add: view_defs next_message_def)
  qed
  with assms show ?thesis by blast
qed

lemma settled_overwrites_circuit:
  assumes "settled rc cc m c r (put_circ (msg_tenant m) (msg_endpointId m) c0 v) v' s"
  shows "settled rc cc m c r v v' s"
proof -
  have "\<lbrakk>settled rc cc m c r v1 v' s; v1 = put_circ (msg_tenant m) (msg_endpointId m) c0 v\<rbrakk> \<Longrightarrow>
    settled rc cc m c r v v' s" for v1
  proof (induction rule: settled.induct)
    case (delivered ts)
    with settled.delivered [of r rc cc m c v ts] show ?case by (simp add: view_defs)
  next
    case (permanent reason ts failedAt)
    with settled.permanent [of r reason rc cc m c v ts failedAt] show ?case
      by (simp add: view_defs dead_letter_def)
  next
    case (exhausted ts failedAt)
    with settled.exhausted [of r m rc cc c v ts failedAt] show ?case
      by (simp add: view_defs dead_letter_def)
  next
    case (retried d due retriedAt ts failedAt)
    with settled.retried [of r m rc d due retriedAt cc c v ts failedAt] show ?case
      by (simp add: view_defs next_message_def)
  qed
  with assms show ?thesis by blast
qed

lemma push_post_under:
  "push_post p (put_msg x v) = put_msg x (push_post p v)"
  "push_post p (put_circ t i c v) = put_circ t i c (push_post p v)"
  by (simp_all add: view_defs)

lemma attempt_made_under_msg:
  "attempt_made verdict signer m e r (put_msg x v1) v2 \<Longrightarrow>
   \<exists>v2'. attempt_made verdict signer m e r v1 v2' \<and> v2 = put_msg x v2'"
  unfolding attempt_made_def push_post_under by (auto split: if_splits)

lemma attempt_made_under_circ:
  "attempt_made verdict signer m e r (put_circ t i c v1) v2 \<Longrightarrow>
   \<exists>v2'. attempt_made verdict signer m e r v1 v2' \<and> v2 = put_circ t i c v2'"
  unfolding attempt_made_def push_post_under by (auto split: if_splits)

text \<open>The effect on the scheduled retries.\<close>

definition sched_effect ::
  "message \<Rightarrow> (message \<times> millis) option \<Rightarrow> (message \<times> millis) set \<Rightarrow> (message \<times> millis) set \<Rightarrow> bool" where
  "sched_effect m s S S' \<longleftrightarrow>
     (case s of None \<Rightarrow> S' = S | Some x \<Rightarrow> x \<in> S' \<and> entries_but m S' = entries_but m S)"

section \<open>The ports of a delivery\<close>

text \<open>What both a delivery and an acceptance rely on, when calls may fail with the errors \<open>esc\<close>.\<close>

locale answering_ports =
  fixes E :: "'w engine" and vw :: "'w \<Rightarrow> view" and sched :: "'w \<Rightarrow> (message \<times> millis) set"
    and ok :: "'w \<Rightarrow> bool" and esc :: "js_error \<Rightarrow> bool"
  assumes clock_answers: "ok w \<Longrightarrow> answers esc ok vw sched (eng_clock E) w (\<lambda>_ v. v = vw w)"
    and rng_answers: "ok w \<Longrightarrow> answers esc ok vw sched (eng_rng E) w (\<lambda>r v. 0 \<le> r \<and> r < 1 \<and> v = vw w)"
    and putMessage_answers:
      "ok w \<Longrightarrow> answers esc ok vw sched (ss_putMessage (eng_state E) m) w (\<lambda>_ v. v = put_msg m (vw w))"
begin

text \<open>The rules for the calls, in the form the weakest precondition uses them.\<close>

lemma wp_clock:
  "ok w \<Longrightarrow> (\<And>t w'. ok w' \<Longrightarrow> vw w' = vw w \<Longrightarrow> sched w' = sched w \<Longrightarrow> Q (Inr t) w') \<Longrightarrow> wpf esc (eng_clock E) Q w"
  by (rule wp_answers [OF clock_answers])

lemma wp_rng:
  "ok w \<Longrightarrow> (\<And>r w'. 0 \<le> r \<Longrightarrow> r < 1 \<Longrightarrow> ok w' \<Longrightarrow> vw w' = vw w \<Longrightarrow> sched w' = sched w \<Longrightarrow> Q (Inr r) w') \<Longrightarrow>
   wpf esc (eng_rng E) Q w"
  by (rule wp_answers [OF rng_answers]) simp_all

lemma wp_putMessage:
  "ok w \<Longrightarrow> (\<And>w'. ok w' \<Longrightarrow> vw w' = put_msg m (vw w) \<Longrightarrow> sched w' = sched w \<Longrightarrow> Q (Inr ()) w') \<Longrightarrow>
   wpf esc (ss_putMessage (eng_state E) m) Q w"
  by (rule wp_answers [OF putMessage_answers]) simp_all

end

text \<open>
  What a delivery relies on besides. The reads of the endpoint and of its rate bucket show what \<open>ep_shown\<close>
  and \<open>bk_shown\<close> allow them to show of the view.
\<close>

locale delivery_ports = answering_ports E vw sched ok esc
  for E :: "'w engine" and verdict :: "string \<Rightarrow> policy_result" and vw :: "'w \<Rightarrow> view"
    and sched :: "'w \<Rightarrow> (message \<times> millis) set" and ok :: "'w \<Rightarrow> bool" and esc :: "js_error \<Rightarrow> bool"
    and ep_shown :: "view \<Rightarrow> string \<Rightarrow> string \<Rightarrow> endpoint option \<Rightarrow> bool"
    and bk_shown :: "view \<Rightarrow> string \<Rightarrow> string \<Rightarrow> rate_bucket option \<Rightarrow> bool" +
  assumes http_answers:
      "ok w \<Longrightarrow> pr_allowed (verdict url) \<Longrightarrow>
       answers esc ok vw sched (http_post (dp_http (eng_deliverPorts E)) url body hs tmo) w
         (\<lambda>_ v. v = push_post (url, body, hs) (vw w))"
    and policy_answers:
      "ok w \<Longrightarrow> answers esc ok vw sched (policy_check (dp_urlPolicy (eng_deliverPorts E)) url) w
         (\<lambda>x v. x = verdict url \<and> v = vw w)"
    and telemetry_answers:
      "ok w \<Longrightarrow> answers esc ok vw sched (tel_recordAttempt (eng_telemetry E) a) w (\<lambda>_ v. v = vw w)"
    and getEndpoint_answers:
      "ok w \<Longrightarrow> answers esc ok vw sched (ss_getEndpoint (eng_state E) t i) w (\<lambda>x v. ep_shown (vw w) t i x \<and> v = vw w)"
    and appendAttempt_answers:
      "ok w \<Longrightarrow> answers esc ok vw sched (ss_appendAttempt (eng_state E) a) w (\<lambda>_ v. v = add_att a (vw w))"
    and getCircuit_answers:
      "ok w \<Longrightarrow> answers esc ok vw sched (ss_getCircuit (eng_state E) t i) w (\<lambda>x v. x = v_circuits (vw w) t i \<and> v = vw w)"
    and putCircuit_answers:
      "ok w \<Longrightarrow> answers esc ok vw sched (ss_putCircuit (eng_state E) t i c) w (\<lambda>_ v. v = put_circ t i c (vw w))"
    and getRateBucket_answers:
      "ok w \<Longrightarrow> answers esc ok vw sched (ss_getRateBucket (eng_state E) t i) w (\<lambda>x v. bk_shown (vw w) t i x \<and> v = vw w)"
    and putRateBucket_answers:
      "ok w \<Longrightarrow> answers esc ok vw sched (ss_putRateBucket (eng_state E) t i b) w (\<lambda>_ v. v = put_buck t i b (vw w))"
    and addToDlq_answers:
      "ok w \<Longrightarrow> answers esc ok vw sched (ss_addToDlq (eng_state E) m r) w (\<lambda>_ v. v = add_dlq m r (vw w))"
    and schedule_ok: "ok w \<Longrightarrow> ok (snd (sch_scheduleRetry (eng_scheduler E) m due w))"
    and schedule_same_view: "ok w \<Longrightarrow> vw (snd (sch_scheduleRetry (eng_scheduler E) m due w)) = vw w"
    and schedule_others:
      "ok w \<Longrightarrow> entries_but m (sched (snd (sch_scheduleRetry (eng_scheduler E) m due w))) = entries_but m (sched w)"
    and schedule_answers:
      "ok w \<Longrightarrow> case fst (sch_scheduleRetry (eng_scheduler E) m due w) of
          Inl e \<Rightarrow> esc e | Inr _ \<Rightarrow> (m, due) \<in> sched (snd (sch_scheduleRetry (eng_scheduler E) m due w))"
    and bk_shown_some: "ok w \<Longrightarrow> \<exists>x. bk_shown (vw w) t i x"
    and same_clock: "dp_clock (eng_deliverPorts E) = eng_clock E"
    and cooldown_nonneg: "0 \<le> cooldownMs (eng_circuitCfg E)"
    and schedule_nonneg: "\<forall>b \<in> set (scheduleMs (eng_retry E)). 0 \<le> b"
begin

lemma wp_http:
  "ok w \<Longrightarrow> pr_allowed (verdict url) \<Longrightarrow> (\<And>res w'. ok w' \<Longrightarrow> vw w' = push_post (url, body, hs) (vw w) \<Longrightarrow> sched w' = sched w \<Longrightarrow> Q (Inr res) w') \<Longrightarrow>
   wpf esc (http_post (dp_http (eng_deliverPorts E)) url body hs tmo) Q w"
  by (rule wp_answers [OF http_answers])

lemma wp_schedule:
  assumes "ok w"
    and "\<And>w'. ok w' \<Longrightarrow> vw w' = vw w \<Longrightarrow> (m, due) \<in> sched w' \<Longrightarrow> entries_but m (sched w') = entries_but m (sched w) \<Longrightarrow>
         Q (Inr ()) w'"
  shows "wpf esc (sch_scheduleRetry (eng_scheduler E) m due) Q w"
  using assms(2) schedule_ok [OF assms(1), of m due] schedule_same_view [OF assms(1), of m due] schedule_others [OF assms(1), of m due]
    schedule_answers [OF assms(1), of m due]
  by (cases "fst (sch_scheduleRetry (eng_scheduler E) m due w)") (auto simp: wpf_def)

lemma wp_policy:
  "ok w \<Longrightarrow> (\<And>w'. ok w' \<Longrightarrow> vw w' = vw w \<Longrightarrow> sched w' = sched w \<Longrightarrow> Q (Inr (verdict url)) w') \<Longrightarrow>
   wpf esc (policy_check (dp_urlPolicy (eng_deliverPorts E)) url) Q w"
  by (rule wp_answers [OF policy_answers]) simp_all

lemma wp_telemetry:
  "ok w \<Longrightarrow> (\<And>w'. ok w' \<Longrightarrow> vw w' = vw w \<Longrightarrow> sched w' = sched w \<Longrightarrow> Q (Inr ()) w') \<Longrightarrow>
   wpf esc (tel_recordAttempt (eng_telemetry E) a) Q w"
  by (rule wp_answers [OF telemetry_answers]) simp_all

lemma wp_getEndpoint_shown:
  "ok w \<Longrightarrow> (\<And>x w'. ok w' \<Longrightarrow> ep_shown (vw w) t i x \<Longrightarrow> vw w' = vw w \<Longrightarrow> sched w' = sched w \<Longrightarrow> Q (Inr x) w') \<Longrightarrow>
   wpf esc (ss_getEndpoint (eng_state E) t i) Q w"
  by (rule wp_answers [OF getEndpoint_answers]) simp_all

lemma wp_getRateBucket_shown:
  "ok w \<Longrightarrow> (\<And>x w'. ok w' \<Longrightarrow> bk_shown (vw w) t i x \<Longrightarrow> vw w' = vw w \<Longrightarrow> sched w' = sched w \<Longrightarrow> Q (Inr x) w') \<Longrightarrow>
   wpf esc (ss_getRateBucket (eng_state E) t i) Q w"
  by (rule wp_answers [OF getRateBucket_answers]) simp_all

lemma wp_appendAttempt:
  "ok w \<Longrightarrow> (\<And>w'. ok w' \<Longrightarrow> vw w' = add_att a (vw w) \<Longrightarrow> sched w' = sched w \<Longrightarrow> Q (Inr ()) w') \<Longrightarrow>
   wpf esc (ss_appendAttempt (eng_state E) a) Q w"
  by (rule wp_answers [OF appendAttempt_answers]) simp_all

lemma wp_getCircuit:
  "ok w \<Longrightarrow> (\<And>w'. ok w' \<Longrightarrow> vw w' = vw w \<Longrightarrow> sched w' = sched w \<Longrightarrow> Q (Inr (v_circuits (vw w) t i)) w') \<Longrightarrow>
   wpf esc (ss_getCircuit (eng_state E) t i) Q w"
  by (rule wp_answers [OF getCircuit_answers]) simp_all

lemma wp_putCircuit:
  "ok w \<Longrightarrow> (\<And>w'. ok w' \<Longrightarrow> vw w' = put_circ t i c (vw w) \<Longrightarrow> sched w' = sched w \<Longrightarrow> Q (Inr ()) w') \<Longrightarrow>
   wpf esc (ss_putCircuit (eng_state E) t i c) Q w"
  by (rule wp_answers [OF putCircuit_answers]) simp_all

lemma wp_putRateBucket:
  "ok w \<Longrightarrow> (\<And>w'. ok w' \<Longrightarrow> vw w' = put_buck t i b (vw w) \<Longrightarrow> sched w' = sched w \<Longrightarrow> Q (Inr ()) w') \<Longrightarrow>
   wpf esc (ss_putRateBucket (eng_state E) t i b) Q w"
  by (rule wp_answers [OF putRateBucket_answers]) simp_all

lemma wp_addToDlq:
  "ok w \<Longrightarrow> (\<And>w'. ok w' \<Longrightarrow> vw w' = add_dlq m r (vw w) \<Longrightarrow> sched w' = sched w \<Longrightarrow> Q (Inr ()) w') \<Longrightarrow>
   wpf esc (ss_addToDlq (eng_state E) m r) Q w"
  by (rule wp_answers [OF addToDlq_answers]) simp_all

lemmas wp_ports = wp_clock wp_http wp_schedule wp_policy wp_telemetry wp_putMessage
  wp_getCircuit wp_putCircuit wp_putRateBucket wp_addToDlq

lemma wp_fullJitter:
  assumes "ok w" and "0 \<le> base"
    and "\<And>d w'. 0 \<le> d \<Longrightarrow> d \<le> base \<Longrightarrow> ok w' \<Longrightarrow> vw w' = vw w \<Longrightarrow> sched w' = sched w \<Longrightarrow> Q (Inr d) w'"
  shows "wpf esc (fullJitter base (eng_rng E)) Q w"
  unfolding fullJitter_def
  by (intro wp_intro wp_rng assms) (use assms(2) in \<open>auto simp: mult_left_le\<close>)

lemma wp_nextDelayMs:
  assumes "ok w"
    and none: "n < 0 \<or> n \<ge> int (length (scheduleMs (eng_retry E))) \<Longrightarrow> Q (Inr None) w"
    and some: "\<And>d w'. 0 \<le> n \<Longrightarrow> n < int (length (scheduleMs (eng_retry E))) \<Longrightarrow> 0 \<le> d \<Longrightarrow>
      d \<le> (case ra of Some a \<Rightarrow> if 0 \<le> a then min a RETRY_AFTER_CAP_MS else scheduleMs (eng_retry E) ! nat n
            | None \<Rightarrow> scheduleMs (eng_retry E) ! nat n) \<Longrightarrow>
      ok w' \<Longrightarrow> vw w' = vw w \<Longrightarrow> sched w' = sched w \<Longrightarrow> Q (Inr (Some d)) w'"
  shows "wpf esc (nextDelayMs (eng_retry E) n (eng_rng E) ra) Q w"
proof -
  have nonneg: "0 \<le> scheduleMs (eng_retry E) ! nat n" if "\<not> (n < 0 \<or> n \<ge> int (length (scheduleMs (eng_retry E))))"
    using that schedule_nonneg by auto
  show ?thesis
    unfolding nextDelayMs_def
    by (intro wp_intro wp_fullJitter assms(1))
       (use nonneg none some assms(1) in \<open>auto simp: RETRY_AFTER_CAP_MS_def\<close>)
qed

lemma wp_record_attempt:
  assumes "ok w"
    and "\<And>w'. ok w' \<Longrightarrow> vw w' = add_att a (vw w) \<Longrightarrow> sched w' = sched w \<Longrightarrow> Q (Inr ()) w'"
  shows "wpf esc (record_attempt E a) Q w"
  unfolding record_attempt_def
  by (intro wp_intro wp_appendAttempt [OF assms(1)] wp_telemetry) (use assms(2) in auto)

lemma wp_dlq:
  assumes "ok w"
    and "\<And>w'. ok w' \<Longrightarrow> vw w' = dead_letter m a reason (vw w) \<Longrightarrow> sched w' = sched w \<Longrightarrow> Q (Inr ()) w'"
  shows "wpf esc (dlq E m a reason) Q w"
  unfolding dlq_def
  by (intro wp_intro wp_putMessage wp_record_attempt wp_addToDlq assms(1)) (use assms(2) in \<open>auto simp: dead_letter_def\<close>)

abbreviation "signer \<equiv> dp_signer (eng_deliverPorts E)"
abbreviation "rc \<equiv> eng_retry E"
abbreviation "cc \<equiv> eng_circuitCfg E"

lemma wp_deliverOnce:
  assumes "ok w"
    and "\<And>r w'. ok w' \<Longrightarrow> attempt_made verdict signer m e r (vw w) (vw w') \<Longrightarrow> sched w' = sched w \<Longrightarrow> Q (Inr r) w'"
  shows "wpf esc (deliverOnce m e (eng_deliverPorts E)) Q w"
  unfolding deliverOnce_def same_clock
  by (intro wp_intro wp_policy wp_clock wp_http assms(1))
     (auto intro!: assms(2) answer_of_result simp: attempt_made_def)

lemma attempt_of_keys [simp]:
  "att_tenant (attempt_of m r ts) = msg_tenant m" "att_messageId (attempt_of m r ts) = msg_messageId m"
  "att_endpointId (attempt_of m r ts) = msg_endpointId m"
  by (simp_all add: attempt_of_def)

lemma wp_settle_retried:
  assumes "ok w" and "dr_outcome r = OutRetryable"
    and v: "vw w = put_circ (msg_tenant m) (msg_endpointId m) (onFailure c t (failureThreshold cc)) v"
    and "0 \<le> msg_attemptNo m" and "msg_attemptNo m < int (length (scheduleMs rc))"
    and "0 \<le> d" and "d \<le> retry_bound rc m r"
    and Q: "\<And>w' s. ok w' \<Longrightarrow> settled rc cc m c r v (vw w') s \<Longrightarrow> sched_effect m s (sched w) (sched w') \<Longrightarrow> Q (Inr ()) w'"
  shows "wpf esc (seq_io (record_attempt E (attempt_of m r ts))
          (bind_io (eng_clock E) (\<lambda>now.
           let due = now + d; nxt = m\<lparr>msg_attemptNo := msg_attemptNo m + 1, msg_status := Retrying, msg_nextAttemptAt := Some due\<rparr>
           in seq_io (ss_putMessage (eng_state E) nxt) (sch_scheduleRetry (eng_scheduler E) nxt due)))) Q w"
  unfolding Let_def
  apply (intro wp_intro wp_ports wp_record_attempt assms(1))
       apply (assumption | simp add: assms put_circ_def)+
  subgoal for w1 now w2 w3 w4
    using settled.retried [of r m rc d "now + d" now cc c v ts t] assms
    by (intro Q [where s = "Some (next_message m (now + d), now + d)"])
       (auto simp: next_message_def sched_effect_def entries_but_def put_circ_def)
  done

lemma wp_settle_retryable:
  assumes "ok w" and "dr_outcome r = OutRetryable"
    and Q: "\<And>w' s. ok w' \<Longrightarrow> settled rc cc m c r (vw w) (vw w') s \<Longrightarrow> sched_effect m s (sched w) (sched w') \<Longrightarrow> Q (Inr ()) w'"
  shows "wpf esc (settle_retryable E m c r (attempt_of m r ts)) Q w"
  unfolding settle_retryable_def
  apply (intro wp_bind wp_clock wp_seq wp_putCircuit wp_nextDelayMs after_Inr assms(1))
     apply assumption+
  subgoal for t w1 w2
    using settled.exhausted [of r m rc cc c "vw w" ts t] assms(2)
    by (auto intro!: wp_dlq Q [where s = None] simp: sched_effect_def)
  subgoal for t w1 w2 d w3
    unfolding option.case
    by (rule wp_settle_retried [OF _ assms(2), where t = t]) (auto simp: retry_bound_def intro: Q)
  done

lemma wp_settle:
  assumes "ok w"
    and Q: "\<And>w' s. ok w' \<Longrightarrow> settled rc cc m c r (vw w) (vw w') s \<Longrightarrow> sched_effect m s (sched w) (sched w') \<Longrightarrow> Q (Inr ()) w'"
  shows "wpf esc (settle E m c r) Q w"
  unfolding settle_def Let_def
proof (rule wp_bind, rule wp_clock [OF assms(1)], rule after_Inr, intro wp_if)
  fix ts w1 assume w1: "ok w1" "vw w1 = vw w" "sched w1 = sched w"
  show "wpf esc (seq_io (ss_putCircuit (eng_state E) (msg_tenant m) (msg_endpointId m) (onSuccess c))
             (seq_io (ss_putMessage (eng_state E) (m\<lparr>msg_status := Delivered\<rparr>))
             (record_attempt E ((attempt_of m r ts)\<lparr>att_outcome := AttDelivered\<rparr>)))) Q w1" if "dr_outcome r = OutDelivered"
    apply (intro wp_intro wp_ports wp_record_attempt w1(1))
    apply assumption+
    using settled.delivered [OF that, of rc cc m c "vw w" ts] w1
    by (auto intro!: Q [where s = None] simp: sched_effect_def put_msg_def)
  show "wpf esc (bind_io (eng_clock E) (\<lambda>failedAt.
             seq_io (ss_putCircuit (eng_state E) (msg_tenant m) (msg_endpointId m)
                       (onFailure c failedAt (failureThreshold (eng_circuitCfg E))))
             (dlq E m (attempt_of m r ts) (if dr_blockedBySsrf r then BlockedSsrf else Permanent4xx)))) Q w1"
    if "dr_outcome r = OutPermanent"
    apply (intro wp_bind wp_seq after_Inr wp_clock wp_putCircuit wp_dlq w1(1))
    apply (assumption | simp)+
    using settled.permanent [OF that refl, of rc cc m c "vw w" ts] w1
    by (auto intro!: Q [where s = None] simp: sched_effect_def)
  show "wpf esc (settle_retryable E m c r (attempt_of m r ts)) Q w1"
    if "dr_outcome r \<noteq> OutDelivered" "dr_outcome r \<noteq> OutPermanent"
    using that w1 by (cases "dr_outcome r") (auto intro!: wp_settle_retryable Q)
qed

text \<open>The circuit gate: the view before the gate is \<open>v1\<close>, the one the message is judged on is \<open>v\<close>; they
  differ at most in a rate bucket.\<close>

lemma wp_parked:
  assumes "ok w" and "live found = Some e" and "passes_rate stored m e v (vw w)"
    and "\<not> fst (canAttempt (circuit_of cc v m) now)"
    and Q: "\<And>w' s. ok w' \<Longrightarrow> delivery_step_on verdict signer rc cc found stored m v (vw w') s \<Longrightarrow> sched_effect m s (sched w) (sched w') \<Longrightarrow> Q (Inr ()) w'"
  shows "wpf esc (seq_io (ss_putMessage (eng_state E) (m\<lparr>msg_status := Blocked\<rparr>))
                (bind_io (case ci_openedAt (circuit_of cc v m) of Some t \<Rightarrow> return_io t | None \<Rightarrow> eng_clock E) (\<lambda>opened.
                 bind_io (fullJitter (ci_cooldownMs (circuit_of cc v m)) (eng_rng E)) (\<lambda>jitter.
                 sch_scheduleRetry (eng_scheduler E) m (opened + ci_cooldownMs (circuit_of cc v m) + jitter))))) Q w"
proof -
  have cool [simp]: "ci_cooldownMs (circuit_of cc v m) = cooldownMs cc"
    by (simp add: circuit_of_def)
  have go: "wpf esc (bind_io (fullJitter (ci_cooldownMs (circuit_of cc v m)) (eng_rng E)) (\<lambda>jitter.
        sch_scheduleRetry (eng_scheduler E) m (opened + ci_cooldownMs (circuit_of cc v m) + jitter))) Q w1"
    if "ok w1" "vw w1 = put_msg (m\<lparr>msg_status := Blocked\<rparr>) (vw w)" "sched w1 = sched w"
      "case ci_openedAt (circuit_of cc v m) of Some t \<Rightarrow> opened = t | None \<Rightarrow> True" for w1 opened
  proof (intro wp_intro wp_fullJitter wp_schedule that(1))
    fix d w2 w3
    assume "0 \<le> d" "d \<le> ci_cooldownMs (circuit_of cc v m)" "vw w2 = vw w1" "sched w2 = sched w1" "ok w3" "vw w3 = vw w2"
      "(m, opened + ci_cooldownMs (circuit_of cc v m) + d) \<in> sched w3" "entries_but m (sched w3) = entries_but m (sched w2)"
    then show "Q (Inr ()) w3"
      using that assms(2-4) delivery_step_on.parked [OF assms(2,3) refl assms(4) that(4), of "opened + cooldownMs cc + d" verdict signer rc]
      by (intro Q [where s = "Some (m, opened + cooldownMs cc + d)"]) (auto simp: sched_effect_def)
  qed (auto simp: cooldown_nonneg)
  show ?thesis
    apply (rule wp_seq, rule wp_putMessage [OF assms(1)], rule after_Inr, rule wp_bind)
    apply (intro wp_option wp_clock wp_return after_Inr go)
    by auto
qed

lemma wp_attempted:
  assumes "ok w" and "live found = Some e" and "passes_rate stored m e v (vw w)"
    and "canAttempt (circuit_of cc v m) now = (True, probe)"
    and Q: "\<And>w' s. ok w' \<Longrightarrow> delivery_step_on verdict signer rc cc found stored m v (vw w') s \<Longrightarrow> sched_effect m s (sched w) (sched w') \<Longrightarrow> Q (Inr ()) w'"
  shows "wpf esc (seq_io (if probe then ss_putCircuit (eng_state E) (msg_tenant m) (msg_endpointId m) (gated (circuit_of cc v m) probe)
                           else return_io ())
                   (seq_io (ss_putMessage (eng_state E) (m\<lparr>msg_status := Delivering\<rparr>))
                   (bind_io (deliverOnce m e (eng_deliverPorts E)) (\<lambda>result.
                    settle E m (gated (circuit_of cc v m) probe) result)))) Q w"
proof -
  have go: "wpf esc (seq_io (ss_putMessage (eng_state E) (m\<lparr>msg_status := Delivering\<rparr>))
                   (bind_io (deliverOnce m e (eng_deliverPorts E)) (\<lambda>result.
                    settle E m (gated (circuit_of cc v m) probe) result))) Q w1"
    if w1: "ok w1" "sched w1 = sched w"
      "vw w1 = vw w \<or> vw w1 = put_circ (msg_tenant m) (msg_endpointId m) (gated (circuit_of cc v m) probe) (vw w)" for w1
  proof (intro wp_intro wp_putMessage wp_deliverOnce w1(1))
    fix w2 r w3
    assume w2: "vw w2 = put_msg (m\<lparr>msg_status := Delivering\<rparr>) (vw w1)" "sched w2 = sched w1" and w3: "ok w3" "sched w3 = sched w2"
      and made: "attempt_made verdict signer m e r (vw w2) (vw w3)"
    from made w2(1) obtain v2 where v2: "attempt_made verdict signer m e r (vw w1) v2" "vw w3 = put_msg (m\<lparr>msg_status := Delivering\<rparr>) v2"
      using attempt_made_under_msg by metis
    have fin: "delivery_step_on verdict signer rc cc found stored m v v' s"
      if "settled rc cc m (gated (circuit_of cc v m) probe) r (vw w3) v' s" for v' s
    proof -
      have s: "settled rc cc m (gated (circuit_of cc v m) probe) r v2 v' s"
        using that settled_overwrites v2(2) by metis
      obtain v3 where "attempt_made verdict signer m e r (vw w) v3"
        "settled rc cc m (gated (circuit_of cc v m) probe) r v3 v' s"
        using w1(3) v2(1) s attempt_made_under_circ settled_overwrites_circuit by metis
      then show ?thesis using assms(2-4) by (intro delivery_step_on.attempted) auto
    qed
    show "wpf esc (settle E m (gated (circuit_of cc v m) probe) r) Q w3"
      by (rule wp_settle [OF w3(1)]) (use w1(2) w2(2) w3(2) in \<open>auto intro: Q fin\<close>)
  qed
  show ?thesis
    by (intro wp_seq wp_if wp_putCircuit wp_return after_Inr go assms(1)) (use assms(1) in auto)
qed

lemma wp_circuit_gate:
  assumes "ok w" and "live found = Some e" and "passes_rate stored m e v (vw w)" and "v_circuits (vw w) = v_circuits v"
    and Q: "\<And>w' s. ok w' \<Longrightarrow> delivery_step_on verdict signer rc cc found stored m v (vw w') s \<Longrightarrow> sched_effect m s (sched w) (sched w') \<Longrightarrow> Q (Inr ()) w'"
  shows "wpf esc (circuit_gate E m e) Q w"
proof -
  have c: "(v_circuits (vw w) (msg_tenant m) (msg_endpointId m))\<lparr>ci_cooldownMs := cooldownMs cc\<rparr> = circuit_of cc v m"
    by (simp add: circuit_of_def assms(4))
  show ?thesis
    unfolding circuit_gate_def Let_def
    apply (rule wp_bind, rule wp_getCircuit [OF assms(1)], rule after_Inr, rule wp_bind, rule wp_clock, assumption, rule after_Inr)
    unfolding c gated_def [symmetric]
    apply (rule wp_if)
    subgoal by (rule wp_parked [OF _ assms(2)]) (use assms(3) Q in auto)
    subgoal for w1 now w2
      by (rule wp_attempted [OF _ assms(2), where now = now]) (use assms(3) Q in \<open>auto simp: prod_eq_iff\<close>)
    done
qed

lemma wp_throttled:
  assumes "ok w" and e: "live found = Some e" and l: "rate_limit_of e = Some l"
    and d: "d = rate_decision_on stored l now" "\<not> rd_allowed d"
    and v: "vw w = put_buck (msg_tenant m) (msg_endpointId m) (rd_bucket d) v"
    and Q: "\<And>w' s. ok w' \<Longrightarrow> delivery_step_on verdict signer rc cc found stored m v (vw w') s \<Longrightarrow> sched_effect m s (sched w) (sched w') \<Longrightarrow> Q (Inr ()) w'"
  shows "wpf esc (seq_io (ss_putMessage (eng_state E) (m\<lparr>msg_status := Retrying, msg_nextAttemptAt := Some (now + rd_retryAfterMs d)\<rparr>))
              (sch_scheduleRetry (eng_scheduler E) m (now + rd_retryAfterMs d))) Q w"
  apply (intro wp_intro wp_putMessage wp_schedule assms(1), assumption)
  apply (rule Q [where s = "Some (m, now + rd_retryAfterMs d)"])
  using delivery_step_on.throttled [OF e l d refl, of verdict signer rc cc] v by (simp_all add: sched_effect_def)

lemma wp_rate_gate:
  assumes "ok w" and e: "live found = Some e" and l: "rate_limit_of e = Some l"
    and Q: "\<And>w' s stored. bk_shown (vw w) (msg_tenant m) (msg_endpointId m) stored \<Longrightarrow> ok w' \<Longrightarrow>
      delivery_step_on verdict signer rc cc found stored m (vw w) (vw w') s \<Longrightarrow> sched_effect m s (sched w) (sched w') \<Longrightarrow> Q (Inr ()) w'"
  shows "wpf esc (rate_gate E m e l) Q w"
  unfolding rate_gate_def Let_def
  apply (rule wp_bind, rule wp_clock [OF assms(1)], rule after_Inr, rule wp_bind, rule wp_getRateBucket_shown, assumption,
      rule after_Inr, rule wp_seq, rule wp_putRateBucket, assumption, rule after_Inr)
  subgoal for now w1 stored w2 w3
    unfolding rate_decision_on_def [symmetric]
    by (intro wp_if wp_throttled [OF _ e l refl, where stored = stored] wp_circuit_gate [OF _ e, where stored = stored])
       (use l in \<open>auto simp: passes_rate_def put_buck_def intro!: Q [where stored = stored]\<close>)
  done

text \<open>The refinement: one call of \<open>processMessage\<close> that returns is one step of the specification.\<close>

lemma wp_processMessage_shown:
  assumes "ok w"
    and Q: "\<And>w' s found stored. ep_shown (vw w) (msg_tenant m) (msg_endpointId m) found \<Longrightarrow>
      bk_shown (vw w) (msg_tenant m) (msg_endpointId m) stored \<Longrightarrow> ok w' \<Longrightarrow>
      delivery_step_on verdict signer rc cc found stored m (vw w) (vw w') s \<Longrightarrow> sched_effect m s (sched w) (sched w') \<Longrightarrow> Q (Inr ()) w'"
  shows "wpf esc (processMessage E m) Q w"
proof -
  obtain stored where stored: "bk_shown (vw w) (msg_tenant m) (msg_endpointId m) stored" using bk_shown_some [OF assms(1)] by blast
  have gone: "wpf esc (bind_io (eng_clock E) (\<lambda>ts. dlq E m (goneAttempt m ts) EndpointGone)) Q w1"
    if "ep_shown (vw w) (msg_tenant m) (msg_endpointId m) found" "live found = None" "ok w1" "vw w1 = vw w" "sched w1 = sched w" for w1 found
    by (intro wp_bind wp_clock after_Inr wp_dlq that(3))
       (use that delivery_step_on.gone [OF that(2)] in \<open>auto simp: goneAttempt_def sched_effect_def intro!: Q [OF that(1) stored, where s = None]\<close>)
  have pass: "wpf esc (circuit_gate E m e) Q w1"
    if "ep_shown (vw w) (msg_tenant m) (msg_endpointId m) found" "live found = Some e" "rate_limit_of e = None" "ok w1" "vw w1 = vw w"
      "sched w1 = sched w" for w1 e found
    by (intro wp_circuit_gate [OF that(4,2)]) (use that in \<open>auto simp: passes_rate_def intro: Q [OF that(1) stored]\<close>)
  have rate: "wpf esc (rate_gate E m e l) Q w1"
    if "ep_shown (vw w) (msg_tenant m) (msg_endpointId m) found" "live found = Some e" "rate_limit_of e = Some l" "ok w1" "vw w1 = vw w"
      "sched w1 = sched w" for w1 e l found
    by (intro wp_rate_gate [OF that(4,2,3)]) (use that in \<open>auto intro: Q [OF that(1)]\<close>)
  show ?thesis
    unfolding processMessage_def
    by (rule wp_bind, rule wp_getEndpoint_shown [OF assms(1)], rule after_Inr, intro wp_option wp_if)
       (auto simp: live_def rate_limit_of_def intro!: gone pass rate)
qed

end

section \<open>The engine's ports together\<close>

text \<open>The contracts of all ports, when no call fails and every read shows what is stored.\<close>

locale engine_ports =
  clock_port "eng_clock E" vw sched ok +
  rng_port "eng_rng E" vw sched ok +
  http_port "dp_http (eng_deliverPorts E)" verdict vw sched ok +
  policy_port "dp_urlPolicy (eng_deliverPorts E)" verdict vw sched ok +
  telemetry_port "eng_telemetry E" vw sched ok +
  transport_port "eng_transport E" vw sched ok +
  scheduler_port "eng_scheduler E" vw sched ok +
  state_store_port "eng_state E" vw sched ok
  for E :: "'w engine" and verdict :: "string \<Rightarrow> policy_result" and vw :: "'w \<Rightarrow> view"
    and sched :: "'w \<Rightarrow> (message \<times> millis) set" and ok :: "'w \<Rightarrow> bool" +
  assumes same_clocks: "dp_clock (eng_deliverPorts E) = eng_clock E"
    and cooldowns_nonneg: "0 \<le> cooldownMs (eng_circuitCfg E)"
    and schedules_nonneg: "\<forall>b \<in> set (scheduleMs (eng_retry E)). 0 \<le> b"

sublocale engine_ports \<subseteq> delivery_ports E verdict vw sched ok no_escape
  "\<lambda>v t i x. x = v_endpoints v t i" "\<lambda>v t i x. x = v_buckets v t i"
proof
  show "0 \<le> cooldownMs (eng_circuitCfg E)" "dp_clock (eng_deliverPorts E) = eng_clock E" "\<forall>b\<in>set (scheduleMs (eng_retry E)). 0 \<le> b"
    by (rule cooldowns_nonneg same_clocks schedules_nonneg)+
  fix w assume w: "ok w"
  show "answers no_escape ok vw sched (eng_clock E) w (\<lambda>_ v. v = vw w)"
    using clock_call [OF w] by (blast intro: calls_answers)
  show "answers no_escape ok vw sched (eng_rng E) w (\<lambda>r v. 0 \<le> r \<and> r < 1 \<and> v = vw w)"
    using rng_call [OF w] by (blast intro: calls_answers)
  show "answers no_escape ok vw sched (http_post (dp_http (eng_deliverPorts E)) url body hs tmo) w
      (\<lambda>_ v. v = push_post (url, body, hs) (vw w))" if "pr_allowed (verdict url)" for url body hs tmo
    using http_call [OF w that] by (blast intro: calls_answers)
  show "case fst (sch_scheduleRetry (eng_scheduler E) m due w) of Inl e \<Rightarrow> False
      | Inr x \<Rightarrow> (m, due) \<in> sched (snd (sch_scheduleRetry (eng_scheduler E) m due w))" for m due
    by (simp add: schedule_result [OF w] schedule_in [OF w])
qed (auto simp: schedule_frame intro: schedule_inv schedule_view
       calls_answers [OF policy_call] calls_answers [OF telemetry_call] calls_answers [OF getEndpoint_call]
       calls_answers [OF putMessage_call] calls_answers [OF appendAttempt_call] calls_answers [OF getCircuit_call]
       calls_answers [OF putCircuit_call] calls_answers [OF getRateBucket_call] calls_answers [OF putRateBucket_call]
       calls_answers [OF addToDlq_call])

context engine_ports
begin

lemmas wp_send = wp_calls [OF send_call]
lemmas wp_finalizeEvent = wp_calls [OF finalizeEvent_call]
lemmas wp_getEndpoint = wp_calls [OF getEndpoint_call]

lemma wp_processMessage:
  assumes "ok w"
    and Q: "\<And>w' s. ok w' \<Longrightarrow> delivery_step verdict signer rc cc m (vw w) (vw w') s \<Longrightarrow> sched_effect m s (sched w) (sched w') \<Longrightarrow> Q (Inr ()) w'"
  shows "wp (processMessage E m) Q w"
  by (rule wp_processMessage_shown [OF assms(1)]) (auto intro: Q)

end

section \<open>What a delivery step guarantees\<close>

lemmas step_effects = view_defs dead_letter_def next_message_def attempt_of_def goneAttempt_def

text \<open>What the rate gate and the POST leave alone.\<close>

lemma passes_rate_frame:
  "passes_rate stored m e v v1 \<Longrightarrow> \<exists>b. v1 = v\<lparr>v_buckets := b\<rparr> \<and> (\<forall>t i. t \<noteq> msg_tenant m \<or> i \<noteq> msg_endpointId m \<longrightarrow> b t i = v_buckets v t i)"
  unfolding passes_rate_def put_buck_def
  by (auto split: option.splits intro: exI [of _ "v_buckets v"])

lemma attempt_made_frame: "attempt_made verdict signer m e r v1 v2 \<Longrightarrow> \<exists>p. v2 = v1\<lparr>v_posts := p\<rparr>"
  unfolding attempt_made_def push_post_def by (auto split: if_splits intro: exI [of _ "v_posts v1"])

text \<open>
  Where the message is afterwards: delivered; dead and in the dead-letter queue; or waiting with a
  scheduled retry. It is never dropped.
\<close>

definition accounted :: "message \<Rightarrow> view \<Rightarrow> (message \<times> millis) option \<Rightarrow> bool" where
  "accounted m v s \<longleftrightarrow>
     (\<exists>m'. v_messages v (msg_tenant m) (msg_messageId m) = Some m' \<and>
       (case msg_status m' of
          Delivered \<Rightarrow> s = None \<and> v_attempts v (msg_tenant m) (msg_endpointId m, msg_messageId m) \<noteq> []
            \<and> att_outcome (last (v_attempts v (msg_tenant m) (msg_endpointId m, msg_messageId m))) = AttDelivered
        | Dead \<Rightarrow> s = None \<and> m \<in> fst ` set_mset (v_dlq v (msg_tenant m) (msg_endpointId m))
        | Retrying \<Rightarrow> \<exists>m'' due. s = Some (m'', due) \<and> msg_messageId m'' = msg_messageId m \<and> msg_tenant m'' = msg_tenant m
            \<and> msg_endpointId m'' = msg_endpointId m \<and> msg_payload m'' = msg_payload m
            \<and> msg_attemptNo m'' = msg_attemptNo m' \<and> msg_nextAttemptAt m' = Some due
        | Blocked \<Rightarrow> \<exists>due. s = Some (m, due)
        | _ \<Rightarrow> False))"

lemma settled_accounted: "settled rc cc m c r v v' s \<Longrightarrow> accounted m v' s"
  by (induction rule: settled.induct) (auto simp: accounted_def step_effects)

lemma delivery_step_accounted: "delivery_step_on verdict signer rc cc found stored m v v' s \<Longrightarrow> accounted m v' s"
  by (induction rule: delivery_step_on.induct) (auto simp: settled_accounted, auto simp: accounted_def step_effects)

text \<open>Isolation: a delivery touches its own message's records, its own endpoint's circuit, bucket and
  dead-letter rows, and nothing else.\<close>

definition only_touches :: "message \<Rightarrow> view \<Rightarrow> view \<Rightarrow> bool" where
  "only_touches m v v' \<longleftrightarrow>
     v_events v' = v_events v \<and> v_endpoints v' = v_endpoints v \<and> v_queue v' = v_queue v \<and>
     (\<forall>t i. t \<noteq> msg_tenant m \<or> i \<noteq> msg_messageId m \<longrightarrow>
        v_messages v' t i = v_messages v t i \<and> (\<forall>e. v_attempts v' t (e, i) = v_attempts v t (e, i))) \<and>
     (\<forall>t i. t \<noteq> msg_tenant m \<or> i \<noteq> msg_endpointId m \<longrightarrow>
        v_circuits v' t i = v_circuits v t i \<and> v_buckets v' t i = v_buckets v t i \<and> v_dlq v' t i = v_dlq v t i)"

lemma only_touches_trans: "only_touches m v v1 \<Longrightarrow> only_touches m v1 v2 \<Longrightarrow> only_touches m v v2"
  by (simp add: only_touches_def)

lemma only_touches_settled: "settled rc cc m c r v v' s \<Longrightarrow> only_touches m v v'"
  by (induction rule: settled.induct) (auto simp: only_touches_def step_effects)

lemma only_touches_rate: "passes_rate stored m e v v1 \<Longrightarrow> only_touches m v v1"
  by (auto dest!: passes_rate_frame simp: only_touches_def)

lemma only_touches_attempt: "attempt_made verdict signer m e r v1 v2 \<Longrightarrow> only_touches m v1 v2"
  by (auto dest!: attempt_made_frame simp: only_touches_def)

lemma delivery_step_isolated: "delivery_step_on verdict signer rc cc found stored m v v' s \<Longrightarrow> only_touches m v v'"
proof (induction rule: delivery_step_on.induct)
  case (parked e v1 c now opened due)
  have "only_touches m v1 (put_msg (m\<lparr>msg_status := Blocked\<rparr>) v1)"
    by (simp add: only_touches_def put_msg_def)
  with only_touches_rate [OF parked(2)] show ?case by (rule only_touches_trans)
next
  case (attempted e v1 c now probe r v2 v' s)
  then show ?case
    by (meson only_touches_trans only_touches_rate only_touches_attempt only_touches_settled)
qed (auto simp: only_touches_def step_effects)

text \<open>POSTs: at most one per delivery, to the endpoint's own URL, only when the policy allows it.\<close>

lemma settled_posts: "settled rc cc m c r v v' s \<Longrightarrow> v_posts v' = v_posts v"
  by (induction rule: settled.induct) (auto simp: step_effects)

lemma delivery_step_posts:
  assumes "delivery_step_on verdict signer rc cc found stored m v v' s"
  shows "v_posts v' = v_posts v \<or>
    (\<exists>e signedAt. live found = Some e \<and> pr_allowed (verdict (ep_url e)) \<and> (\<exists>now. fst (canAttempt (circuit_of cc v m) now))
      \<and> v_posts v' = v_posts v @ [(ep_url e, payload_text (msg_payload m),
           spread [(''content-type'', ''application/json'')]
             (signer (ep_secrets e) (msg_messageId m) (payload_text (msg_payload m)) signedAt))])"
  using assms
proof cases
  case (attempted e v1 c now probe r v2)
  have "v_posts v1 = v_posts v" using passes_rate_frame [OF attempted(2)] by auto
  moreover have "v_posts v' = v_posts v2" using settled_posts [OF attempted(6)] .
  moreover have "\<exists>now. fst (canAttempt (circuit_of cc v m) now)"
    using attempted(3,4) by (intro exI [of _ now]) simp
  ultimately show ?thesis
    using attempted(1,5) by (auto simp: attempt_made_def push_post_def split: if_splits)
qed (auto simp: step_effects dest!: passes_rate_frame)

text \<open>A target that the policy refuses is never contacted; if it gets as far as an attempt, the message is
  dead-lettered as blocked.\<close>

lemma delivery_step_blocked:
  assumes "delivery_step_on verdict signer rc cc found stored m v v' s" and "live found = Some e" and "\<not> pr_allowed (verdict (ep_url e))"
  shows "v_posts v' = v_posts v \<and> (s = None \<longrightarrow> (m, BlockedSsrf) \<in># v_dlq v' (msg_tenant m) (msg_endpointId m))"
  using assms
proof cases
  case (attempted e v1 c now probe r v2)
  have "v_posts v' = v_posts v2" using settled_posts [OF attempted(6)] .
  moreover have "dr_outcome r = OutPermanent \<and> dr_blockedBySsrf r \<and> v2 = v1"
    using attempted(1,5) assms(2,3) by (auto simp: attempt_made_def)
  moreover have "v_posts v1 = v_posts v" using passes_rate_frame [OF attempted(2)] by auto
  ultimately show ?thesis
    using attempted(6) by (auto elim!: settledE simp: step_effects)
qed (auto simp: step_effects dest!: passes_rate_frame)

lemma delivery_step_blocked_schedules:
  assumes "delivery_step_on verdict signer rc cc found stored m v v' s" and "s = Some (m', due)" and "live found = Some e" and "\<not> pr_allowed (verdict (ep_url e))"
  shows "m' = m"
  using assms by (elim delivery_step_on.cases settled.cases) (auto simp: attempt_made_def)

text \<open>The breaker's invariant is kept for every endpoint.\<close>

lemma gated_wf: "circuit_wf n c \<Longrightarrow> canAttempt c now = (True, probe) \<Longrightarrow> circuit_wf n (gated c probe)"
  by (auto simp: gated_def dest!: canAttempt_probe_open intro: circuit_wf_toHalfOpen)

lemma settled_circuits:
  assumes "settled rc cc m c r v v' s" and "0 < failureThreshold cc" and "circuit_wf (failureThreshold cc) c"
    and "\<And>t i. circuit_wf (failureThreshold cc) (v_circuits v t i)"
  shows "circuit_wf (failureThreshold cc) (v_circuits v' t i)"
  using assms by induction (auto simp: step_effects circuit_wf_onFailure)

lemma delivery_step_circuits:
  assumes "delivery_step_on verdict signer rc cc found stored m v v' s" and "0 < failureThreshold cc"
    and wf: "\<And>t i. circuit_wf (failureThreshold cc) (v_circuits v t i)"
  shows "circuit_wf (failureThreshold cc) (v_circuits v' t i)"
  using assms(1)
proof cases
  case (attempted e v1 c now probe r v2)
  have "v_circuits v2 = v_circuits v"
    using passes_rate_frame [OF attempted(2)] attempt_made_frame [OF attempted(5)] by auto
  moreover have "circuit_wf (failureThreshold cc) (gated c probe)"
    using attempted(3,4) wf by (auto intro!: gated_wf simp: circuit_of_def)
  ultimately show ?thesis
    using settled_circuits [OF attempted(6) assms(2)] wf by simp
qed (use wf in \<open>auto simp: step_effects dest!: passes_rate_frame\<close>)

text \<open>The numbers of the attempts. A step that only throttles or parks writes nothing to the delivery log and
  schedules the message as it is. Any other step writes one entry, with the message's attempt number; a retry
  is scheduled under the next number, and only for a number inside the retry schedule. An answer that
  allows a retry leads to one as long as the number is inside, and to the dead-letter queue otherwise.\<close>

definition log_of :: "message \<Rightarrow> view \<Rightarrow> attempt list" where
  "log_of m v = v_attempts v (msg_tenant m) (msg_endpointId m, msg_messageId m)"

definition retries_left :: "retry_config \<Rightarrow> message \<Rightarrow> bool" where
  "retries_left rc m \<longleftrightarrow> 0 \<le> msg_attemptNo m \<and> msg_attemptNo m < int (length (scheduleMs rc))"

definition entry_numbered :: "retry_config \<Rightarrow> message \<Rightarrow> attempt \<Rightarrow> view \<Rightarrow> (message \<times> millis) option \<Rightarrow> bool" where
  "entry_numbered rc m a v' s \<longleftrightarrow>
     att_attemptNo a = msg_attemptNo m
     \<and> (case s of
          None \<Rightarrow> att_outcome a \<noteq> AttRetried
        | Some (m', due) \<Rightarrow> att_outcome a = AttRetried \<and> retries_left rc m \<and> m' = next_message m due)
     \<and> (att_status a \<noteq> Network \<and> classifyOutcome (att_status a) = OutRetryable \<longrightarrow>
          (if retries_left rc m then att_outcome a = AttRetried
           else att_outcome a = AttDead \<and> (m, ExhaustedRetries) \<in># v_dlq v' (msg_tenant m) (msg_endpointId m)))"

lemma settled_numbered:
  assumes "settled rc cc m c r v v' s" and "dr_status r = Network \<or> dr_outcome r = classifyOutcome (dr_status r)"
  shows "\<exists>a. log_of m v' = log_of m v @ [a] \<and> entry_numbered rc m a v' s"
  using assms by induction (auto simp: step_effects log_of_def entry_numbered_def retries_left_def)

lemma delivery_step_numbered:
  assumes "delivery_step_on verdict signer rc cc found stored m v v' s"
  shows "log_of m v' = log_of m v \<and> (\<exists>due. s = Some (m, due))
    \<or> (\<exists>a. log_of m v' = log_of m v @ [a] \<and> entry_numbered rc m a v' s)"
  using assms
proof cases
  case (attempted e v1 c now probe r v2)
  have "log_of m v2 = log_of m v"
    using passes_rate_frame [OF attempted(2)] attempt_made_frame [OF attempted(5)] by (auto simp: log_of_def)
  moreover have "dr_status r = Network \<or> dr_outcome r = classifyOutcome (dr_status r)"
    using attempted(5) by (auto simp: attempt_made_def answer_of_def split: if_splits)
  ultimately show ?thesis
    using settled_numbered [OF attempted(6)] by simp
qed (auto simp: log_of_def entry_numbered_def step_effects dest!: passes_rate_frame)

text \<open>What is recorded of one message stays when another one is delivered.\<close>

lemma settled_dlq_grows: "settled rc cc m c r v v' s \<Longrightarrow> x \<in># v_dlq v t i \<Longrightarrow> x \<in># v_dlq v' t i"
  by (induction rule: settled.induct) (auto simp: step_effects)

lemma delivery_step_dlq_grows:
  assumes "delivery_step_on verdict signer rc cc found stored m v v' s" and "x \<in># v_dlq v t i"
  shows "x \<in># v_dlq v' t i"
  using assms(1)
proof cases
  case (attempted e v1 c now probe r v2)
  have "v_dlq v2 = v_dlq v"
    using passes_rate_frame [OF attempted(2)] attempt_made_frame [OF attempted(5)] by auto
  with settled_dlq_grows [OF attempted(6)] assms(2) show ?thesis by simp
qed (use assms(2) in \<open>auto simp: step_effects dest!: passes_rate_frame\<close>)

lemma accounted_kept:
  assumes "accounted m v s" and "delivery_step_on verdict signer rc cc found stored m2 v v' s2"
    and "(msg_tenant m2, msg_messageId m2) \<noteq> (msg_tenant m, msg_messageId m)"
  shows "accounted m v' s"
proof -
  have "v_messages v' (msg_tenant m) (msg_messageId m) = v_messages v (msg_tenant m) (msg_messageId m)"
    "v_attempts v' (msg_tenant m) (e, msg_messageId m) = v_attempts v (msg_tenant m) (e, msg_messageId m)" for e
    using delivery_step_isolated [OF assms(2)] assms(3) by (auto simp: only_touches_def)
  moreover have "(m, b) \<in># v_dlq v t i \<Longrightarrow> m \<in> fst ` set_mset (v_dlq v' t i)" for t i b
    using delivery_step_dlq_grows [OF assms(2)] by force
  ultimately show ?thesis
    using assms(1) unfolding accounted_def by (elim exE conjE) (auto split: message_status.splits)
qed

section \<open>Deliveries that fail\<close>

text \<open>A fact about the world that a program keeps, whether it returns or throws.\<close>

definition keeps :: "('w \<Rightarrow> bool) \<Rightarrow> ('w, 'a) io \<Rightarrow> bool" where
  "keeps I m \<longleftrightarrow> (\<forall>w. I w \<longrightarrow> I (snd (m w)))"

named_theorems keeps_intro \<open>rules that follow the structure of a program\<close>

lemma keeps_return [keeps_intro]: "keeps I (return_io x)"
  by (simp add: keeps_def)

lemma keeps_bind [keeps_intro]: "keeps I m \<Longrightarrow> (\<And>x. keeps I (f x)) \<Longrightarrow> keeps I (bind_io m f)"
  by (auto simp: keeps_def bind_io_def split: sum.splits)

lemma keeps_seq [keeps_intro]: "keeps I m \<Longrightarrow> keeps I k \<Longrightarrow> keeps I (seq_io m k)"
  unfolding seq_io_def by (rule keeps_bind)

lemma keeps_if [keeps_intro]: "(b \<Longrightarrow> keeps I m) \<Longrightarrow> (\<not> b \<Longrightarrow> keeps I m') \<Longrightarrow> keeps I (if b then m else m')"
  by simp

lemma keeps_option [keeps_intro]:
  "keeps I m \<Longrightarrow> (\<And>y. keeps I (f y)) \<Longrightarrow> keeps I (case x of None \<Rightarrow> m | Some y \<Rightarrow> f y)"
  by (cases x) simp_all

lemma keeps_let [keeps_intro]: "(\<And>y. y = x \<Longrightarrow> keeps I (f y)) \<Longrightarrow> keeps I (let y = x in f y)"
  by simp

text \<open>What a program returns may be used of the rest of it.\<close>

lemma keeps_bind_result:
  assumes "keeps I m" and "\<And>w x. fst (m w) = Inr x \<Longrightarrow> P x" and "\<And>x. P x \<Longrightarrow> keeps I (f x)"
  shows "keeps I (bind_io m f)"
  using assms by (auto simp: keeps_def bind_io_def split: sum.splits)

lemma keeps_for: "(\<And>x. x \<in> set xs \<Longrightarrow> keeps I (f x)) \<Longrightarrow> keeps I (for_io xs f)"
  by (induction xs) (auto intro: keeps_seq keeps_return)

lemma keeps_map: "(\<And>x. x \<in> set xs \<Longrightarrow> keeps I (f x)) \<Longrightarrow> keeps I (map_io f xs)"
  by (induction xs) (auto intro!: keeps_intro)

text \<open>A call keeps to a frame that its effect keeps to.\<close>

lemma keeps_frame:
  assumes "\<And>w. ok w \<Longrightarrow> answers esc ok vw sched f w (R w)" and "\<And>w x v. ok w \<Longrightarrow> R w x v \<Longrightarrow> F (vw w) v"
    and "\<And>v. F v v" and "\<And>u v v'. F u v \<Longrightarrow> F v v' \<Longrightarrow> F u v'"
  shows "keeps (\<lambda>w. ok w \<and> F v0 (vw w) \<and> g (sched w) = S0) f"
proof -
  have "F (vw w) (vw (snd (f w)))" if "ok w" for w
    using assms(1) [OF that] assms(2) [OF that] assms(3) by (auto simp: answers_def split: sum.splits)
  then show ?thesis
    using assms(1) by (auto simp: keeps_def answers_def intro: assms(4))
qed

lemma keeps_answers:
  assumes "\<And>w. ok w \<Longrightarrow> answers esc ok vw sched f w (R w)" and "\<And>w x v. ok w \<Longrightarrow> R w x v \<Longrightarrow> only_touches m (vw w) v"
  shows "keeps (\<lambda>w. ok w \<and> only_touches m v0 (vw w) \<and> entries_but m (sched w) = S0) f"
  by (rule keeps_frame [where F = "only_touches m", OF assms]) (auto intro: only_touches_trans, simp add: only_touches_def)

context delivery_ports
begin

abbreviation "inside_message m v0 S0 w \<equiv> ok w \<and> only_touches m v0 (vw w) \<and> entries_but m (sched w) = S0"

lemma keeps_schedule:
  "msg_tenant m' = msg_tenant m \<Longrightarrow> msg_messageId m' = msg_messageId m \<Longrightarrow>
   keeps (inside_message m v0 S0) (sch_scheduleRetry (eng_scheduler E) m' due)"
  using schedule_ok schedule_same_view schedule_others [of _ m' due] by (simp add: keeps_def entries_but_def)

lemma keeps_putMessage:
  "msg_tenant m' = msg_tenant m \<Longrightarrow> msg_messageId m' = msg_messageId m \<Longrightarrow>
   keeps (inside_message m v0 S0) (ss_putMessage (eng_state E) m')"
  by (rule keeps_answers [OF putMessage_answers]) (auto simp: only_touches_def put_msg_def)

lemma keeps_appendAttempt:
  "att_tenant a = msg_tenant m \<Longrightarrow> att_messageId a = msg_messageId m \<Longrightarrow>
   keeps (inside_message m v0 S0) (ss_appendAttempt (eng_state E) a)"
  by (rule keeps_answers [OF appendAttempt_answers]) (auto simp: only_touches_def add_att_def)

lemma keeps_reads:
  "keeps (inside_message m v0 S0) (eng_clock E)"
  "keeps (inside_message m v0 S0) (eng_rng E)"
  "keeps (inside_message m v0 S0) (tel_recordAttempt (eng_telemetry E) a)"
  "keeps (inside_message m v0 S0) (ss_getEndpoint (eng_state E) t i)"
  "keeps (inside_message m v0 S0) (ss_getCircuit (eng_state E) t i)"
  "keeps (inside_message m v0 S0) (ss_getRateBucket (eng_state E) t i)"
  by (rule keeps_answers [OF clock_answers] keeps_answers [OF rng_answers] keeps_answers [OF telemetry_answers]
        keeps_answers [OF getEndpoint_answers] keeps_answers [OF getCircuit_answers] keeps_answers [OF getRateBucket_answers];
      simp add: only_touches_def)+

lemma keeps_writes:
  "keeps (inside_message m v0 S0) (ss_putCircuit (eng_state E) (msg_tenant m) (msg_endpointId m) c)"
  "keeps (inside_message m v0 S0) (ss_putRateBucket (eng_state E) (msg_tenant m) (msg_endpointId m) b)"
  "keeps (inside_message m v0 S0) (ss_addToDlq (eng_state E) m r)"
  by (rule keeps_answers [OF putCircuit_answers] keeps_answers [OF putRateBucket_answers] keeps_answers [OF addToDlq_answers];
      auto simp: only_touches_def view_defs)+

lemma keeps_deliverOnce: "keeps (inside_message m v0 S0) (deliverOnce m' e (eng_deliverPorts E))"
proof -
  have post: "inside_message m v0 S0 (snd (http_post (dp_http (eng_deliverPorts E)) url body hs tmo w))"
    if "inside_message m v0 S0 w" "pr_allowed (verdict url)" for w url body hs tmo
    using that http_answers [of w url body hs tmo]
    by (auto simp: answers_def only_touches_def push_post_def split: sum.splits)
  have rest: "keeps (\<lambda>w. inside_message m v0 S0 w) (http_post (dp_http (eng_deliverPorts E)) (ep_url e) body hs tmo)"
    if "pr_allowed (verdict (ep_url e))" for body hs tmo
    using post that by (simp add: keeps_def)
  have check: "keeps (inside_message m v0 S0) (bind_io (policy_check (dp_urlPolicy (eng_deliverPorts E)) (ep_url e)) f)"
    if f: "keeps (inside_message m v0 S0) (f (verdict (ep_url e)))" for f :: "policy_result \<Rightarrow> ('w, delivery_result) io"
    unfolding keeps_def
  proof (intro allI impI)
    fix w assume w: "inside_message m v0 S0 w"
    with policy_answers [of w "ep_url e"] f
    show "inside_message m v0 S0 (snd (bind_io (policy_check (dp_urlPolicy (eng_deliverPorts E)) (ep_url e)) f w))"
      by (cases "fst (policy_check (dp_urlPolicy (eng_deliverPorts E)) (ep_url e) w)")
         (auto simp: bind_io_def answers_def keeps_def)
  qed
  show ?thesis
    unfolding deliverOnce_def same_clock Let_def
    by (intro check keeps_intro keeps_reads rest) auto
qed

lemma keeps_settle: "keeps (inside_message m v0 S0) (settle E m c r)"
  unfolding settle_def settle_retryable_def dlq_def record_attempt_def nextDelayMs_def fullJitter_def
  by (intro keeps_intro keeps_reads keeps_writes keeps_putMessage keeps_appendAttempt keeps_schedule) (simp_all add: attempt_of_def)

text \<open>However a delivery ends, nothing but its own message and endpoint is touched.\<close>

lemma keeps_processMessage: "keeps (inside_message m v0 S0) (processMessage E m)"
  unfolding processMessage_def rate_gate_def circuit_gate_def dlq_def record_attempt_def fullJitter_def
  by (intro keeps_intro keeps_reads keeps_writes keeps_putMessage keeps_appendAttempt keeps_schedule keeps_deliverOnce keeps_settle)
     (simp_all add: goneAttempt_def)

lemma processMessage_inside:
  assumes "ok w" and "processMessage E m w = (r, w')"
  shows "ok w' \<and> only_touches m (vw w) (vw w') \<and> entries_but m (sched w') = entries_but m (sched w)"
proof -
  have "inside_message m (vw w) (entries_but m (sched w)) w" using assms(1) by (simp add: only_touches_def)
  with keeps_processMessage [of m "vw w" "entries_but m (sched w)"] assms(2) show ?thesis
    unfolding keeps_def by (metis snd_conv)
qed

lemma processMessage_step:
  assumes "ok w" and "processMessage E m w = (Inr (), w')"
  shows "\<exists>s found stored. ep_shown (vw w) (msg_tenant m) (msg_endpointId m) found
    \<and> bk_shown (vw w) (msg_tenant m) (msg_endpointId m) stored
    \<and> delivery_step_on verdict signer rc cc found stored m (vw w) (vw w') s \<and> sched_effect m s (sched w) (sched w')"
proof -
  have "wpf esc (processMessage E m) (\<lambda>r w'. \<exists>s found stored. ep_shown (vw w) (msg_tenant m) (msg_endpointId m) found
      \<and> bk_shown (vw w) (msg_tenant m) (msg_endpointId m) stored
      \<and> delivery_step_on verdict signer rc cc found stored m (vw w) (vw w') s \<and> sched_effect m s (sched w) (sched w')) w"
    by (rule wp_processMessage_shown [OF assms(1)]) blast
  from wpfD [OF this assms(2)] show ?thesis .
qed

end

end
