(* ===== verification/Core_Send_Spec.thy ===== *)
theory Core_Send_Spec
  imports Core_Delivery_Spec
begin

text \<open>
  What \<open>WebhookEngine.send\<close> promises, over any ports that keep their contracts: a new event is stored
  and enqueued once for every enabled endpoint of its tenant that subscribes to it; a repeated
  idempotency key returns the first receipt and changes nothing; a refused event changes nothing. When calls
  may fail, an acceptance that throws leaves everything alone but its own key, messages and queue.
\<close>

section \<open>The specification\<close>

definition idem_key :: "'w engine \<Rightarrow> send_event \<Rightarrow> string" where
  "idem_key E event =
     (case ev_idempotencyKey event of Some k \<Rightarrow> k | None \<Rightarrow> deriveIdempotencyKey (eng_sha256_hex E) event)"

definition acceptable :: "'w engine \<Rightarrow> send_event \<Rightarrow> bool" where
  "acceptable E event \<longleftrightarrow>
     ev_type event \<noteq> [] \<and> ev_tenant event \<noteq> [] \<and>
     (case ev_payload event of None \<Rightarrow> False | Some p \<Rightarrow> utf8_length (stringify p) \<le> eng_maxPayloadBytes E)"

definition enqueued :: "message \<Rightarrow> view \<Rightarrow> view" where
  "enqueued m v = push_queue m (put_msg m v)"

text \<open>The endpoints an event goes to.\<close>

definition recipients :: "view \<Rightarrow> send_event \<Rightarrow> endpoint set" where
  "recipients v event =
     {e \<in> ran (v_endpoints v (ev_tenant event)). \<not> ep_disabled e \<and> subscribes e (ev_type event)}"

text \<open>A new event is accepted for the endpoints \<open>es\<close>.\<close>

definition accepted_for ::
  "'w engine \<Rightarrow> send_event \<Rightarrow> endpoint list \<Rightarrow> view \<Rightarrow> view \<Rightarrow> message list \<Rightarrow> receipt \<Rightarrow> bool" where
  "accepted_for E event es v v' ms r \<longleftrightarrow>
     (\<exists>eventId now ids.
        id_wf ''evt'' 20 eventId \<and> length ids = length es \<and> (\<forall>i \<in> set ids. id_wf ''msg'' 20 i)
        \<and> ms = map2 (fanout_message event eventId now) es ids
        \<and> r = \<lparr>rc_eventId = eventId, rc_accepted = True, rc_messageCount = length es\<rparr>
        \<and> v' = put_event (ev_tenant event) (idem_key E event) (eventId, length es)
                 (fold enqueued ms (put_event (ev_tenant event) (idem_key E event) (eventId, 0) v)))"

definition accepted_as ::
  "'w engine \<Rightarrow> send_event \<Rightarrow> view \<Rightarrow> view \<Rightarrow> message list \<Rightarrow> receipt \<Rightarrow> bool" where
  "accepted_as E event v v' ms r \<longleftrightarrow>
     (\<exists>es. distinct (map ep_endpointId es) \<and> set es = recipients v event \<and> accepted_for E event es v v' ms r)"

abbreviation wanted :: "send_event \<Rightarrow> endpoint list \<Rightarrow> endpoint list" where
  "wanted event es \<equiv> filter (\<lambda>e. \<not> ep_disabled e \<and> subscribes e (ev_type event)) es"

text \<open>Whatever an acceptance does, it touches the record of its key, messages of its tenant, and the queue.\<close>

definition only_accepts :: "string \<Rightarrow> string \<Rightarrow> view \<Rightarrow> view \<Rightarrow> bool" where
  "only_accepts t k v v' \<longleftrightarrow>
     (\<exists>ms. v_queue v' = v_queue v @ ms \<and> (\<forall>m \<in> set ms. msg_tenant m = t))
     \<and> (\<forall>t' k'. t' \<noteq> t \<or> k' \<noteq> k \<longrightarrow> v_events v' t' k' = v_events v t' k')
     \<and> (\<forall>t' i. t' \<noteq> t \<longrightarrow> v_messages v' t' i = v_messages v t' i)
     \<and> v_endpoints v' = v_endpoints v \<and> v_attempts v' = v_attempts v \<and> v_circuits v' = v_circuits v
     \<and> v_buckets v' = v_buckets v \<and> v_dlq v' = v_dlq v \<and> v_posts v' = v_posts v"

lemma only_accepts_refl [simp]: "only_accepts t k v v"
  by (simp add: only_accepts_def)

lemma only_accepts_trans: "only_accepts t k u v \<Longrightarrow> only_accepts t k v v' \<Longrightarrow> only_accepts t k u v'"
  unfolding only_accepts_def by (elim conjE exE) (auto intro: exI [of _ "_ @ _"])

lemma only_accepts_effects [simp]:
  "only_accepts t k v (put_event t k x v)" "msg_tenant m = t \<Longrightarrow> only_accepts t k v (put_msg m v)"
  "msg_tenant m = t \<Longrightarrow> only_accepts t k v (push_queue m v)"
  by (auto simp: only_accepts_def view_defs)

section \<open>What follows from the specification\<close>

lemma v_queue_fold_enqueued: "v_queue (fold enqueued ms v) = v_queue v @ ms"
  by (induction ms arbitrary: v) (simp_all add: enqueued_def view_defs)

lemma fold_enqueued_keeps:
  "v_events (fold enqueued ms v) = v_events v" "v_endpoints (fold enqueued ms v) = v_endpoints v"
  "v_attempts (fold enqueued ms v) = v_attempts v" "v_posts (fold enqueued ms v) = v_posts v"
  "v_circuits (fold enqueued ms v) = v_circuits v" "v_buckets (fold enqueued ms v) = v_buckets v"
  "v_dlq (fold enqueued ms v) = v_dlq v"
  by (induction ms arbitrary: v) (simp_all add: enqueued_def view_defs)

lemma fold_enqueued_other:
  "\<forall>m \<in> set ms. msg_tenant m \<noteq> t \<or> msg_messageId m \<noteq> i \<Longrightarrow> v_messages (fold enqueued ms v) t i = v_messages v t i"
  by (induction ms arbitrary: v) (auto simp: enqueued_def view_defs)

lemma fold_enqueued_stored:
  "distinct (map msg_messageId ms) \<Longrightarrow> m \<in> set ms \<Longrightarrow>
   v_messages (fold enqueued ms v) (msg_tenant m) (msg_messageId m) = Some m"
proof (induction ms arbitrary: v)
  case (Cons a ms)
  show ?case
  proof (cases "m = a")
    case True
    have "\<forall>m \<in> set ms. msg_messageId m \<noteq> msg_messageId a"
      using Cons.prems(1) by (auto simp: image_iff)
    then have "v_messages (fold enqueued ms (enqueued a v)) (msg_tenant a) (msg_messageId a)
        = v_messages (enqueued a v) (msg_tenant a) (msg_messageId a)"
      by (intro fold_enqueued_other) auto
    also have "\<dots> = Some a" by (simp add: enqueued_def view_defs)
    finally show ?thesis using True by simp
  qed (use Cons in auto)
qed simp

lemma map2_fanout_endpoints:
  "length ids = length es \<Longrightarrow> map msg_endpointId (map2 (fanout_message event eid now) es ids) = map ep_endpointId es"
  by (induction es ids rule: list_induct2') (simp_all add: fanout_message_def)

lemma map2_fanout_tenant:
  "m \<in> set (map2 (fanout_message event eid now) es ids) \<Longrightarrow>
   msg_tenant m = ev_tenant event \<and> msg_status m = Pending \<and> msg_attemptNo m = 0 \<and> msg_payload m = ev_payload event
   \<and> msg_eventId m = eid \<and> msg_eventType m = ev_type event"
  by (induction es ids rule: list_induct2') (auto simp: fanout_message_def)

lemma accepted_as_receipt: "accepted_as E event v v' ms r \<Longrightarrow> rc_accepted r"
  by (auto simp: accepted_as_def accepted_for_def)

lemma accepted_for_fans_out:
  assumes "accepted_for E event es v v' ms r"
  shows "rc_messageCount r = length es \<and> map msg_endpointId ms = map ep_endpointId es
    \<and> (\<forall>m \<in> set ms. msg_tenant m = ev_tenant event \<and> msg_status m = Pending \<and> msg_payload m = ev_payload event
         \<and> msg_eventId m = rc_eventId r)
    \<and> v_queue v' = v_queue v @ ms
    \<and> (distinct (map msg_messageId ms) \<longrightarrow> (\<forall>m \<in> set ms. v_messages v' (msg_tenant m) (msg_messageId m) = Some m))
    \<and> v_events v' (ev_tenant event) (idem_key E event) = Some (rc_eventId r, rc_messageCount r)
    \<and> v_posts v' = v_posts v
    \<and> (\<forall>t i. t \<noteq> ev_tenant event \<longrightarrow> v_messages v' t i = v_messages v t i)"
proof -
  from assms obtain eid now ids where a: "length ids = length es" "ms = map2 (fanout_message event eid now) es ids"
    "r = \<lparr>rc_eventId = eid, rc_accepted = True, rc_messageCount = length es\<rparr>"
    "v' = put_event (ev_tenant event) (idem_key E event) (eid, length es)
            (fold enqueued ms (put_event (ev_tenant event) (idem_key E event) (eid, 0) v))"
    unfolding accepted_for_def by blast
  have ends: "map msg_endpointId ms = map ep_endpointId es" using map2_fanout_endpoints [OF a(1)] a(2) by simp
  have ten: "\<forall>m \<in> set ms. msg_tenant m = ev_tenant event \<and> msg_status m = Pending \<and> msg_payload m = ev_payload event
      \<and> msg_eventId m = eid"
    using map2_fanout_tenant a(2) by blast
  have "v_messages v' t i = v_messages v t i" if "t \<noteq> ev_tenant event" for t i
    using fold_enqueued_other [of ms t i] ten that a(4) by (auto simp: put_event_def)
  moreover have "v_messages v' (msg_tenant m) (msg_messageId m) = Some m" if "distinct (map msg_messageId ms)" "m \<in> set ms" for m
    using fold_enqueued_stored [OF that] a(4) by (simp add: put_event_def)
  ultimately show ?thesis
    using a(3,4) ends ten by (simp add: v_queue_fold_enqueued fold_enqueued_keeps put_event_def)
qed

lemma accepted_as_fans_out:
  assumes "accepted_as E event v v' ms r"
  shows "rc_messageCount r = card (recipients v event) \<and> length ms = card (recipients v event)
    \<and> msg_endpointId ` set ms = ep_endpointId ` recipients v event \<and> distinct (map msg_endpointId ms)
    \<and> (\<forall>m \<in> set ms. msg_tenant m = ev_tenant event \<and> msg_status m = Pending \<and> msg_payload m = ev_payload event
         \<and> msg_eventId m = rc_eventId r)
    \<and> v_queue v' = v_queue v @ ms
    \<and> (distinct (map msg_messageId ms) \<longrightarrow> (\<forall>m \<in> set ms. v_messages v' (msg_tenant m) (msg_messageId m) = Some m))
    \<and> v_events v' (ev_tenant event) (idem_key E event) = Some (rc_eventId r, rc_messageCount r)
    \<and> v_posts v' = v_posts v
    \<and> (\<forall>t i. t \<noteq> ev_tenant event \<longrightarrow> v_messages v' t i = v_messages v t i)"
proof -
  from assms obtain es where es: "distinct (map ep_endpointId es)" "set es = recipients v event" "accepted_for E event es v v' ms r"
    unfolding accepted_as_def by blast
  note out = accepted_for_fans_out [OF es(3)]
  have "length es = card (recipients v event)" using es(1,2) distinct_card [of es] by (simp add: distinct_map)
  moreover have "length ms = length es" "msg_endpointId ` set ms = ep_endpointId ` set es"
    using out by (metis length_map, metis list.set_map)
  ultimately show ?thesis using out es(1,2) by (intro conjI) (simp_all, metis+)
qed

section \<open>Identifiers and fan-out when draws may fail\<close>

lemma keeps_newId:
  assumes "keeps I rng"
  shows "keeps I (newId p rng n)"
proof -
  have "keeps I (newId_chars rng n)"
  proof (induction n)
    case (Suc n)
    show ?case unfolding newId_chars.simps by (intro keeps_intro assms Suc)
  qed (unfold newId_chars.simps, rule keeps_return)
  then show ?thesis unfolding newId_def by (intro keeps_intro)
qed

lemma keeps_fanout: "keeps I rng \<Longrightarrow> keeps I (fanout event eid es rng now)"
  unfolding fanout_def fanout_one_def by (intro keeps_map keeps_intro keeps_newId)

lemma fanout_tenant: "fst (fanout event eid es rng now w) = Inr ms \<Longrightarrow> \<forall>m \<in> set ms. msg_tenant m = ev_tenant event"
proof -
  have "fst (map_io (fanout_one event eid rng now) xs w) = Inr ms \<Longrightarrow> \<forall>m \<in> set ms. msg_tenant m = ev_tenant event" for xs
    by (induction xs arbitrary: w ms)
       (auto simp: bind_io_def fanout_one_def fanout_message_def split: sum.splits)
  then show "fst (fanout event eid es rng now w) = Inr ms \<Longrightarrow> \<forall>m \<in> set ms. msg_tenant m = ev_tenant event"
    by (simp add: fanout_def)
qed

context answering_ports
begin

lemma wp_newId_chars:
  "ok w \<Longrightarrow> wpf esc (newId_chars (eng_rng E) n)
     (\<lambda>r w'. \<exists>s. r = Inr s \<and> length s = n \<and> set s \<subseteq> set ALPHABET \<and> ok w' \<and> vw w' = vw w \<and> sched w' = sched w) w"
proof (induction n arbitrary: w)
  case (Suc n)
  show ?case
    unfolding newId_chars.simps
  proof (rule wp_bind, rule wp_rng [OF Suc.prems], rule after_Inr, rule wp_bind)
    fix r :: rat and w1 assume r: "0 \<le> r" "r < 1" and w1: "ok w1" "vw w1 = vw w" "sched w1 = sched w"
    obtain c where c: "c \<in> set ALPHABET" "alphabet_char r = [c]" using alphabet_char_draw [OF r] by blast
    show "wpf esc (newId_chars (eng_rng E) n) (afterf esc (\<lambda>rest. return_io (alphabet_char r @ rest))
        (\<lambda>r w'. \<exists>s. r = Inr s \<and> length s = Suc n \<and> set s \<subseteq> set ALPHABET \<and> ok w' \<and> vw w' = vw w \<and> sched w' = sched w)) w1"
      by (rule wp_mono [OF Suc.IH [OF w1(1)]]) (use c w1 in \<open>auto intro!: after_Inr wp_return\<close>)
  qed
qed (auto intro: wp_return)

lemma wp_newId:
  assumes "ok w"
    and "\<And>i w'. id_wf p n i \<Longrightarrow> ok w' \<Longrightarrow> vw w' = vw w \<Longrightarrow> sched w' = sched w \<Longrightarrow> Q (Inr i) w'"
  shows "wpf esc (newId p (eng_rng E) n) Q w"
  unfolding newId_def
  by (rule wp_bind, rule wp_mono [OF wp_newId_chars [OF assms(1)]])
     (auto intro!: after_Inr wp_return assms(2) simp: id_wf_def)

lemma wp_fanout:
  assumes "ok w"
    and Q: "\<And>ids w'. length ids = length (wanted event es) \<Longrightarrow> \<forall>i \<in> set ids. id_wf ''msg'' 20 i \<Longrightarrow>
      ok w' \<Longrightarrow> vw w' = vw w \<Longrightarrow> sched w' = sched w \<Longrightarrow> Q (Inr (map2 (fanout_message event eid now) (wanted event es) ids)) w'"
  shows "wpf esc (fanout event eid es (eng_rng E) now) Q w"
proof -
  have "wpf esc (map_io (fanout_one event eid (eng_rng E) now) xs)
      (\<lambda>r w'. \<exists>ids. r = Inr (map2 (fanout_message event eid now) xs ids) \<and> length ids = length xs \<and> (\<forall>i \<in> set ids. id_wf ''msg'' 20 i)
         \<and> ok w' \<and> vw w' = vw w \<and> sched w' = sched w) w" if "ok w" for xs w
    using that
  proof (induction xs arbitrary: w)
    case (Cons e xs)
    show ?case
      unfolding map_io.simps fanout_one_def
    proof (intro wp_bind wp_newId [OF Cons.prems] after_Inr wp_return)
      fix i w1 assume i: "id_wf ''msg'' 20 i" and w1: "ok w1" "vw w1 = vw w" "sched w1 = sched w"
      show "wpf esc (map_io (\<lambda>endpoint. bind_io (newId ''msg'' (eng_rng E) 20) (\<lambda>i. return_io (fanout_message event eid now endpoint i))) xs)
          (afterf esc (\<lambda>ys. return_io (fanout_message event eid now e i # ys))
            (\<lambda>r w'. \<exists>ids. r = Inr (map2 (fanout_message event eid now) (e # xs) ids) \<and> length ids = length (e # xs)
               \<and> (\<forall>i \<in> set ids. id_wf ''msg'' 20 i) \<and> ok w' \<and> vw w' = vw w \<and> sched w' = sched w)) w1"
        using Cons.IH [OF w1(1)] unfolding fanout_one_def
        by (rule wp_mono) (use i w1 in \<open>auto intro!: after_Inr wp_return exI [of _ "i # _"]\<close>)
    qed
  qed (auto intro: wp_return)
  from this [OF assms(1), of "wanted event es"] show ?thesis
    unfolding fanout_def by (rule wp_mono) (auto intro: Q)
qed

end

section \<open>The engine implements it\<close>

text \<open>
  What an acceptance relies on besides: the record of a key is made only if there is none, and the endpoints
  are those that \<open>es_shown\<close> allows the query to show of the view.
\<close>

locale sending_ports = answering_ports E vw sched ok esc
  for E :: "'w engine" and vw :: "'w \<Rightarrow> view" and sched :: "'w \<Rightarrow> (message \<times> millis) set"
    and ok :: "'w \<Rightarrow> bool" and esc :: "js_error \<Rightarrow> bool"
    and es_shown :: "view \<Rightarrow> string \<Rightarrow> string \<Rightarrow> endpoint list \<Rightarrow> bool" +
  assumes send_answers:
      "ok w \<Longrightarrow> answers esc ok vw sched (tr_send (eng_transport E) m) w (\<lambda>_ v. v = push_queue m (vw w))"
    and recordNew_answers:
      "ok w \<Longrightarrow> v_events (vw w) t k = None \<Longrightarrow> answers esc ok vw sched (ss_recordEvent (eng_state E) t eid k) w
         (\<lambda>x v. x = \<lparr>rr_isNew = True, rr_eventId = eid, rr_messageCount = 0\<rparr> \<and> v = put_event t k (eid, 0) (vw w))"
    and recordDup_answers:
      "ok w \<Longrightarrow> v_events (vw w) t k = Some (eid', n) \<Longrightarrow> answers esc ok vw sched (ss_recordEvent (eng_state E) t eid k) w
         (\<lambda>x v. x = \<lparr>rr_isNew = False, rr_eventId = eid', rr_messageCount = n\<rparr> \<and> v = vw w)"
    and finalize_answers:
      "ok w \<Longrightarrow> answers esc ok vw sched (ss_finalizeEvent (eng_state E) t k eid n) w (\<lambda>_ v. v = put_event t k (eid, n) (vw w))"
    and match_answers:
      "ok w \<Longrightarrow> answers esc ok vw sched (ss_matchEndpoints (eng_state E) t ty) w (\<lambda>es v. es_shown (vw w) t ty es \<and> v = vw w)"
begin

lemma wp_enqueue_all:
  assumes "ok w"
    and "\<And>w'. ok w' \<Longrightarrow> vw w' = fold enqueued ms (vw w) \<Longrightarrow> sched w' = sched w \<Longrightarrow> Q (Inr ()) w'"
  shows "wpf esc (for_io ms (send_enqueue E)) Q w"
  using assms
proof (induction ms arbitrary: w)
  case (Cons m ms)
  show ?case
    unfolding for_io.simps
    apply (rule wp_seq)
    apply (subst send_enqueue_def)
    apply (intro wp_seq wp_putMessage wp_answers [OF send_answers] after_Inr Cons.prems(1), assumption)
    subgoal for w1 x w2 using Cons.prems(2) by (intro Cons.IH [of w2]) (auto simp: enqueued_def)
    done
qed (auto intro: wp_return)

lemma wp_matchEndpoints:
  assumes "ok w" and "\<And>es w'. es_shown (vw w) t ty es \<Longrightarrow> ok w' \<Longrightarrow> vw w' = vw w \<Longrightarrow> sched w' = sched w \<Longrightarrow> Q (Inr es) w'"
  shows "wpf esc (ss_matchEndpoints (eng_state E) t ty) Q w"
  by (rule wp_answers [OF match_answers [OF assms(1)]]) (use assms(2) in simp)

lemma wp_finalize:
  assumes "ok w" and "\<And>w'. ok w' \<Longrightarrow> vw w' = put_event t k (eid, n) (vw w) \<Longrightarrow> sched w' = sched w \<Longrightarrow> Q (Inr ()) w'"
  shows "wpf esc (ss_finalizeEvent (eng_state E) t k eid n) Q w"
  by (rule wp_answers [OF finalize_answers [OF assms(1)]]) (use assms(2) in simp)

lemma send_accept_intro: "acceptable E event \<Longrightarrow> wpf esc (send_accept E event) Q w \<Longrightarrow> wpf esc (send E event) Q w"
  by (auto simp: send_def acceptable_def split: option.splits)

lemma wp_send_shown:
  assumes "ok w" and "acceptable E event" and "v_events (vw w) (ev_tenant event) (idem_key E event) = None"
    and Q: "\<And>es ms r eid w'. ok w' \<Longrightarrow>
      es_shown (put_event (ev_tenant event) (idem_key E event) (eid, 0) (vw w)) (ev_tenant event) (ev_type event) es \<Longrightarrow>
      accepted_for E event (wanted event es) (vw w) (vw w') ms r \<Longrightarrow> sched w' = sched w \<Longrightarrow> Q (Inr r) w'"
  shows "wpf esc (send E event) Q w"
proof (rule send_accept_intro [OF assms(2)])
  have fan: "wpf esc (send_fanout E event (idem_key E event) eid) Q w1"
    if w1: "ok w1" "vw w1 = put_event (ev_tenant event) (idem_key E event) (eid, 0) (vw w)" "sched w1 = sched w"
      and eid: "id_wf ''evt'' 20 eid" for w1 eid
    unfolding send_fanout_def
    apply (intro wp_bind wp_seq wp_matchEndpoints wp_clock wp_fanout wp_enqueue_all wp_finalize wp_return after_Inr w1(1))
        apply assumption+
    subgoal premises p for es w2 now w3 ids w4 w5 w6
    proof (rule Q)
      let ?ms = "map2 (fanout_message event eid now) (wanted event es) ids"
      show "accepted_for E event (wanted event es) (vw w) (vw w6) ?ms
          \<lparr>rc_eventId = eid, rc_accepted = True, rc_messageCount = length ?ms\<rparr>"
        unfolding accepted_for_def using p w1 eid by (intro exI [of _ eid] exI [of _ now] exI [of _ ids]) simp
    qed (use p w1 in simp_all)
    done
  show "wpf esc (send_accept E event) Q w"
    unfolding send_accept_def idem_key_def [symmetric] Let_def
    apply (rule wp_bind, rule wp_newId [OF assms(1)], rule after_Inr, rule wp_bind)
    apply (rule wp_answers [OF recordNew_answers])
      apply (assumption | simp add: assms(3))+
    by (intro after_Inr wp_if) (auto intro: fan)
qed

lemma wp_send_dup:
  assumes "ok w" and "acceptable E event" and "v_events (vw w) (ev_tenant event) (idem_key E event) = Some (eid, n)"
    and Q: "\<And>w'. ok w' \<Longrightarrow> vw w' = vw w \<Longrightarrow> sched w' = sched w \<Longrightarrow>
      Q (Inr \<lparr>rc_eventId = eid, rc_accepted = True, rc_messageCount = n\<rparr>) w'"
  shows "wpf esc (send E event) Q w"
  apply (rule send_accept_intro [OF assms(2)])
  unfolding send_accept_def idem_key_def [symmetric] Let_def
  apply (rule wp_bind, rule wp_newId [OF assms(1)], rule after_Inr, rule wp_bind)
  apply (rule wp_answers [OF recordDup_answers])
    apply (assumption | simp add: assms(3))+
  by (intro after_Inr) (auto intro!: wp_return Q)

end

context sending_ports
begin

abbreviation "inside_send event v0 S0 w \<equiv> ok w \<and> only_accepts (ev_tenant event) (idem_key E event) v0 (vw w) \<and> sched w = S0"

lemma keeps_accepts:
  assumes "\<And>w. ok w \<Longrightarrow> answers esc ok vw sched f w (R w)"
    and "\<And>w x v. ok w \<Longrightarrow> R w x v \<Longrightarrow> only_accepts (ev_tenant event) (idem_key E event) (vw w) v"
  shows "keeps (inside_send event v0 S0) f"
  by (rule keeps_frame [where F = "only_accepts (ev_tenant event) (idem_key E event)" and g = "\<lambda>S. S", OF assms])
     (auto intro: only_accepts_trans)

lemma keeps_recordEvent: "keeps (inside_send event v0 S0) (ss_recordEvent (eng_state E) (ev_tenant event) eid (idem_key E event))"
proof (rule keeps_accepts)
  let ?t = "ev_tenant event" and ?k = "idem_key E event"
  fix w assume w: "ok w"
  show "answers esc ok vw sched (ss_recordEvent (eng_state E) ?t eid ?k) w (\<lambda>_ v. v = vw w \<or> v = put_event ?t ?k (eid, 0) (vw w))"
  proof (cases "v_events (vw w) ?t ?k")
    case None
    from recordNew_answers [OF w this, of eid] show ?thesis by (auto simp: answers_def split: sum.splits)
  next
    case (Some x)
    then have "v_events (vw w) ?t ?k = Some (fst x, snd x)" by simp
    from recordDup_answers [OF w this, of eid] show ?thesis by (auto simp: answers_def split: sum.splits)
  qed
qed auto

lemma keeps_send_calls:
  "keeps (inside_send event v0 S0) (eng_clock E)" "keeps (inside_send event v0 S0) (eng_rng E)"
  "keeps (inside_send event v0 S0) (ss_matchEndpoints (eng_state E) t ty)"
  "keeps (inside_send event v0 S0) (ss_finalizeEvent (eng_state E) (ev_tenant event) (idem_key E event) eid n)"
  "msg_tenant m = ev_tenant event \<Longrightarrow> keeps (inside_send event v0 S0) (ss_putMessage (eng_state E) m)"
  "msg_tenant m = ev_tenant event \<Longrightarrow> keeps (inside_send event v0 S0) (tr_send (eng_transport E) m)"
  by (rule keeps_accepts [OF clock_answers] keeps_accepts [OF rng_answers] keeps_accepts [OF match_answers]
        keeps_accepts [OF finalize_answers] keeps_accepts [OF putMessage_answers] keeps_accepts [OF send_answers]; simp)+

text \<open>However an acceptance ends, nothing but its own key, messages of its tenant and the queue are touched.\<close>

lemma keeps_send: "keeps (inside_send event v0 S0) (send E event)"
proof -
  have "keeps (inside_send event v0 S0) (send_fanout E event (idem_key E event) eid)" for eid
    unfolding send_fanout_def send_enqueue_def
    by (intro keeps_bind_result [where P = "\<lambda>ms. \<forall>m \<in> set ms. msg_tenant m = ev_tenant event", OF keeps_fanout fanout_tenant]
          keeps_intro keeps_for keeps_send_calls) auto
  then have "keeps (inside_send event v0 S0) (send_accept E event)"
    unfolding send_accept_def idem_key_def [symmetric] Let_def
    by (intro keeps_intro keeps_newId keeps_send_calls keeps_recordEvent)
  then show ?thesis
    unfolding send_def by (auto simp: keeps_def split: option.splits)
qed

lemma send_inside:
  assumes "ok w" and "send E event w = (r, w')"
  shows "ok w' \<and> only_accepts (ev_tenant event) (idem_key E event) (vw w) (vw w') \<and> sched w' = sched w"
proof -
  have "inside_send event (vw w) (sched w) w" using assms(1) by simp
  with keeps_send [of event "vw w" "sched w"] assms(2) show ?thesis unfolding keeps_def by (metis snd_conv)
qed

text \<open>What an acceptance that returns has done.\<close>

lemma send_returns:
  assumes "ok w" and "send E event w = (Inr r, w')"
  shows "case v_events (vw w) (ev_tenant event) (idem_key E event) of
      None \<Rightarrow> (\<exists>es ms eid. es_shown (put_event (ev_tenant event) (idem_key E event) (eid, 0) (vw w)) (ev_tenant event) (ev_type event) es
         \<and> accepted_for E event (wanted event es) (vw w) (vw w') ms r)
    | Some (eid, n) \<Rightarrow> r = \<lparr>rc_eventId = eid, rc_accepted = True, rc_messageCount = n\<rparr> \<and> vw w' = vw w"
proof -
  have acc: "acceptable E event"
    using assms(2) by (auto simp: send_def acceptable_def split: option.splits if_splits)
  show ?thesis
  proof (cases "v_events (vw w) (ev_tenant event) (idem_key E event)")
    case None
    have "wpf esc (send E event) (\<lambda>x w'. \<exists>r es ms eid. x = Inr r
        \<and> es_shown (put_event (ev_tenant event) (idem_key E event) (eid, 0) (vw w)) (ev_tenant event) (ev_type event) es
        \<and> accepted_for E event (wanted event es) (vw w) (vw w') ms r) w"
      by (rule wp_send_shown [OF assms(1) acc None]) blast
    from wpfD [OF this assms(2)] None show ?thesis by auto
  next
    case (Some x)
    then have dup: "v_events (vw w) (ev_tenant event) (idem_key E event) = Some (fst x, snd x)" by simp
    have "wpf esc (send E event) (\<lambda>y w'. y = Inr \<lparr>rc_eventId = fst x, rc_accepted = True, rc_messageCount = snd x\<rparr> \<and> vw w' = vw w) w"
      by (rule wp_send_dup [OF assms(1) acc dup]) blast
    from wpfD [OF this assms(2)] dup show ?thesis by (simp add: split_beta)
  qed
qed

end

sublocale engine_ports \<subseteq> sending_ports E vw sched ok no_escape
  "\<lambda>v t ty es. distinct (map ep_endpointId es) \<and> set es = {e \<in> ran (v_endpoints v t). subscribes e ty}"
proof
  fix w t ty assume "ok w"
  from matchEndpoints_call [OF this, of t ty]
  show "answers no_escape ok vw sched (ss_matchEndpoints (eng_state E) t ty) w
      (\<lambda>es v. (distinct (map ep_endpointId es) \<and> set es = {e \<in> ran (v_endpoints (vw w) t). subscribes e ty}) \<and> v = vw w)"
    by (blast intro: calls_answers)
qed (auto intro: calls_answers [OF send_call] calls_answers [OF recordEvent_new] calls_answers [OF recordEvent_dup]
       calls_answers [OF finalizeEvent_call])

context engine_ports
begin

lemma wp_send_new:
  assumes "ok w" and "acceptable E event" and "v_events (vw w) (ev_tenant event) (idem_key E event) = None"
    and Q: "\<And>ms r w'. ok w' \<Longrightarrow> accepted_as E event (vw w) (vw w') ms r \<Longrightarrow> sched w' = sched w \<Longrightarrow> Q (Inr r) w'"
  shows "wp (send E event) Q w"
proof (rule wp_send_shown [OF assms(1-3)])
  fix es ms r eid w'
  assume "distinct (map ep_endpointId es) \<and> set es =
      {e \<in> ran (v_endpoints (put_event (ev_tenant event) (idem_key E event) (eid, 0) (vw w)) (ev_tenant event)). subscribes e (ev_type event)}"
    and acc: "accepted_for E event (wanted event es) (vw w) (vw w') ms r" and "ok w'" "sched w' = sched w"
  then have "distinct (map ep_endpointId (wanted event es))" "set (wanted event es) = recipients (vw w) event"
    by (auto simp: distinct_map_filter recipients_def put_event_def)
  with acc \<open>ok w'\<close> \<open>sched w' = sched w\<close> show "Q (Inr r) w'" by (intro Q) (auto simp: accepted_as_def)
qed

lemmas wp_send_duplicate = wp_send_dup

end

lemma send_refused:
  "\<not> acceptable E event \<Longrightarrow> \<exists>err. send E event w = (Inl err, w)"
  by (auto simp: send_def acceptable_def split: option.splits)

end
