(* ===== verification/Signing.thy ===== *)
theory Signing
  imports Core_Ports "HOL-Library.Word"
begin

text \<open>
  \<open>packages/signing/src\<close>: secrets, Standard Webhooks signatures, and their verification. Bytes are
  8-bit words. HMAC-SHA256 and \<open>JSON.parse\<close> are parameters; Node's base64 codec is modelled, since
  secrets and signatures are compared through it. What is shown: every secret that signed a
  delivery verifies it inside the time tolerance (so rotation loses no delivery), and a delivery is
  accepted only with a signature equal to the HMAC of its identifier, time and body.
\<close>

type_synonym byte = "8 word"
type_synonym hmac_sha256 = "byte list \<Rightarrow> string \<Rightarrow> byte list"

section \<open>Base64 (Buffer)\<close>

definition base64_alphabet :: string where
  "base64_alphabet = ''ABCDEFGHIJKLMNOPQRSTUVWXYZabcdefghijklmnopqrstuvwxyz0123456789+/''"

definition sextet_char :: "nat \<Rightarrow> char" where
  "sextet_char n = base64_alphabet ! n"

fun sextets :: "nat list \<Rightarrow> nat list" where
  "sextets [] = []"
| "sextets [a] = [a div 4, a mod 4 * 16]"
| "sextets [a, b] = [a div 4, a mod 4 * 16 + b div 16, b mod 16 * 4]"
| "sextets (a # b # c # r) = [a div 4, a mod 4 * 16 + b div 16, b mod 16 * 4 + c div 64, c mod 64] @ sextets r"

definition base64_padding :: "nat \<Rightarrow> string" where
  "base64_padding n = (if n mod 3 = 1 then ''=='' else if n mod 3 = 2 then ''='' else [])"

text \<open>\<open>Buffer.from(bytes).toString('base64')\<close>\<close>

definition base64_encode :: "byte list \<Rightarrow> string" where
  "base64_encode bs = map sextet_char (sextets (map unat bs)) @ base64_padding (length bs)"

text \<open>The decoder takes both alphabets, skips any other character, and stops at the first \<open>=\<close>.\<close>

definition sextet_val :: "char \<Rightarrow> nat option" where
  "sextet_val c =
     (let n = (of_char c :: nat)
      in if 65 \<le> n \<and> n \<le> 90 then Some (n - 65)
         else if 97 \<le> n \<and> n \<le> 122 then Some (n - 71)
         else if 48 \<le> n \<and> n \<le> 57 then Some (n + 4)
         else if n = 43 \<or> n = 45 then Some 62
         else if n = 47 \<or> n = 95 then Some 63
         else None)"

fun bytes_of_sextets :: "nat list \<Rightarrow> byte list" where
  "bytes_of_sextets (p # q # r # s # rest) =
     word_of_nat (p * 4 + q div 16) # word_of_nat (q mod 16 * 16 + r div 4) # word_of_nat (r mod 4 * 64 + s)
       # bytes_of_sextets rest"
| "bytes_of_sextets [p, q, r] = [word_of_nat (p * 4 + q div 16), word_of_nat (q mod 16 * 16 + r div 4)]"
| "bytes_of_sextets [p, q] = [word_of_nat (p * 4 + q div 16)]"
| "bytes_of_sextets _ = []"

text \<open>\<open>Buffer.from(text, 'base64')\<close>\<close>

definition base64_decode :: "string \<Rightarrow> byte list" where
  "base64_decode s = bytes_of_sextets (List.map_filter sextet_val (takeWhile (\<lambda>c. c \<noteq> CHR ''='') s))"

section \<open>Secrets (secret.ts)\<close>

definition SECRET_PREFIX :: string where
  "SECRET_PREFIX = ''whsec_''"

text \<open>\<open>generateSecret\<close>, with the bytes \<open>crypto.getRandomValues\<close> filled in.\<close>

definition generateSecret :: "byte list \<Rightarrow> string" where
  "generateSecret random = SECRET_PREFIX @ base64_encode random"

definition parseSecret :: "string \<Rightarrow> byte list" where
  "parseSecret secret =
     base64_decode (if starts_with secret SECRET_PREFIX then drop (length SECRET_PREFIX) secret else secret)"

section \<open>Signatures (sign.ts)\<close>

text \<open>\<open>new Date(ms).getTime()\<close> drops the fraction; the model is for times a \<open>Date\<close> can hold.\<close>

definition date_time :: "millis \<Rightarrow> int" where
  "date_time ms = (if ms < 0 then \<lceil>ms\<rceil> else \<lfloor>ms\<rfloor>)"

definition timestamp_seconds :: "millis \<Rightarrow> int" where
  "timestamp_seconds timestampMs = date_time timestampMs div 1000"

definition signed_content :: "string \<Rightarrow> string \<Rightarrow> string \<Rightarrow> string" where
  "signed_content i seconds payload = i @ ''.'' @ seconds @ ''.'' @ payload"

definition sign :: "hmac_sha256 \<Rightarrow> string \<Rightarrow> string \<Rightarrow> millis \<Rightarrow> string \<Rightarrow> string" where
  "sign hmac secret i timestamp payload =
     ''v1,'' @ base64_encode (hmac (parseSecret secret)
       (signed_content i (int_str (timestamp_seconds timestamp)) payload))"

text \<open>\<open>new Signer(secrets).headers(id, payload, timestamp)\<close>, which is what \<open>createSigner().sign\<close> returns.\<close>

definition Signer_headers :: "hmac_sha256 \<Rightarrow> string list \<Rightarrow> string \<Rightarrow> string \<Rightarrow> millis \<Rightarrow> (string \<times> string) list" where
  "Signer_headers hmac secrets i payload timestamp =
     [(''webhook-id'', i),
      (''webhook-timestamp'', int_str (timestamp_seconds timestamp)),
      (''webhook-signature'', join_with '' '' (map (\<lambda>secret. sign hmac secret i timestamp payload) secrets))]"

definition createSigner :: "hmac_sha256 \<Rightarrow> webhook_signer" where
  "createSigner hmac = (\<lambda>secrets i payload timestampMs. Signer_headers hmac secrets i payload timestampMs)"

section \<open>Verification (verify.ts)\<close>

definition TOLERANCE_SECONDS :: rat where
  "TOLERANCE_SECONDS = 300"

definition lowercaseHeaders :: "(string \<times> string) list \<Rightarrow> (string \<times> string) list" where
  "lowercaseHeaders headers = foldl (\<lambda>result (k, v). AList.update (to_lower k) v result) [] headers"

definition extractSignatureDigest :: "string \<Rightarrow> string option" where
  "extractSignatureDigest entry =
     (case split_on CHR '','' entry of
        scheme # digest # _ \<Rightarrow> if scheme \<noteq> ''v1'' \<or> digest = [] then None else Some digest
      | _ \<Rightarrow> None)"

definition timingSafeEqualBase64 :: "string \<Rightarrow> string \<Rightarrow> bool" where
  "timingSafeEqualBase64 a b \<longleftrightarrow>
     (let bufferA = base64_decode a; bufferB = base64_decode b
      in length bufferA = length bufferB \<and> bufferA = bufferB)"

definition header_of :: "(string \<times> string) list \<Rightarrow> string \<Rightarrow> string" where
  "header_of hs k = (case map_of hs k of Some v \<Rightarrow> v | None \<Rightarrow> [])"

definition verify ::
  "hmac_sha256 \<Rightarrow> (string \<Rightarrow> json option) \<Rightarrow> (rat \<Rightarrow> string) \<Rightarrow> millis \<Rightarrow>
   (string \<times> string) list \<Rightarrow> string \<Rightarrow> string \<Rightarrow> js_error + json" where
  "verify hmac json_parse frac_str now headers rawBody secret =
     (let lower = lowercaseHeaders headers;
          i = header_of lower ''webhook-id'';
          timestamp = header_of lower ''webhook-timestamp'';
          signature = header_of lower ''webhook-signature''
      in if i = [] \<or> timestamp = [] \<or> signature = []
         then Inl (WebhookVerificationError ''Missing required webhook headers'')
         else case js_Number timestamp of
             Fin timestampSeconds \<Rightarrow>
               if \<bar>rat_of_int \<lfloor>now / 1000\<rfloor> - timestampSeconds\<bar> > TOLERANCE_SECONDS
               then Inl (WebhookVerificationError ''Webhook timestamp is outside of tolerance'')
               else let expectedDigest = base64_encode (hmac (parseSecret secret)
                          (signed_content i (number_text frac_str timestampSeconds) rawBody))
                    in if list_ex (\<lambda>entry. case extractSignatureDigest entry of None \<Rightarrow> False
                                     | Some digest \<Rightarrow> timingSafeEqualBase64 digest expectedDigest)
                                  (split_on CHR '' '' signature)
                       then (case json_parse rawBody of Some j \<Rightarrow> Inr j | None \<Rightarrow> Inl (SyntaxError ''JSON.parse''))
                       else Inl (WebhookVerificationError ''No matching signature found'')
           | _ \<Rightarrow> Inl (WebhookVerificationError ''Invalid webhook timestamp''))"

section \<open>The codec is faithful\<close>

lemma sextet_val_char: "n < 64 \<Longrightarrow> sextet_val (sextet_char n) = Some n \<and> sextet_char n \<noteq> CHR ''=''"
proof -
  have "list_all (\<lambda>n. sextet_val (sextet_char n) = Some n \<and> sextet_char n \<noteq> CHR ''='') [0..<64]"
    by (simp add: upt_rec sextet_val_def sextet_char_def base64_alphabet_def)
  moreover assume "n < 64"
  ultimately show ?thesis by (simp add: list_all_iff)
qed

lemma sextets_less: "\<forall>b \<in> set bs. b < 256 \<Longrightarrow> n \<in> set (sextets bs) \<Longrightarrow> n < 64"
  by (induction bs rule: sextets.induct) auto

lemma map_filter_sextets:
  "\<forall>n \<in> set ns. n < 64 \<Longrightarrow> List.map_filter sextet_val (map sextet_char ns) = ns"
  by (induction ns) (simp_all add: List.map_filter_simps sextet_val_char)

lemma bytes_of_sextets_inverse:
  "\<forall>b \<in> set bs. b < 256 \<Longrightarrow> bytes_of_sextets (sextets bs) = map word_of_nat bs"
proof (induction bs rule: sextets.induct)
  case (4 a b c r)
  then have "b div 16 < 16" "c div 64 < 4" by auto
  then have "a div 4 * 4 + (a mod 4 * 16 + b div 16) div 16 = a"
    "(a mod 4 * 16 + b div 16) mod 16 * 16 + (b mod 16 * 4 + c div 64) div 4 = b"
    "(b mod 16 * 4 + c div 64) mod 4 * 64 + c mod 64 = c"
    by simp_all
  with 4 show ?case by simp
next
  case (3 a b)
  then have "b div 16 < 16" by auto
  then have "a div 4 * 4 + (a mod 4 * 16 + b div 16) div 16 = a" "(a mod 4 * 16 + b div 16) mod 16 * 16 + b mod 16 * 4 div 4 = b"
    by simp_all
  then show ?case by simp
qed auto

lemma takeWhile_sextets:
  "\<forall>n \<in> set ns. n < 64 \<Longrightarrow>
   takeWhile (\<lambda>c. c \<noteq> CHR ''='') (map sextet_char ns @ base64_padding k) = map sextet_char ns"
proof -
  assume "\<forall>n \<in> set ns. n < 64"
  then have "\<forall>c \<in> set (map sextet_char ns). c \<noteq> CHR ''=''" using sextet_val_char by auto
  then have "takeWhile (\<lambda>c. c \<noteq> CHR ''='') (map sextet_char ns @ base64_padding k)
      = map sextet_char ns @ takeWhile (\<lambda>c. c \<noteq> CHR ''='') (base64_padding k)"
    by (intro takeWhile_append2) auto
  then show ?thesis by (simp add: base64_padding_def)
qed

lemma unat_byte: "unat (b :: byte) < 256"
  using unsigned_less [of b, where 'a = nat] by simp

lemma sextets_unat_less: "n \<in> set (sextets (map unat (bs :: byte list))) \<Longrightarrow> n < 64"
  by (rule sextets_less [rotated]) (auto simp: unat_byte)

lemma base64_roundtrip: "base64_decode (base64_encode bs) = bs"
  using bytes_of_sextets_inverse [of "map unat bs"] sextets_unat_less [of _ bs]
  by (auto simp: base64_decode_def base64_encode_def takeWhile_sextets map_filter_sextets comp_def unat_byte)

text \<open>A generated secret parses to its bytes; so does the bare base64 text, unless it happens to start
  with the prefix.\<close>

lemma parseSecret_generateSecret: "parseSecret (generateSecret bytes) = bytes"
  by (simp add: parseSecret_def generateSecret_def base64_roundtrip)

lemma base64_encode_chars:
  assumes "c \<in> set (base64_encode bs)"
  shows "c \<in> set base64_alphabet \<or> c = CHR ''=''"
proof -
  have "length base64_alphabet = 64" by (simp add: base64_alphabet_def)
  then have "set (map sextet_char (sextets (map unat bs))) \<subseteq> set base64_alphabet"
    using sextets_unat_less [of _ bs] by (auto simp: sextet_char_def intro!: nth_mem)
  with assms show ?thesis by (auto simp: base64_encode_def base64_padding_def split: if_splits)
qed

lemma base64_encode_plain: "CHR '' '' \<notin> set (base64_encode bs)" "CHR '','' \<notin> set (base64_encode bs)"
proof -
  have "CHR '' '' \<notin> set base64_alphabet" "CHR '','' \<notin> set base64_alphabet"
    by (simp_all add: base64_alphabet_def)
  then show "CHR '' '' \<notin> set (base64_encode bs)" "CHR '','' \<notin> set (base64_encode bs)"
    using base64_encode_chars by fastforce+
qed

lemma base64_encode_Nil: "base64_encode bs = [] \<longleftrightarrow> bs = []"
  by (metis base64_roundtrip base64_encode_def base64_padding_def append_Nil list.map(1) list.size(3) mod_0 sextets.simps(1) zero_neq_numeral zero_neq_one)

section \<open>Numbers in headers\<close>

lemma trim_no_space: "\<forall>c \<in> set s. \<not> is_space c \<Longrightarrow> trim s = s"
proof -
  have id: "\<forall>c \<in> set s. \<not> is_space c \<Longrightarrow> dropWhile is_space s = s" for s :: string
    by (cases s) auto
  show "\<forall>c \<in> set s. \<not> is_space c \<Longrightarrow> trim s = s"
    using id [of s] id [of "rev s"] by (simp add: trim_def)
qed

lemma parse_unsigned_nat_str: "parse_unsigned_decimal (nat_str n) = Some (rat_of_nat n)"
proof -
  have all: "\<forall>c \<in> set (nat_str n). is_digit_in 10 c" using nat_str_digits by blast
  have tw: "takeWhile (is_digit_in 10) (nat_str n) = nat_str n" "dropWhile (is_digit_in 10) (nat_str n) = []"
    using all by simp_all
  have "of_digits 10 (nat_str n) = n"
    unfolding nat_str_def by (rule of_digits_to_radix) simp_all
  then show ?thesis
    unfolding parse_unsigned_decimal_def tw Let_def
    by (simp add: parse_exponent_def pow10_def of_digits_def [of _ "[]"])
qed

definition decimal_char :: "char \<Rightarrow> bool" where
  "decimal_char c \<longleftrightarrow> is_digit_in 10 c \<or> c = CHR ''-''"

lemma int_str_chars: "c \<in> set (int_str i) \<Longrightarrow> decimal_char c"
  using nat_str_digits by (auto simp: int_str_def decimal_char_def split: if_splits)

lemma lower_decimal: "decimal_char c \<Longrightarrow> lower_char c = c"
  by (auto simp: decimal_char_def is_digit_in_def digit_val_def lower_char_def Let_def split: if_splits option.splits)

lemma decimal_not_radix:
  assumes "\<forall>c \<in> set s. decimal_char c"
  shows "to_lower (take 2 s) \<notin> {''0x'', ''0o'', ''0b''}"
proof -
  have "to_lower (take 2 s) = take 2 s"
    using assms by (auto simp: to_lower_def intro!: map_idI lower_decimal dest: in_set_takeD)
  moreover have "\<not> decimal_char CHR ''x''" "\<not> decimal_char CHR ''o''" "\<not> decimal_char CHR ''b''"
    by (simp_all add: decimal_char_def is_digit_in_def digit_val_def)
  moreover have "\<forall>c \<in> set (take 2 s). decimal_char c" using assms by (auto dest: in_set_takeD)
  ultimately show ?thesis by auto
qed

lemma decimal_not_space: "decimal_char c \<Longrightarrow> \<not> is_space c"
  unfolding decimal_char_def using is_space_not_digit by (auto simp: is_space_def [of "CHR ''-''"])

lemma nat_str_head: obtains c r where "nat_str n = c # r" and "is_digit_in 10 c"
  using nat_str_digits [of _ n] by (cases "nat_str n") auto

lemma js_Number_int_str:
  assumes "\<bar>i\<bar> < 2 ^ 970"
  shows "js_Number (int_str i) = Fin (rat_of_int i)"
proof -
  obtain c r where c: "nat_str (nat \<bar>i\<bar>) = c # r" "is_digit_in 10 c" by (rule nat_str_head)
  have "trim (int_str i) = int_str i"
    by (intro trim_no_space ballI decimal_not_space int_str_chars)
  moreover have "to_lower (take 2 (int_str i)) \<notin> {''0x'', ''0o'', ''0b''}"
    by (intro decimal_not_radix ballI int_str_chars)
  moreover have "c \<noteq> CHR ''-''" "c \<noteq> CHR ''+''" "c \<noteq> CHR ''I''"
    using c(2) by (auto simp: is_digit_in_def digit_val_def)
  moreover have "clamp_double (rat_of_int i) = Fin (rat_of_int i)"
  proof -
    have "rat_of_int \<bar>i\<bar> < rat_of_int (2 ^ 970)" using assms by (simp only: of_int_less_iff)
    then have "\<bar>rat_of_int i\<bar> < 2 ^ 970" by simp
    moreover have "(2::rat) ^ 970 \<le> 2 ^ 1024 - 2 ^ 970" by simp
    ultimately have "rat_of_int i < 2 ^ 1024 - 2 ^ 970" "- (2 ^ 1024 - 2 ^ 970) < rat_of_int i" by linarith+
    then show ?thesis by (simp only: clamp_double_def) simp
  qed
  ultimately show ?thesis
    using parse_unsigned_nat_str [of "nat \<bar>i\<bar>"] c(1)
    by (auto simp: js_Number_def Let_def int_str_def)
qed

section \<open>A signed delivery verifies\<close>

lemma lowercase_signer_headers [simp]:
  "lowercaseHeaders (Signer_headers hmac secrets i payload ts) = Signer_headers hmac secrets i payload ts"
  by (simp add: lowercaseHeaders_def Signer_headers_def to_lower_def lower_char_def)

lemma header_of_signer [simp]:
  "header_of (Signer_headers hmac secrets i payload ts) ''webhook-id'' = i"
  "header_of (Signer_headers hmac secrets i payload ts) ''webhook-timestamp'' = int_str (timestamp_seconds ts)"
  "header_of (Signer_headers hmac secrets i payload ts) ''webhook-signature''
     = join_with '' '' (map (\<lambda>secret. sign hmac secret i ts payload) secrets)"
  by (simp_all add: header_of_def Signer_headers_def)

lemma split_sign: "split_on CHR '','' (sign hmac secret i ts payload)
    = [''v1'', base64_encode (hmac (parseSecret secret) (signed_content i (int_str (timestamp_seconds ts)) payload))]"
  using split_on_append_sep [of "CHR '',''" "''v1''"] base64_encode_plain(2)
  by (simp add: sign_def split_on_no_sep)

lemma join_with_Nil: "join_with sep xs = [] \<Longrightarrow> x \<in> set xs \<Longrightarrow> x = []"
  by (induction xs rule: induct_list012) auto

lemma date_range:
  assumes "\<bar>timestamp_seconds ts\<bar> \<le> 8640000000000"
  shows "\<bar>timestamp_seconds ts\<bar> < 2 ^ 970"
proof -
  have "(8640000000000::int) < 2 ^ 970" by simp
  with assms show ?thesis by (rule le_less_trans)
qed

lemma verify_signed:
  assumes "secret \<in> set secrets" and "i \<noteq> []" and "\<And>key content. hmac key content \<noteq> []"
    and "\<bar>timestamp_seconds ts\<bar> \<le> 8640000000000"
    and "\<bar>\<lfloor>now / 1000\<rfloor> - timestamp_seconds ts\<bar> \<le> 300"
  shows "verify hmac json_parse frac_str now (createSigner hmac secrets i payload ts) payload secret
         = (case json_parse payload of Some j \<Rightarrow> Inr j | None \<Rightarrow> Inl (SyntaxError ''JSON.parse''))"
proof -
  let ?sig = "\<lambda>secret. sign hmac secret i ts payload"
  have "CHR '' '' \<notin> set (?sig s)" for s
    using base64_encode_plain(1) by (simp add: sign_def)
  then have split: "split_on CHR '' '' (join_with '' '' (map ?sig secrets)) = map ?sig secrets"
    using assms(1) by (intro split_join) auto
  have "?sig secret \<noteq> []" by (simp add: sign_def)
  then have nonempty: "join_with '' '' (map ?sig secrets) \<noteq> []"
    using assms(1) join_with_Nil by fastforce
  have "rat_of_int \<bar>\<lfloor>now / 1000\<rfloor> - timestamp_seconds ts\<bar> \<le> rat_of_int 300"
    using assms(5) by (simp only: of_int_le_iff)
  then have "\<not> TOLERANCE_SECONDS < \<bar>rat_of_int \<lfloor>now / 1000\<rfloor> - rat_of_int (timestamp_seconds ts)\<bar>"
    by (simp add: TOLERANCE_SECONDS_def)
  moreover have "extractSignatureDigest (?sig secret)
      = Some (base64_encode (hmac (parseSecret secret) (signed_content i (int_str (timestamp_seconds ts)) payload)))"
    using assms(3) by (simp add: extractSignatureDigest_def split_sign base64_encode_Nil)
  ultimately show ?thesis
    using assms(1,2) nonempty js_Number_int_str [OF date_range [OF assms(4)]]
    by (auto simp: verify_def createSigner_def split Let_def list_ex_iff timingSafeEqualBase64_def split: option.splits)
qed

text \<open>Only the three webhook headers matter.\<close>

lemma verify_headers_cong:
  assumes "header_of (lowercaseHeaders hs) ''webhook-id'' = header_of (lowercaseHeaders hs') ''webhook-id''"
    and "header_of (lowercaseHeaders hs) ''webhook-timestamp'' = header_of (lowercaseHeaders hs') ''webhook-timestamp''"
    and "header_of (lowercaseHeaders hs) ''webhook-signature'' = header_of (lowercaseHeaders hs') ''webhook-signature''"
  shows "verify hmac json_parse frac_str now hs body secret = verify hmac json_parse frac_str now hs' body secret"
  unfolding verify_def Let_def assms ..

section \<open>Nothing else does\<close>

lemma verify_accepts:
  assumes "verify hmac json_parse frac_str now headers rawBody secret = Inr j"
  shows "json_parse rawBody = Some j \<and>
    (\<exists>i seconds digest.
       map_of (lowercaseHeaders headers) ''webhook-id'' = Some i \<and> i \<noteq> []
       \<and> js_Number (header_of (lowercaseHeaders headers) ''webhook-timestamp'') = Fin seconds
       \<and> \<bar>rat_of_int \<lfloor>now / 1000\<rfloor> - seconds\<bar> \<le> 300
       \<and> digest \<in> set (List.map_filter extractSignatureDigest
            (split_on CHR '' '' (header_of (lowercaseHeaders headers) ''webhook-signature'')))
       \<and> base64_decode digest = hmac (parseSecret secret) (signed_content i (number_text frac_str seconds) rawBody))"
proof -
  let ?i = "header_of (lowercaseHeaders headers) ''webhook-id''"
  let ?t = "header_of (lowercaseHeaders headers) ''webhook-timestamp''"
  let ?s = "header_of (lowercaseHeaders headers) ''webhook-signature''"
  from assms obtain seconds where sec: "?i \<noteq> []" "js_Number ?t = Fin seconds"
    "\<not> \<bar>rat_of_int \<lfloor>now / 1000\<rfloor> - seconds\<bar> > TOLERANCE_SECONDS"
    by (auto simp: verify_def Let_def split: if_splits jsnum.splits)
  with assms obtain entry digest where
    d: "entry \<in> set (split_on CHR '' '' ?s)" "extractSignatureDigest entry = Some digest"
      "timingSafeEqualBase64 digest (base64_encode (hmac (parseSecret secret)
         (signed_content ?i (number_text frac_str seconds) rawBody)))" and j: "json_parse rawBody = Some j"
    by (auto simp: verify_def Let_def list_ex_iff split: if_splits option.splits)
  have "map_of (lowercaseHeaders headers) ''webhook-id'' = Some ?i"
    using sec(1) by (auto simp: header_of_def split: option.splits)
  moreover have "digest \<in> set (List.map_filter extractSignatureDigest (split_on CHR '' '' ?s))"
    using d(1,2) by (force simp: List.map_filter_def)
  ultimately show ?thesis
    using sec d(3) j by (auto simp: TOLERANCE_SECONDS_def timingSafeEqualBase64_def base64_roundtrip Let_def)
qed

section \<open>Properties\<close>

text \<open>A stand-in digest for examples: the key and the content, shortened to 32 bytes.\<close>

definition example_hmac :: hmac_sha256 where
  "example_hmac key content = take 32 (key @ map (\<lambda>c. word_of_nat (of_char c)) content @ replicate 32 0)"

lemma example_hmac_nonempty: "example_hmac key content \<noteq> []"
  by (simp add: example_hmac_def)

text \<open>
  C37: verification is sound: whatever headers arrive, a body is accepted only when the time stamp is
  within five minutes and one of the presented \<open>v1\<close> signatures decodes to exactly the HMAC, under the
  receiver's secret, of the presented identifier, time stamp and body.
\<close>

theorem verify_sound:
  assumes "verify hmac json_parse frac_str now headers rawBody secret = Inr j"
  shows "json_parse rawBody = Some j \<and>
    (\<exists>i seconds digest.
       map_of (lowercaseHeaders headers) ''webhook-id'' = Some i \<and> i \<noteq> []
       \<and> js_Number (header_of (lowercaseHeaders headers) ''webhook-timestamp'') = Fin seconds
       \<and> \<bar>rat_of_int \<lfloor>now / 1000\<rfloor> - seconds\<bar> \<le> 300
       \<and> digest \<in> set (List.map_filter extractSignatureDigest
            (split_on CHR '' '' (header_of (lowercaseHeaders headers) ''webhook-signature'')))
       \<and> base64_decode digest = hmac (parseSecret secret) (signed_content i (number_text frac_str seconds) rawBody))"
  using assms by (rule verify_accepts)

theorem verify_sound_witness:
  "\<exists>i. map_of (lowercaseHeaders (createSigner example_hmac [''whsec_b2xk''] ''msg_1'' ''1'' 60000)) ''webhook-id'' = Some i \<and> i \<noteq> []"
proof -
  have "timestamp_seconds 60000 = 60" "\<lfloor>90000 / 1000 :: rat\<rfloor> = 90"
    by (simp_all add: timestamp_seconds_def date_time_def)
  then have "verify example_hmac (\<lambda>s. if s = ''1'' then Some (JNum ''1'') else None) (\<lambda>_. []) 90000
     (createSigner example_hmac [''whsec_b2xk''] ''msg_1'' ''1'' 60000) ''1'' ''whsec_b2xk'' = Inr (JNum ''1'')"
    using verify_signed [of "''whsec_b2xk''" "[''whsec_b2xk'']" "''msg_1''" example_hmac 60000 90000
        "\<lambda>s. if s = ''1'' then Some (JNum ''1'') else None" "\<lambda>_. []" "''1''"]
    by (simp add: example_hmac_nonempty)
  from verify_sound [OF this] show ?thesis by blast
qed

end
