(* ===== verification/Testing_Memory.thy ===== *)
theory Testing_Memory
  imports Core_Send_Spec Signing
begin

text \<open>
  The in-memory adapter of \<open>packages/testing/src\<close>: one world that holds the clock, the seeded random
  source, the state store, the FIFO transport, the scheduler and the scripted receiver. The engine's
  port contracts are interpreted on it, so every result about the engine holds of a concrete program
  that evaluates. The entropy behind \<open>generateSecret\<close>, the URL parser, HMAC and SHA-256 are
  parameters.
\<close>

section \<open>The world\<close>

record event_record =
  er_eventId :: string
  er_messageCount :: nat

record tenant_data =
  td_events :: "(string, event_record) jsmap"
  td_endpoints :: "(string, endpoint) jsmap"
  td_messages :: "(string, message) jsmap"
  td_attempts :: "(string, attempt list) jsmap"
  td_circuits :: "(string, circuit_record) jsmap"
  td_rateBuckets :: "(string, rate_bucket) jsmap"
  td_dlq :: "dlq_row list"

definition newTenant :: tenant_data where
  "newTenant = \<lparr>td_events = [], td_endpoints = [], td_messages = [], td_attempts = [], td_circuits = [],
     td_rateBuckets = [], td_dlq = []\<rparr>"

datatype script = ScOk | ScPermanent int | ScFailThenOk nat | ScTimeout | ScNetwork | ScSlow millis

record recorded_call =
  rec_url :: string
  rec_body :: string
  rec_headers :: "(string \<times> string) list"
  rec_ts :: millis

record mem_world =
  mw_now :: millis
  mw_seed :: "32 word"
  mw_entropyUsed :: nat
  mw_endpointCounter :: nat
  mw_tenants :: "(string, tenant_data) jsmap"
  mw_queue :: "message list"
  mw_subscribed :: bool
  mw_pending :: "(message \<times> millis) list"
  mw_calls :: "recorded_call list"
  mw_default :: script
  mw_routes :: "(string, script) jsmap"
  mw_counters :: "(string, nat) jsmap"

type_synonym 'a mem = "(mem_world, 'a) io"

section \<open>Clock and random source (test-clock.ts)\<close>

definition TestClock_now :: "millis mem" where
  "TestClock_now w = (Inr (mw_now w), w)"

definition TestClock_tick :: "millis \<Rightarrow> millis mem" where
  "TestClock_tick ms w = (Inr (mw_now w + ms), w\<lparr>mw_now := mw_now w + ms\<rparr>)"

definition TestClock_set :: "millis \<Rightarrow> millis mem" where
  "TestClock_set ms w = (let t = (if ms > mw_now w then ms else mw_now w) in (Inr t, w\<lparr>mw_now := t\<rparr>))"

definition seededRng_seed :: "int \<Rightarrow> 32 word" where
  "seededRng_seed seed = (let s = word_of_int seed in if s = 0 then 1 else s)"

definition seededRng_next :: "rat mem" where
  "seededRng_next w =
     (let s = mw_seed w * 1664525 + 1013904223
      in (Inr (rat_of_nat (unat s) / 4294967296), w\<lparr>mw_seed := s\<rparr>))"

section \<open>The state store (memory-state.ts)\<close>

definition tenant_of :: "mem_world \<Rightarrow> string \<Rightarrow> tenant_data" where
  "tenant_of w t = (case map_of (mw_tenants w) t of Some d \<Rightarrow> d | None \<Rightarrow> newTenant)"

text \<open>\<open>this.t(tenant)\<close> creates the tenant on first access, then \<open>f\<close> reads and changes it.\<close>

definition with_tenant :: "string \<Rightarrow> (tenant_data \<Rightarrow> (js_error + 'a) \<times> tenant_data) \<Rightarrow> 'a mem" where
  "with_tenant t f w =
     (let r = f (tenant_of w t) in (fst r, w\<lparr>mw_tenants := AList.update t (snd r) (mw_tenants w)\<rparr>))"

definition mem_recordEvent :: "string \<Rightarrow> string \<Rightarrow> string \<Rightarrow> record_result mem" where
  "mem_recordEvent tenant eventId idemKey = with_tenant tenant (\<lambda>d.
     case map_of (td_events d) idemKey of
       Some existing \<Rightarrow> (Inr \<lparr>rr_isNew = False, rr_eventId = er_eventId existing,
                              rr_messageCount = er_messageCount existing\<rparr>, d)
     | None \<Rightarrow> (Inr \<lparr>rr_isNew = True, rr_eventId = eventId, rr_messageCount = 0\<rparr>,
                d\<lparr>td_events := AList.update idemKey \<lparr>er_eventId = eventId, er_messageCount = 0\<rparr> (td_events d)\<rparr>))"

definition mem_finalizeEvent :: "string \<Rightarrow> string \<Rightarrow> string \<Rightarrow> nat \<Rightarrow> unit mem" where
  "mem_finalizeEvent tenant idemKey eventId messageCount = with_tenant tenant (\<lambda>d.
     (Inr (), d\<lparr>td_events := AList.update idemKey \<lparr>er_eventId = eventId, er_messageCount = messageCount\<rparr> (td_events d)\<rparr>))"

definition int_radix36 :: "int \<Rightarrow> string" where
  "int_radix36 i = (if i < 0 then ''-'' @ to_radix 36 (nat (- i)) else to_radix 36 (nat i))"

definition mem_secret :: "(nat \<Rightarrow> byte list) \<Rightarrow> string mem" where
  "mem_secret entropy w =
     (Inr (generateSecret (entropy (mw_entropyUsed w))), w\<lparr>mw_entropyUsed := mw_entropyUsed w + 1\<rparr>)"

definition mem_endpoint :: "mem_world \<Rightarrow> new_endpoint \<Rightarrow> string \<Rightarrow> endpoint" where
  "mem_endpoint w e secret =
     \<lparr>ep_endpointId = ''ep_'' @ to_radix 36 (mw_endpointCounter w + 1) @ int_radix36 \<lfloor>mw_now w\<rfloor>,
      ep_tenant = ne_tenant e, ep_url = ne_url e, ep_eventTypes = ne_eventTypes e,
      ep_description = ne_description e, ep_disabled = False, ep_rateLimit = ne_rateLimit e,
      ep_createdAt = mw_now w, ep_secrets = [secret]\<rparr>"

definition mem_createEndpoint :: "(nat \<Rightarrow> byte list) \<Rightarrow> new_endpoint \<Rightarrow> (endpoint \<times> string) mem" where
  "mem_createEndpoint entropy e = bind_io (mem_secret entropy) (\<lambda>secret w.
     let endpoint = mem_endpoint w e secret
     in with_tenant (ne_tenant e)
          (\<lambda>d. (Inr (endpoint, secret), d\<lparr>td_endpoints := AList.update (ep_endpointId endpoint) endpoint (td_endpoints d)\<rparr>))
          (w\<lparr>mw_endpointCounter := mw_endpointCounter w + 1\<rparr>))"

definition mem_getEndpoint :: "string \<Rightarrow> string \<Rightarrow> endpoint option mem" where
  "mem_getEndpoint tenant endpointId = with_tenant tenant (\<lambda>d. (Inr (map_of (td_endpoints d) endpointId), d))"

definition mem_listEndpoints :: "string \<Rightarrow> endpoint list mem" where
  "mem_listEndpoints tenant = with_tenant tenant (\<lambda>d. (Inr (map_values (td_endpoints d)), d))"

definition mem_matchEndpoints :: "string \<Rightarrow> string \<Rightarrow> endpoint list mem" where
  "mem_matchEndpoints tenant eventType = with_tenant tenant (\<lambda>d.
     (Inr (filter (\<lambda>e. subscribes e eventType) (map_values (td_endpoints d))), d))"

definition mem_updateEndpoint :: "string \<Rightarrow> string \<Rightarrow> endpoint_patch \<Rightarrow> endpoint mem" where
  "mem_updateEndpoint tenant endpointId patch = with_tenant tenant (\<lambda>d.
     case map_of (td_endpoints d) endpointId of
       None \<Rightarrow> (Inl (Error (''endpoint not found: '' @ endpointId)), d)
     | Some existing \<Rightarrow>
         (let updated = existing\<lparr>
                ep_url := (case pa_url patch of Some u \<Rightarrow> u | None \<Rightarrow> ep_url existing),
                ep_eventTypes := (case pa_eventTypes patch of Some ts \<Rightarrow> ts | None \<Rightarrow> ep_eventTypes existing),
                ep_disabled := (case pa_disabled patch of Some x \<Rightarrow> x | None \<Rightarrow> ep_disabled existing)\<rparr>
          in (Inr updated, d\<lparr>td_endpoints := AList.update endpointId updated (td_endpoints d)\<rparr>)))"

definition mem_rotateSecret :: "(nat \<Rightarrow> byte list) \<Rightarrow> string \<Rightarrow> string \<Rightarrow> string mem" where
  "mem_rotateSecret entropy tenant endpointId = bind_io (mem_getEndpoint tenant endpointId) (\<lambda>found.
     case found of
       None \<Rightarrow> throw_io (Error (''endpoint not found: '' @ endpointId))
     | Some existing \<Rightarrow> bind_io (mem_secret entropy) (\<lambda>secret. with_tenant tenant (\<lambda>d.
         (Inr secret, d\<lparr>td_endpoints := AList.update endpointId
            (existing\<lparr>ep_secrets := [secret, hd (ep_secrets existing)]\<rparr>) (td_endpoints d)\<rparr>))))"

definition mem_deleteEndpoint :: "string \<Rightarrow> string \<Rightarrow> unit mem" where
  "mem_deleteEndpoint tenant endpointId = with_tenant tenant (\<lambda>d.
     (Inr (), d\<lparr>td_endpoints := AList.delete endpointId (td_endpoints d)\<rparr>))"

definition mem_putMessage :: "message \<Rightarrow> unit mem" where
  "mem_putMessage m = with_tenant (msg_tenant m) (\<lambda>d.
     (Inr (), d\<lparr>td_messages := AList.update (msg_messageId m) m (td_messages d)\<rparr>))"

definition mem_getMessage :: "string \<Rightarrow> string \<Rightarrow> message option mem" where
  "mem_getMessage tenant messageId = with_tenant tenant (\<lambda>d. (Inr (map_of (td_messages d) messageId), d))"

definition attempts_of :: "tenant_data \<Rightarrow> string \<Rightarrow> attempt list" where
  "attempts_of d messageId = (case map_of (td_attempts d) messageId of Some l \<Rightarrow> l | None \<Rightarrow> [])"

definition mem_appendAttempt :: "attempt \<Rightarrow> unit mem" where
  "mem_appendAttempt a = with_tenant (att_tenant a) (\<lambda>d.
     (Inr (), d\<lparr>td_attempts := AList.update (att_messageId a) (attempts_of d (att_messageId a) @ [a]) (td_attempts d)\<rparr>))"

text \<open>\<open>if (q.endpointId)\<close>, \<open>if (q.eventType)\<close> and \<open>if (q.status)\<close> skip an empty string; the time bounds and the
  limit are skipped only when undefined.\<close>

definition text_filter :: "string option \<Rightarrow> (message \<Rightarrow> string) \<Rightarrow> message list \<Rightarrow> message list" where
  "text_filter want field rows =
     (case want of None \<Rightarrow> rows | Some x \<Rightarrow> if x = [] then rows else filter (\<lambda>m. field m = x) rows)"

definition select_messages :: "delivery_query \<Rightarrow> message list \<Rightarrow> message list" where
  "select_messages q rows =
     (let r1 = text_filter (dq_endpointId q) msg_endpointId rows;
          r2 = text_filter (dq_eventType q) msg_eventType r1;
          r3 = text_filter (dq_status q) (\<lambda>m. status_text (msg_status m)) r2;
          r4 = (case dq_before q of None \<Rightarrow> r3 | Some b \<Rightarrow> filter (\<lambda>m. msg_createdAt m < b) r3);
          r5 = (case dq_after q of None \<Rightarrow> r4 | Some a \<Rightarrow> filter (\<lambda>m. msg_createdAt m > a) r4);
          r6 = sort_desc msg_createdAt r5
      in case dq_limit q of None \<Rightarrow> r6 | Some n \<Rightarrow> take n r6)"

definition mem_listDeliveries :: "delivery_query \<Rightarrow> delivery_record list mem" where
  "mem_listDeliveries q = with_tenant (dq_tenant q) (\<lambda>d.
     (Inr (map (\<lambda>m. (m, attempts_of d (msg_messageId m))) (select_messages q (map_values (td_messages d)))), d))"

definition mem_getCircuit :: "string \<Rightarrow> string \<Rightarrow> circuit_record mem" where
  "mem_getCircuit tenant endpointId = with_tenant tenant (\<lambda>d.
     (Inr (case map_of (td_circuits d) endpointId of Some c \<Rightarrow> c | None \<Rightarrow> initialCircuit DEFAULT_COOLDOWN_MS), d))"

definition mem_putCircuit :: "string \<Rightarrow> string \<Rightarrow> circuit_record \<Rightarrow> unit mem" where
  "mem_putCircuit tenant endpointId rec = with_tenant tenant (\<lambda>d.
     (Inr (), d\<lparr>td_circuits := AList.update endpointId rec (td_circuits d)\<rparr>))"

definition mem_getRateBucket :: "string \<Rightarrow> string \<Rightarrow> rate_bucket option mem" where
  "mem_getRateBucket tenant endpointId = with_tenant tenant (\<lambda>d. (Inr (map_of (td_rateBuckets d) endpointId), d))"

definition mem_putRateBucket :: "string \<Rightarrow> string \<Rightarrow> rate_bucket \<Rightarrow> unit mem" where
  "mem_putRateBucket tenant endpointId bucket = with_tenant tenant (\<lambda>d.
     (Inr (), d\<lparr>td_rateBuckets := AList.update endpointId bucket (td_rateBuckets d)\<rparr>))"

definition mem_addToDlq :: "message \<Rightarrow> dlq_reason \<Rightarrow> unit mem" where
  "mem_addToDlq m reason = with_tenant (msg_tenant m) (\<lambda>d. (Inr (), d\<lparr>td_dlq := td_dlq d @ [(m, reason)]\<rparr>))"

definition mem_listDlq :: "string \<Rightarrow> string option \<Rightarrow> dlq_row list mem" where
  "mem_listDlq tenant endpointId = with_tenant tenant (\<lambda>d.
     (Inr (case endpointId of None \<Rightarrow> td_dlq d
           | Some i \<Rightarrow> if i = [] then td_dlq d else filter (\<lambda>r. msg_endpointId (fst r) = i) (td_dlq d)), d))"

definition MemoryStateStore :: "(nat \<Rightarrow> byte list) \<Rightarrow> mem_world state_store" where
  "MemoryStateStore entropy =
     \<lparr>ss_recordEvent = mem_recordEvent, ss_finalizeEvent = mem_finalizeEvent,
      ss_createEndpoint = mem_createEndpoint entropy, ss_getEndpoint = mem_getEndpoint,
      ss_listEndpoints = mem_listEndpoints, ss_matchEndpoints = mem_matchEndpoints,
      ss_updateEndpoint = mem_updateEndpoint, ss_rotateSecret = mem_rotateSecret entropy,
      ss_deleteEndpoint = mem_deleteEndpoint, ss_putMessage = mem_putMessage, ss_getMessage = mem_getMessage,
      ss_appendAttempt = mem_appendAttempt, ss_listDeliveries = mem_listDeliveries,
      ss_getCircuit = mem_getCircuit, ss_putCircuit = mem_putCircuit, ss_getRateBucket = mem_getRateBucket,
      ss_putRateBucket = mem_putRateBucket, ss_addToDlq = mem_addToDlq, ss_listDlq = mem_listDlq\<rparr>"

section \<open>Transport, scheduler, receiver, harness\<close>

definition mem_send :: "message \<Rightarrow> unit mem" where
  "mem_send m w = (Inr (), w\<lparr>mw_queue := mw_queue w @ [m]\<rparr>)"

text \<open>The handler is passed to \<open>drain\<close> instead of being kept in the world; the world only knows that one
  was subscribed.\<close>

definition mem_subscribe :: "(message \<Rightarrow> unit mem) \<Rightarrow> unit mem" where
  "mem_subscribe handler w = (Inr (), w\<lparr>mw_subscribed := True\<rparr>)"

definition MemoryTransport :: "mem_world transport" where
  "MemoryTransport = \<lparr>tr_send = mem_send, tr_subscribe = mem_subscribe\<rparr>"

partial_function (option) drain_loop ::
  "(message \<Rightarrow> unit mem) \<Rightarrow> nat \<Rightarrow> mem_world \<Rightarrow> ((js_error + nat) \<times> mem_world) option" where
  [code]: "drain_loop handler n w =
     (case mw_queue w of
        [] \<Rightarrow> Some (Inr n, w)
      | m # rest \<Rightarrow> (case fst (handler m (w\<lparr>mw_queue := rest\<rparr>)) of
            Inl e \<Rightarrow> Some (Inl e, snd (handler m (w\<lparr>mw_queue := rest\<rparr>)))
          | Inr _ \<Rightarrow> drain_loop handler (n + 1) (snd (handler m (w\<lparr>mw_queue := rest\<rparr>)))))"

definition drain :: "(message \<Rightarrow> unit mem) \<Rightarrow> mem_world \<Rightarrow> ((js_error + nat) \<times> mem_world) option" where
  "drain handler w =
     (if \<not> mw_subscribed w then Some (Inl (Error ''MemoryTransport.drain called before subscribe()''), w)
      else drain_loop handler 0 w)"

definition mem_scheduleRetry :: "message \<Rightarrow> millis \<Rightarrow> unit mem" where
  "mem_scheduleRetry m due w = (Inr (), w\<lparr>mw_pending := mw_pending w @ [(m, due)]\<rparr>)"

definition MemoryScheduler :: "mem_world scheduler" where
  "MemoryScheduler = \<lparr>sch_scheduleRetry = mem_scheduleRetry\<rparr>"

definition advance :: "nat mem" where
  "advance = bind_io TestClock_now (\<lambda>now w.
     let due = filter (\<lambda>p. snd p \<le> now) (mw_pending w)
     in bind_io (for_io (map fst due) mem_send) (\<lambda>_. return_io (length due))
          (w\<lparr>mw_pending := filter (\<lambda>p. snd p > now) (mw_pending w)\<rparr>))"

definition MemoryScheduler_size :: "mem_world \<Rightarrow> nat" where
  "MemoryScheduler_size w = length (mw_pending w)"

definition nextDueAt :: "mem_world \<Rightarrow> millis option" where
  "nextDueAt w = (if mw_pending w = [] then None else Some (Min (set (map snd (mw_pending w)))))"

definition receiver_answer :: "script \<Rightarrow> nat \<Rightarrow> millis \<Rightarrow> http_result" where
  "receiver_answer sc n timeoutMs =
     (case sc of
        ScOk \<Rightarrow> HttpResponse 200 ''ok'' None
      | ScPermanent status \<Rightarrow> HttpResponse status ''rejected'' None
      | ScFailThenOk k \<Rightarrow> if n < k then HttpResponse 500 ''err'' None else HttpResponse 200 ''ok'' None
      | ScTimeout \<Rightarrow> HttpTimeout
      | ScNetwork \<Rightarrow> HttpNetwork
      | ScSlow ms \<Rightarrow> if ms > timeoutMs then HttpTimeout else HttpResponse 200 ''ok'' None)"

definition receiver_on :: "string \<Rightarrow> script \<Rightarrow> mem_world \<Rightarrow> mem_world" where
  "receiver_on url sc w = w\<lparr>mw_routes := AList.update url sc (mw_routes w)\<rparr>"

definition receiver_post :: "string \<Rightarrow> string \<Rightarrow> (string \<times> string) list \<Rightarrow> millis \<Rightarrow> http_result mem" where
  "receiver_post url body headers timeoutMs w =
     (let sc = (case map_of (mw_routes w) url of Some s \<Rightarrow> s | None \<Rightarrow> mw_default w);
          n = (case map_of (mw_counters w) url of Some k \<Rightarrow> k | None \<Rightarrow> 0)
      in (Inr (receiver_answer sc n timeoutMs),
          w\<lparr>mw_calls := mw_calls w @ [\<lparr>rec_url = url, rec_body = body, rec_headers = headers, rec_ts = mw_now w\<rparr>],
            mw_counters := AList.update url (n + 1) (mw_counters w)\<rparr>))"

definition MockReceiver :: "mem_world http_client" where
  "MockReceiver = \<lparr>http_post = receiver_post\<rparr>"

definition callCount :: "string option \<Rightarrow> mem_world \<Rightarrow> nat" where
  "callCount url w =
     (case url of None \<Rightarrow> length (mw_calls w)
      | Some u \<Rightarrow> if u = [] then length (mw_calls w) else length (filter (\<lambda>c. rec_url c = u) (mw_calls w)))"

text \<open>\<open>runDeliveries\<close>: at most \<open>maxRounds\<close> rounds; \<open>None\<close> when a drain does not return.\<close>

fun runDeliveries_from :: "nat \<Rightarrow> nat \<Rightarrow> (message \<Rightarrow> unit mem) \<Rightarrow> mem_world \<Rightarrow> ((js_error + unit) \<times> mem_world) option" where
  "runDeliveries_from maxRounds 0 handler w =
     Some (Inl (Error (''runDeliveries exceeded maxRounds='' @ nat_str maxRounds @ '' (schedule not converging)'')), w)"
| "runDeliveries_from maxRounds (Suc left) handler w =
     (case drain handler w of
        None \<Rightarrow> None
      | Some (Inl e, w1) \<Rightarrow> Some (Inl e, w1)
      | Some (Inr _, w1) \<Rightarrow>
          if MemoryScheduler_size w1 = 0 then Some (Inr (), w1)
          else (let w2 = (case nextDueAt w1 of Some t \<Rightarrow> snd (TestClock_set t w1) | None \<Rightarrow> w1)
                in case advance w2 of
                     (Inl e, w3) \<Rightarrow> Some (Inl e, w3)
                   | (Inr _, w3) \<Rightarrow> runDeliveries_from maxRounds left handler w3))"

definition runDeliveries :: "nat \<Rightarrow> (message \<Rightarrow> unit mem) \<Rightarrow> mem_world \<Rightarrow> ((js_error + unit) \<times> mem_world) option" where
  "runDeliveries maxRounds handler w = runDeliveries_from maxRounds maxRounds handler w"

section \<open>The view of the memory world\<close>

definition mem_view :: "mem_world \<Rightarrow> view" where
  "mem_view w =
     \<lparr>v_events = (\<lambda>t k. map_option (\<lambda>r. (er_eventId r, er_messageCount r)) (map_of (td_events (tenant_of w t)) k)),
      v_endpoints = (\<lambda>t i. map_of (td_endpoints (tenant_of w t)) i),
      v_messages = (\<lambda>t i. map_of (td_messages (tenant_of w t)) i),
      v_attempts = (\<lambda>t (e, i). filter (\<lambda>a. att_endpointId a = e) (attempts_of (tenant_of w t) i)),
      v_circuits = (\<lambda>t i. case map_of (td_circuits (tenant_of w t)) i of
                      Some c \<Rightarrow> c | None \<Rightarrow> initialCircuit DEFAULT_COOLDOWN_MS),
      v_buckets = (\<lambda>t i. map_of (td_rateBuckets (tenant_of w t)) i),
      v_dlq = (\<lambda>t i. {#r \<in># mset (td_dlq (tenant_of w t)). msg_endpointId (fst r) = i#}),
      v_queue = mw_queue w,
      v_posts = map (\<lambda>c. (rec_url c, rec_body c, rec_headers c)) (mw_calls w)\<rparr>"

definition mem_sched :: "mem_world \<Rightarrow> (message \<times> millis) set" where
  "mem_sched w = set (mw_pending w)"

definition tenant_ok :: "string \<Rightarrow> tenant_data \<Rightarrow> bool" where
  "tenant_ok t d \<longleftrightarrow>
     distinct (map fst (td_endpoints d)) \<and>
     (\<forall>(i, e) \<in> set (td_endpoints d). ep_endpointId e = i \<and> ep_tenant e = t \<and> ep_secrets e \<noteq> []) \<and>
     distinct (map fst (td_messages d)) \<and>
     (\<forall>(i, m) \<in> set (td_messages d). msg_messageId m = i \<and> msg_tenant m = t) \<and>
     (\<forall>r \<in> set (td_dlq d). msg_tenant (fst r) = t)"

definition mem_ok :: "mem_world \<Rightarrow> bool" where
  "mem_ok w \<longleftrightarrow> (\<forall>t. tenant_ok t (tenant_of w t))"

abbreviation mem_calls :: "'a mem \<Rightarrow> mem_world \<Rightarrow> js_error + 'a \<Rightarrow> view \<Rightarrow> bool" where
  "mem_calls \<equiv> calls mem_ok mem_view mem_sched"

lemma tenant_of_update [simp]:
  "tenant_of (w\<lparr>mw_tenants := AList.update t d (mw_tenants w)\<rparr>) t' = (if t' = t then d else tenant_of w t')"
  by (simp add: tenant_of_def)

lemma tenant_of_frame [simp]:
  "tenant_of (w\<lparr>mw_now := a\<rparr>) t = tenant_of w t" "tenant_of (w\<lparr>mw_seed := s\<rparr>) t = tenant_of w t"
  "tenant_of (w\<lparr>mw_entropyUsed := n\<rparr>) t = tenant_of w t" "tenant_of (w\<lparr>mw_endpointCounter := n\<rparr>) t = tenant_of w t"
  "tenant_of (w\<lparr>mw_queue := q\<rparr>) t = tenant_of w t" "tenant_of (w\<lparr>mw_subscribed := b\<rparr>) t = tenant_of w t"
  "tenant_of (w\<lparr>mw_pending := p\<rparr>) t = tenant_of w t" "tenant_of (w\<lparr>mw_calls := c\<rparr>) t = tenant_of w t"
  "tenant_of (w\<lparr>mw_counters := k\<rparr>) t = tenant_of w t"
  by (simp_all add: tenant_of_def)

text \<open>A store operation is a call when it keeps its tenant well formed and changes the view only there.\<close>

lemma with_tenant_calls:
  assumes "mem_ok w" and "f (tenant_of w t) = (r, d)" and "tenant_ok t d"
    and "mem_view (w\<lparr>mw_tenants := AList.update t d (mw_tenants w)\<rparr>) = v"
  shows "mem_calls (with_tenant t f) w r v"
  using assms by (auto simp: calls_def with_tenant_def mem_ok_def mem_sched_def)

lemma mem_okD: "mem_ok w \<Longrightarrow> tenant_ok t (tenant_of w t)"
  by (simp add: mem_ok_def)

lemma view_no_change: "mem_view (w\<lparr>mw_tenants := AList.update t (tenant_of w t) (mw_tenants w)\<rparr>) = mem_view w"
  by (simp add: mem_view_def fun_eq_iff)

lemma with_tenant_reads:
  assumes "mem_ok w" and "f (tenant_of w t) = (r, tenant_of w t)"
  shows "mem_calls (with_tenant t f) w r (mem_view w)"
  using assms by (intro with_tenant_calls) (auto simp: view_no_change mem_okD)

lemma mem_view_sel:
  "v_endpoints (mem_view w) t i = map_of (td_endpoints (tenant_of w t)) i"
  "v_messages (mem_view w) t i = map_of (td_messages (tenant_of w t)) i"
  "v_circuits (mem_view w) t i =
     (case map_of (td_circuits (tenant_of w t)) i of Some c \<Rightarrow> c | None \<Rightarrow> initialCircuit DEFAULT_COOLDOWN_MS)"
  "v_buckets (mem_view w) t i = map_of (td_rateBuckets (tenant_of w t)) i"
  "v_dlq (mem_view w) t i = {#r \<in># mset (td_dlq (tenant_of w t)). msg_endpointId (fst r) = i#}"
  "v_queue (mem_view w) = mw_queue w"
  by (simp_all add: mem_view_def)

lemmas mem_view_defs = mem_view_def view_defs upd2_def fun_eq_iff

lemma tenant_ok_simps [simp]:
  "tenant_ok t (d\<lparr>td_events := x\<rparr>) = tenant_ok t d" "tenant_ok t (d\<lparr>td_attempts := x1\<rparr>) = tenant_ok t d"
  "tenant_ok t (d\<lparr>td_circuits := x2\<rparr>) = tenant_ok t d" "tenant_ok t (d\<lparr>td_rateBuckets := x3\<rparr>) = tenant_ok t d"
  "tenant_ok t (d\<lparr>td_dlq := td_dlq d @ [(m, r)]\<rparr>) \<longleftrightarrow> tenant_ok t d \<and> msg_tenant m = t"
  by (auto simp: tenant_ok_def)

lemma tenant_ok_put_endpoint:
  "tenant_ok t d \<Longrightarrow> ep_endpointId e = i \<Longrightarrow> ep_tenant e = t \<Longrightarrow> ep_secrets e \<noteq> [] \<Longrightarrow>
   tenant_ok t (d\<lparr>td_endpoints := AList.update i e (td_endpoints d)\<rparr>)"
  by (auto simp: tenant_ok_def dest!: set_alist_update)

lemma tenant_ok_delete_endpoint:
  "tenant_ok t d \<Longrightarrow> tenant_ok t (d\<lparr>td_endpoints := AList.delete i (td_endpoints d)\<rparr>)"
  by (auto simp: tenant_ok_def dest!: set_alist_delete)

lemma tenant_ok_put_message:
  "tenant_ok t d \<Longrightarrow> msg_messageId m = i \<Longrightarrow> msg_tenant m = t \<Longrightarrow>
   tenant_ok t (d\<lparr>td_messages := AList.update i m (td_messages d)\<rparr>)"
  by (auto simp: tenant_ok_def dest!: set_alist_update)

lemma tenant_ok_endpoint:
  "tenant_ok t d \<Longrightarrow> map_of (td_endpoints d) i = Some e \<Longrightarrow> ep_endpointId e = i \<and> ep_tenant e = t \<and> ep_secrets e \<noteq> []"
  by (auto simp: tenant_ok_def dest!: map_of_SomeD)

lemma tenant_ok_ids: "tenant_ok t d \<Longrightarrow> map ep_endpointId (map_values (td_endpoints d)) = map fst (td_endpoints d)"
  by (auto simp: tenant_ok_def map_values_def)

section \<open>The contracts hold\<close>

interpretation mem_clock: clock_port TestClock_now mem_view mem_sched mem_ok
  by unfold_locales (simp add: calls_def TestClock_now_def)

lemma mem_view_seed [simp]: "mem_view (w\<lparr>mw_seed := s\<rparr>) = mem_view w" "mem_sched (w\<lparr>mw_seed := s\<rparr>) = mem_sched w"
  "mem_ok (w\<lparr>mw_seed := s\<rparr>) = mem_ok w"
  by (simp_all add: mem_view_def mem_sched_def mem_ok_def)

lemma mem_view_entropy [simp]: "mem_view (w\<lparr>mw_entropyUsed := s\<rparr>) = mem_view w" "mem_sched (w\<lparr>mw_entropyUsed := s\<rparr>) = mem_sched w"
  "mem_ok (w\<lparr>mw_entropyUsed := s\<rparr>) = mem_ok w"
  by (simp_all add: mem_view_def mem_sched_def mem_ok_def)

lemma seededRng_next_range:
  "\<exists>r. 0 \<le> r \<and> r < 1 \<and> fst (seededRng_next w) = Inr r"
proof -
  define k where "k = unat (mw_seed w * 1664525 + 1013904223)"
  have "k < 4294967296" unfolding k_def using unsigned_less [of "mw_seed w * 1664525 + 1013904223", where 'a = nat] by simp
  then have "rat_of_nat k < 4294967296" using of_nat_less_iff [of k 4294967296, where 'a = rat] by simp
  then have "0 \<le> rat_of_nat k / 4294967296" "rat_of_nat k / 4294967296 < 1" by simp_all
  then show ?thesis unfolding k_def seededRng_next_def Let_def fst_conv by blast
qed

interpretation mem_rng: rng_port seededRng_next mem_view mem_sched mem_ok
proof unfold_locales
  fix w assume "mem_ok w"
  then show "\<exists>r. 0 \<le> r \<and> r < 1 \<and> mem_calls seededRng_next w (Inr r) (mem_view w)"
    using seededRng_next_range [of w] by (auto simp: calls_def seededRng_next_def Let_def)
qed

interpretation mem_http: http_port MockReceiver verdict mem_view mem_sched mem_ok for verdict
  by unfold_locales
     (auto simp: calls_def MockReceiver_def receiver_post_def Let_def mem_view_def push_post_def mem_sched_def mem_ok_def)

interpretation mem_telemetry: telemetry_port "noopTelemetry :: mem_world telemetry" mem_view mem_sched mem_ok
  by unfold_locales (simp add: calls_def noopTelemetry_def)

interpretation mem_transport: transport_port MemoryTransport mem_view mem_sched mem_ok
  by unfold_locales
     (simp add: calls_def MemoryTransport_def mem_send_def mem_view_def push_queue_def mem_sched_def mem_ok_def)

interpretation mem_scheduler: scheduler_port MemoryScheduler mem_view mem_sched mem_ok
  by unfold_locales
     (auto simp: MemoryScheduler_def mem_scheduleRetry_def mem_view_def mem_sched_def mem_ok_def entries_but_def)

interpretation mem_policy: policy_port "default_policy_port url_parse :: mem_world url_policy"
  "defaultUrlPolicy_check url_parse default_url_options" mem_view mem_sched mem_ok for url_parse
  by unfold_locales (simp add: calls_def default_policy_port_def)

section \<open>The state store keeps its contract\<close>

lemmas mem_store_defs = MemoryStateStore_def

lemma set_text_filter: "m \<in> set (text_filter want field rows) \<Longrightarrow> m \<in> set rows \<and> text_matches want (field m)"
  by (auto simp: text_filter_def text_matches_def split: option.splits if_splits)

lemma set_select_messages: "m \<in> set (select_messages q rows) \<Longrightarrow> m \<in> set rows \<and> query_matches q m"
  by (auto simp: select_messages_def query_matches_def Let_def split: option.splits
      dest!: set_text_filter in_set_takeD)

lemma mem_message_row:
  assumes "tenant_ok t d" and "m \<in> set (map_values (td_messages d))"
  shows "msg_tenant m = t"
  using assms by (auto simp: tenant_ok_def map_values_def)

lemma mem_listDeliveries_calls:
  assumes "mem_ok w"
  shows "\<exists>rows. mem_calls (mem_listDeliveries q) w (Inr rows) (mem_view w)
    \<and> (\<forall>(m, log) \<in> set rows. msg_tenant m = dq_tenant q \<and> query_matches q m
         \<and> filter (\<lambda>a. att_endpointId a = msg_endpointId m) log
             = v_attempts (mem_view w) (dq_tenant q) (msg_endpointId m, msg_messageId m))"
proof -
  let ?d = "tenant_of w (dq_tenant q)"
  let ?rows = "map (\<lambda>m. (m, attempts_of ?d (msg_messageId m))) (select_messages q (map_values (td_messages ?d)))"
  have "mem_calls (mem_listDeliveries q) w (Inr ?rows) (mem_view w)"
    unfolding mem_listDeliveries_def by (rule with_tenant_reads [OF assms]) simp
  moreover have "\<forall>(m, log) \<in> set ?rows. msg_tenant m = dq_tenant q \<and> query_matches q m
         \<and> filter (\<lambda>a. att_endpointId a = msg_endpointId m) log
             = v_attempts (mem_view w) (dq_tenant q) (msg_endpointId m, msg_messageId m)"
    using mem_message_row [OF mem_okD [OF assms]] by (auto simp: mem_view_def dest!: set_select_messages)
  ultimately show ?thesis by blast
qed

lemma mem_createEndpoint_calls:
  assumes "mem_ok w"
  shows "\<exists>i secret now. mem_calls (mem_createEndpoint entropy ne) w
         (Inr (\<lparr>ep_endpointId = i, ep_tenant = ne_tenant ne, ep_url = ne_url ne, ep_eventTypes = ne_eventTypes ne,
                ep_description = ne_description ne, ep_disabled = False, ep_rateLimit = ne_rateLimit ne,
                ep_createdAt = now, ep_secrets = [secret]\<rparr>, secret))
         (put_endpoint \<lparr>ep_endpointId = i, ep_tenant = ne_tenant ne, ep_url = ne_url ne, ep_eventTypes = ne_eventTypes ne,
                ep_description = ne_description ne, ep_disabled = False, ep_rateLimit = ne_rateLimit ne,
                ep_createdAt = now, ep_secrets = [secret]\<rparr> (mem_view w))"
proof -
  define secret where "secret = generateSecret (entropy (mw_entropyUsed w))"
  define e where "e = mem_endpoint (w\<lparr>mw_entropyUsed := mw_entropyUsed w + 1\<rparr>) ne secret"
  define d where "d = (tenant_of w (ne_tenant ne))\<lparr>td_endpoints := AList.update (ep_endpointId e) e (td_endpoints (tenant_of w (ne_tenant ne)))\<rparr>"
  have run: "mem_createEndpoint entropy ne w = (Inr (e, secret),
      w\<lparr>mw_entropyUsed := mw_entropyUsed w + 1, mw_endpointCounter := mw_endpointCounter w + 1,
        mw_tenants := AList.update (ne_tenant ne) d (mw_tenants w)\<rparr>)"
    by (simp add: mem_createEndpoint_def bind_io_def mem_secret_def with_tenant_def Let_def secret_def e_def d_def mem_endpoint_def)
  have e: "ep_tenant e = ne_tenant ne" "ep_secrets e = [secret]" by (simp_all add: e_def mem_endpoint_def)
  have "tenant_ok (ne_tenant ne) d"
    unfolding d_def using assms e by (intro tenant_ok_put_endpoint) (auto simp: mem_okD)
  then have "mem_calls (mem_createEndpoint entropy ne) w (Inr (e, secret)) (put_endpoint e (mem_view w))"
    using assms e by (auto simp: calls_def run mem_view_defs mem_ok_def mem_sched_def tenant_of_def d_def attempts_of_def)
  then show ?thesis unfolding e_def mem_endpoint_def by blast
qed

lemma mem_updateEndpoint_calls:
  assumes "mem_ok w" and "map_of (td_endpoints (tenant_of w t)) i = Some e"
  shows "mem_calls (mem_updateEndpoint t i p) w (Inr (apply_patch p e)) (put_endpoint (apply_patch p e) (mem_view w))"
proof -
  note e = tenant_ok_endpoint [OF mem_okD [OF assms(1)] assms(2)]
  show ?thesis
    unfolding mem_updateEndpoint_def
    by (rule with_tenant_calls [OF assms(1)])
       (use assms e in \<open>auto simp: apply_patch_def Let_def mem_view_defs attempts_of_def intro!: tenant_ok_put_endpoint mem_okD\<close>)
qed

lemma mem_rotateSecret_calls:
  assumes "mem_ok w" and "map_of (td_endpoints (tenant_of w t)) i = Some e"
  shows "\<exists>secret. mem_calls (mem_rotateSecret entropy t i) w (Inr secret) (put_endpoint (rotate secret e) (mem_view w))"
proof -
  note e = tenant_ok_endpoint [OF mem_okD [OF assms(1)] assms(2)]
  define secret where "secret = generateSecret (entropy (mw_entropyUsed w))"
  have "tenant_ok t ((tenant_of w t)\<lparr>td_endpoints := AList.update i (rotate secret e) (td_endpoints (tenant_of w t))\<rparr>)"
    using e by (intro tenant_ok_put_endpoint mem_okD assms(1)) (auto simp: rotate_def)
  then have "mem_calls (mem_rotateSecret entropy t i) w (Inr secret) (put_endpoint (rotate secret e) (mem_view w))"
    using assms e
    by (auto simp: calls_def mem_rotateSecret_def bind_io_def mem_getEndpoint_def with_tenant_def Let_def mem_secret_def
        secret_def [symmetric] mem_view_defs mem_ok_def mem_sched_def rotate_def tenant_of_def attempts_of_def update_Some_unfold)
  then show ?thesis by blast
qed

text \<open>The laws of the store, operation by operation.\<close>

lemma mem_invariants:
  assumes "mem_ok w"
  shows "v_endpoints (mem_view w) t i = Some e \<Longrightarrow> ep_tenant e = t \<and> ep_endpointId e = i \<and> ep_secrets e \<noteq> []"
    and "v_messages (mem_view w) t i = Some m \<Longrightarrow> msg_tenant m = t \<and> msg_messageId m = i"
    and "(m, r) \<in># v_dlq (mem_view w) t i \<Longrightarrow> msg_tenant m = t \<and> msg_endpointId m = i"
  using tenant_ok_endpoint [OF mem_okD [OF assms, of t], of i e] mem_okD [OF assms, of t]
  by (auto simp: mem_view_sel tenant_ok_def dest!: map_of_SomeD)

lemma mem_event_calls:
  assumes "mem_ok w"
  shows "v_events (mem_view w) t k = None \<Longrightarrow> mem_calls (ss_recordEvent (MemoryStateStore entropy) t eid k) w
      (Inr \<lparr>rr_isNew = True, rr_eventId = eid, rr_messageCount = 0\<rparr>) (put_event t k (eid, 0) (mem_view w))"
    and "v_events (mem_view w) t k = Some (eid', n) \<Longrightarrow> mem_calls (ss_recordEvent (MemoryStateStore entropy) t eid k) w
      (Inr \<lparr>rr_isNew = False, rr_eventId = eid', rr_messageCount = n\<rparr>) (mem_view w)"
    and "mem_calls (ss_finalizeEvent (MemoryStateStore entropy) t k eid n) w (Inr ()) (put_event t k (eid, n) (mem_view w))"
  unfolding mem_store_defs state_store.simps mem_recordEvent_def mem_finalizeEvent_def
  by (auto intro!: with_tenant_calls [OF assms] with_tenant_reads [OF assms] simp: mem_view_defs mem_okD [OF assms] attempts_of_def)

lemma mem_list_calls:
  assumes "mem_ok w"
  shows "\<exists>es. distinct (map ep_endpointId es) \<and> set es = ran (v_endpoints (mem_view w) t)
      \<and> mem_calls (ss_listEndpoints (MemoryStateStore entropy) t) w (Inr es) (mem_view w)"
    and "\<exists>es. distinct (map ep_endpointId es) \<and> set es = {e \<in> ran (v_endpoints (mem_view w) t). subscribes e ty}
      \<and> mem_calls (ss_matchEndpoints (MemoryStateStore entropy) t ty) w (Inr es) (mem_view w)"
    and "i \<noteq> [] \<Longrightarrow> \<exists>rows. mset rows = v_dlq (mem_view w) t i
      \<and> mem_calls (ss_listDlq (MemoryStateStore entropy) t (Some i)) w (Inr rows) (mem_view w)"
proof -
  let ?es = "map_values (td_endpoints (tenant_of w t))"
  have ids: "distinct (map ep_endpointId ?es)" "set ?es = ran (v_endpoints (mem_view w) t)"
    using tenant_ok_ids [OF mem_okD [OF assms, of t]] mem_okD [OF assms, of t]
    by (simp_all add: tenant_ok_def set_map_values mem_view_def)
  show "\<exists>es. distinct (map ep_endpointId es) \<and> set es = ran (v_endpoints (mem_view w) t)
      \<and> mem_calls (ss_listEndpoints (MemoryStateStore entropy) t) w (Inr es) (mem_view w)"
    unfolding mem_store_defs mem_listEndpoints_def
    by (intro exI [of _ ?es]) (auto simp: ids intro!: with_tenant_reads assms)
  show "\<exists>es. distinct (map ep_endpointId es) \<and> set es = {e \<in> ran (v_endpoints (mem_view w) t). subscribes e ty}
      \<and> mem_calls (ss_matchEndpoints (MemoryStateStore entropy) t ty) w (Inr es) (mem_view w)"
    unfolding mem_store_defs mem_matchEndpoints_def
    by (intro exI [of _ "filter (\<lambda>e. subscribes e ty) ?es"]) (auto simp: ids distinct_map_filter intro!: with_tenant_reads assms)
  show "i \<noteq> [] \<Longrightarrow> \<exists>rows. mset rows = v_dlq (mem_view w) t i
      \<and> mem_calls (ss_listDlq (MemoryStateStore entropy) t (Some i)) w (Inr rows) (mem_view w)"
    unfolding mem_store_defs mem_listDlq_def
    by (intro exI [of _ "filter (\<lambda>r. msg_endpointId (fst r) = i) (td_dlq (tenant_of w t))"])
       (auto intro!: with_tenant_reads assms simp: mem_view_sel)
qed

lemma mem_missing_calls:
  assumes "mem_ok w" and "v_endpoints (mem_view w) t i = None"
  shows "mem_calls (ss_rotateSecret (MemoryStateStore entropy) t i) w (Inl (Error (''endpoint not found: '' @ i))) (mem_view w)"
    and "mem_calls (ss_updateEndpoint (MemoryStateStore entropy) t i p) w (Inl (Error (''endpoint not found: '' @ i))) (mem_view w)"
proof -
  have "mem_calls (mem_getEndpoint t i) w (Inr None) (mem_view w)"
    unfolding mem_getEndpoint_def using assms by (intro with_tenant_reads) (auto simp: mem_view_def)
  then show "mem_calls (ss_rotateSecret (MemoryStateStore entropy) t i) w (Inl (Error (''endpoint not found: '' @ i))) (mem_view w)"
    by (simp add: mem_store_defs mem_rotateSecret_def calls_def bind_io_def)
  show "mem_calls (ss_updateEndpoint (MemoryStateStore entropy) t i p) w (Inl (Error (''endpoint not found: '' @ i))) (mem_view w)"
    unfolding mem_store_defs mem_updateEndpoint_def using assms by (simp, intro with_tenant_reads) (auto simp: mem_view_def)
qed

lemma mem_read_calls:
  assumes "mem_ok w"
  shows "mem_calls (ss_getEndpoint (MemoryStateStore entropy) t i) w (Inr (v_endpoints (mem_view w) t i)) (mem_view w)"
    and "mem_calls (ss_getCircuit (MemoryStateStore entropy) t i) w (Inr (v_circuits (mem_view w) t i)) (mem_view w)"
    and "mem_calls (ss_getRateBucket (MemoryStateStore entropy) t i) w (Inr (v_buckets (mem_view w) t i)) (mem_view w)"
    and "mem_calls (ss_getMessage (MemoryStateStore entropy) t i) w (Inr (v_messages (mem_view w) t i)) (mem_view w)"
  unfolding mem_store_defs mem_getEndpoint_def mem_getCircuit_def mem_getRateBucket_def mem_getMessage_def
  by (auto intro!: with_tenant_reads assms simp: mem_view_sel)

lemma mem_write_calls:
  assumes "mem_ok w"
  shows "mem_calls (ss_deleteEndpoint (MemoryStateStore entropy) t i) w (Inr ()) (del_endpoint t i (mem_view w))"
    and "mem_calls (ss_putCircuit (MemoryStateStore entropy) t i c) w (Inr ()) (put_circ t i c (mem_view w))"
    and "mem_calls (ss_putRateBucket (MemoryStateStore entropy) t i b) w (Inr ()) (put_buck t i b (mem_view w))"
    and "mem_calls (ss_putMessage (MemoryStateStore entropy) m) w (Inr ()) (put_msg m (mem_view w))"
    and "mem_calls (ss_addToDlq (MemoryStateStore entropy) m r) w (Inr ()) (add_dlq m r (mem_view w))"
    and "mem_calls (ss_appendAttempt (MemoryStateStore entropy) a) w (Inr ()) (add_att a (mem_view w))"
  unfolding mem_store_defs state_store.simps
    mem_deleteEndpoint_def mem_putCircuit_def mem_putRateBucket_def mem_putMessage_def mem_addToDlq_def mem_appendAttempt_def
  by (rule with_tenant_calls [OF assms],
      auto simp: mem_view_defs tenant_ok_delete_endpoint tenant_ok_put_message mem_okD [OF assms] attempts_of_def)+

interpretation mem_state: state_store_port "MemoryStateStore entropy" mem_view mem_sched mem_ok for entropy
proof unfold_locales
  fix w t i e p assume "mem_ok w" "v_endpoints (mem_view w) t i = Some e"
  then show "mem_calls (ss_updateEndpoint (MemoryStateStore entropy) t i p) w (Inr (apply_patch p e))
      (put_endpoint (apply_patch p e) (mem_view w))"
    and "\<exists>secret. mem_calls (ss_rotateSecret (MemoryStateStore entropy) t i) w (Inr secret)
      (put_endpoint (rotate secret e) (mem_view w))"
    using mem_updateEndpoint_calls mem_rotateSecret_calls by (simp_all add: mem_store_defs mem_view_def)
next
  fix w q assume "mem_ok w"
  from mem_listDeliveries_calls [OF this] show "\<exists>rows. mem_calls (ss_listDeliveries (MemoryStateStore entropy) q) w (Inr rows) (mem_view w)
    \<and> (\<forall>(m, log) \<in> set rows. msg_tenant m = dq_tenant q \<and> query_matches q m
         \<and> filter (\<lambda>a. att_endpointId a = msg_endpointId m) log
             = v_attempts (mem_view w) (dq_tenant q) (msg_endpointId m, msg_messageId m))"
    by (simp add: mem_store_defs)
next
  fix w ne assume "mem_ok w"
  then show "\<exists>i secret now. mem_calls (ss_createEndpoint (MemoryStateStore entropy) ne) w
         (Inr (\<lparr>ep_endpointId = i, ep_tenant = ne_tenant ne, ep_url = ne_url ne, ep_eventTypes = ne_eventTypes ne,
                ep_description = ne_description ne, ep_disabled = False, ep_rateLimit = ne_rateLimit ne,
                ep_createdAt = now, ep_secrets = [secret]\<rparr>, secret))
         (put_endpoint \<lparr>ep_endpointId = i, ep_tenant = ne_tenant ne, ep_url = ne_url ne, ep_eventTypes = ne_eventTypes ne,
                ep_description = ne_description ne, ep_disabled = False, ep_rateLimit = ne_rateLimit ne,
                ep_createdAt = now, ep_secrets = [secret]\<rparr> (mem_view w))"
    using mem_createEndpoint_calls by (simp add: mem_store_defs)
qed (use mem_read_calls(4) in blast
    | (rule mem_invariants mem_event_calls mem_list_calls mem_missing_calls mem_read_calls mem_write_calls; assumption))+

section \<open>The engine over memory\<close>

definition mem_platform :: "(string \<Rightarrow> url_parts option) \<Rightarrow> (string \<Rightarrow> string) \<Rightarrow> mem_world platform" where
  "mem_platform url_parse sha256_hex =
     \<lparr>pf_date_now = TestClock_now, pf_math_random = seededRng_next, pf_url_parse = url_parse, pf_sha256_hex = sha256_hex\<rparr>"

definition mem_options ::
  "(nat \<Rightarrow> byte list) \<Rightarrow> hmac_sha256 \<Rightarrow> millis list option \<Rightarrow> nat option \<Rightarrow> millis option \<Rightarrow> mem_world engine_options" where
  "mem_options entropy hmac schedule threshold cooldown =
     \<lparr>eo_transport = MemoryTransport, eo_state = MemoryStateStore entropy, eo_scheduler = MemoryScheduler,
      eo_http = MockReceiver, eo_signer = createSigner hmac, eo_telemetry = None, eo_urlPolicy = None,
      eo_clock = Some TestClock_now, eo_rng = Some seededRng_next, eo_scheduleMs = schedule,
      eo_failureThreshold = threshold, eo_cooldownMs = cooldown, eo_maxPayloadBytes = None, eo_timeoutMs = None\<rparr>"

definition mem_engine ::
  "(nat \<Rightarrow> byte list) \<Rightarrow> hmac_sha256 \<Rightarrow> (string \<Rightarrow> url_parts option) \<Rightarrow> (string \<Rightarrow> string) \<Rightarrow>
   millis list option \<Rightarrow> nat option \<Rightarrow> millis option \<Rightarrow> mem_world engine" where
  "mem_engine entropy hmac url_parse sha256_hex schedule threshold cooldown =
     WebhookEngine (mem_platform url_parse sha256_hex) (mem_options entropy hmac schedule threshold cooldown)"

lemma mem_engine_sel [simp]:
  "eng_transport (mem_engine entropy hmac url_parse sha256_hex schedule threshold cooldown) = MemoryTransport" "eng_state (mem_engine entropy hmac url_parse sha256_hex schedule threshold cooldown) = MemoryStateStore entropy" "eng_scheduler (mem_engine entropy hmac url_parse sha256_hex schedule threshold cooldown) = MemoryScheduler"
    "eng_clock (mem_engine entropy hmac url_parse sha256_hex schedule threshold cooldown) = TestClock_now" "eng_rng (mem_engine entropy hmac url_parse sha256_hex schedule threshold cooldown) = seededRng_next" "eng_telemetry (mem_engine entropy hmac url_parse sha256_hex schedule threshold cooldown) = noopTelemetry"
    "eng_sha256_hex (mem_engine entropy hmac url_parse sha256_hex schedule threshold cooldown) = sha256_hex" "eng_maxPayloadBytes (mem_engine entropy hmac url_parse sha256_hex schedule threshold cooldown) = DEFAULT_MAX_PAYLOAD_BYTES"
    "scheduleMs (eng_retry (mem_engine entropy hmac url_parse sha256_hex schedule threshold cooldown)) = (case schedule of Some s \<Rightarrow> s | None \<Rightarrow> DEFAULT_SCHEDULE_MS)"
    "failureThreshold (eng_circuitCfg (mem_engine entropy hmac url_parse sha256_hex schedule threshold cooldown)) = (case threshold of Some n \<Rightarrow> n | None \<Rightarrow> DEFAULT_FAILURE_THRESHOLD)"
    "cooldownMs (eng_circuitCfg (mem_engine entropy hmac url_parse sha256_hex schedule threshold cooldown)) = (case cooldown of Some n \<Rightarrow> n | None \<Rightarrow> DEFAULT_COOLDOWN_MS)"
    "dp_http (eng_deliverPorts (mem_engine entropy hmac url_parse sha256_hex schedule threshold cooldown)) = MockReceiver" "dp_signer (eng_deliverPorts (mem_engine entropy hmac url_parse sha256_hex schedule threshold cooldown)) = createSigner hmac"
    "dp_urlPolicy (eng_deliverPorts (mem_engine entropy hmac url_parse sha256_hex schedule threshold cooldown)) = default_policy_port url_parse" "dp_clock (eng_deliverPorts (mem_engine entropy hmac url_parse sha256_hex schedule threshold cooldown)) = TestClock_now"
  by (simp_all add: mem_engine_def WebhookEngine_def mem_options_def mem_platform_def Let_def)

lemma mem_engine_ports:
  assumes "\<forall>s. schedule = Some s \<longrightarrow> (\<forall>b \<in> set s. 0 \<le> b)" and "\<forall>c. cooldown = Some c \<longrightarrow> 0 \<le> c"
  shows "engine_ports (mem_engine entropy hmac url_parse sha256_hex schedule threshold cooldown)
    (defaultUrlPolicy_check url_parse default_url_options) mem_view mem_sched mem_ok"
proof (intro engine_ports.intro engine_ports_axioms.intro)
  show "clock_port (eng_clock (mem_engine entropy hmac url_parse sha256_hex schedule threshold cooldown)) mem_view mem_sched mem_ok"
    by (simp add: mem_clock.clock_port_axioms)
  show "rng_port (eng_rng (mem_engine entropy hmac url_parse sha256_hex schedule threshold cooldown)) mem_view mem_sched mem_ok"
    by (simp add: mem_rng.rng_port_axioms)
  show "http_port (dp_http (eng_deliverPorts (mem_engine entropy hmac url_parse sha256_hex schedule threshold cooldown)))
      (defaultUrlPolicy_check url_parse default_url_options) mem_view mem_sched mem_ok"
    by (simp add: mem_http.http_port_axioms)
  show "policy_port (dp_urlPolicy (eng_deliverPorts (mem_engine entropy hmac url_parse sha256_hex schedule threshold cooldown)))
      (defaultUrlPolicy_check url_parse default_url_options) mem_view mem_sched mem_ok"
    by (simp add: mem_policy.policy_port_axioms)
  show "telemetry_port (eng_telemetry (mem_engine entropy hmac url_parse sha256_hex schedule threshold cooldown)) mem_view mem_sched mem_ok"
    by (simp add: mem_telemetry.telemetry_port_axioms)
  show "transport_port (eng_transport (mem_engine entropy hmac url_parse sha256_hex schedule threshold cooldown)) mem_view mem_sched mem_ok"
    by (simp add: mem_transport.transport_port_axioms)
  show "scheduler_port (eng_scheduler (mem_engine entropy hmac url_parse sha256_hex schedule threshold cooldown)) mem_view mem_sched mem_ok"
    by (simp add: mem_scheduler.scheduler_port_axioms)
  show "state_store_port (eng_state (mem_engine entropy hmac url_parse sha256_hex schedule threshold cooldown)) mem_view mem_sched mem_ok"
    by (simp add: mem_state.state_store_port_axioms)
qed (use assms in \<open>auto simp: DEFAULT_SCHEDULE_MS_def DEFAULT_COOLDOWN_MS_def split: option.splits\<close>)

text \<open>The engine with the default policy settings.\<close>

interpretation mem: engine_ports "mem_engine entropy hmac url_parse sha256_hex None None None"
  "defaultUrlPolicy_check url_parse default_url_options" mem_view mem_sched mem_ok
  for entropy hmac url_parse sha256_hex
  by (rule mem_engine_ports) simp_all

definition mem_start :: "millis \<Rightarrow> int \<Rightarrow> mem_world" where
  "mem_start now seed =
     \<lparr>mw_now = now, mw_seed = seededRng_seed seed, mw_entropyUsed = 0, mw_endpointCounter = 0, mw_tenants = [],
      mw_queue = [], mw_subscribed = False, mw_pending = [], mw_calls = [], mw_default = ScOk, mw_routes = [],
      mw_counters = []\<rparr>"

lemma mem_ok_start [simp]: "mem_ok (mem_start now seed)"
  by (simp add: mem_ok_def mem_start_def tenant_of_def tenant_ok_def newTenant_def)

section \<open>Draining\<close>

text \<open>Taking the first message off the queue and handling it.\<close>

definition handle_next :: "(message \<Rightarrow> unit mem) \<Rightarrow> message \<Rightarrow> mem_world \<Rightarrow> mem_world" where
  "handle_next handler m w = snd (handler m (w\<lparr>mw_queue := tl (mw_queue w)\<rparr>))"

text \<open>A message that is accounted for, with its retry held by the scheduler where it waits for one.\<close>

definition safe_in :: "message \<Rightarrow> mem_world \<Rightarrow> bool" where
  "safe_in m w \<longleftrightarrow> (\<exists>s. accounted m (mem_view w) s \<and> (\<forall>x. s = Some x \<longrightarrow> x \<in> mem_sched w))"

abbreviation "default_engine entropy hmac url_parse sha \<equiv> mem_engine entropy hmac url_parse sha None None None"

lemma mem_ok_queue [simp]: "mem_ok (w\<lparr>mw_queue := q\<rparr>) = mem_ok w"
  by (simp add: mem_ok_def)

lemma safe_in_queue [simp]: "safe_in m (w\<lparr>mw_queue := q\<rparr>) = safe_in m w"
proof -
  have "mem_view (w\<lparr>mw_queue := q\<rparr>) = (mem_view w)\<lparr>v_queue := q\<rparr>" by (simp add: mem_view_def tenant_of_def)
  moreover have "accounted m (v\<lparr>v_queue := q\<rparr>) s = accounted m v s" for v s
    by (simp add: accounted_def cong: message_status.case_cong)
  ultimately show ?thesis by (simp add: safe_in_def mem_sched_def)
qed

lemma accounted_entry: "accounted m v (Some (m', due)) \<Longrightarrow> msg_tenant m' = msg_tenant m \<and> msg_messageId m' = msg_messageId m"
  unfolding accounted_def by (elim exE conjE) (auto split: message_status.splits)

text \<open>One delivery returns, enqueues nothing, makes its message safe and keeps the others safe.\<close>

lemma mem_process:
  assumes "mem_ok w"
  shows "fst (processMessage (default_engine entropy hmac url_parse sha) m w) = Inr ()"
    and "mem_ok (snd (processMessage (default_engine entropy hmac url_parse sha) m w))"
    and "mw_queue (snd (processMessage (default_engine entropy hmac url_parse sha) m w)) = mw_queue w"
    and "safe_in m (snd (processMessage (default_engine entropy hmac url_parse sha) m w))"
    and "safe_in m' w \<Longrightarrow> (msg_tenant m, msg_messageId m) \<noteq> (msg_tenant m', msg_messageId m') \<Longrightarrow>
      safe_in m' (snd (processMessage (default_engine entropy hmac url_parse sha) m w))"
proof -
  let ?E = "default_engine entropy hmac url_parse sha"
  have "wp (processMessage ?E m) (\<lambda>r w'. r = Inr () \<and> mem_ok w' \<and> mw_queue w' = mw_queue w \<and> safe_in m w') w"
    by (rule mem.wp_processMessage [OF assms])
       (auto dest: delivery_step_isolated delivery_step_accounted simp: only_touches_def mem_view_sel safe_in_def sched_effect_def)
  then show "fst (processMessage ?E m w) = Inr ()" "mem_ok (snd (processMessage ?E m w))"
    "mw_queue (snd (processMessage ?E m w)) = mw_queue w" "safe_in m (snd (processMessage ?E m w))"
    by (simp_all add: wp_def)
  assume safe: "safe_in m' w" and other: "(msg_tenant m, msg_messageId m) \<noteq> (msg_tenant m', msg_messageId m')"
  from safe obtain s where s: "accounted m' (mem_view w) s" "\<forall>x. s = Some x \<longrightarrow> x \<in> mem_sched w"
    by (auto simp: safe_in_def)
  have entry: "x \<in> mem_sched w'" if "s = Some x" and "entries_but m (mem_sched w') = entries_but m (mem_sched w)" for x w'
  proof -
    from that(1) s accounted_entry [of m' "mem_view w" "fst x" "snd x"] other
    have "x \<in> entries_but m (mem_sched w)" by (auto simp: entries_but_def)
    with that(2) show ?thesis by (auto simp: entries_but_def)
  qed
  have "wp (processMessage ?E m) (\<lambda>r w'. safe_in m' w') w"
    by (rule mem.wp_processMessage [OF assms])
       (use s entry accounted_kept [OF s(1) _ other] in \<open>auto simp: safe_in_def sched_effect_def split: option.splits intro!: exI [of _ s]\<close>)
  then show "safe_in m' (snd (processMessage ?E m w))" by (simp add: wp_def)
qed

text \<open>A delivery never enqueues, so a drain handles each queued message once, in order, and stops.\<close>

lemma drain_loop_handles:
  assumes "mem_ok w"
  shows "drain_loop (processMessage (default_engine entropy hmac url_parse sha)) n w
      = Some (Inr (n + length (mw_queue w)), fold (handle_next (processMessage (default_engine entropy hmac url_parse sha))) (mw_queue w) w)"
    and "mw_queue (fold (handle_next (processMessage (default_engine entropy hmac url_parse sha))) (mw_queue w) w) = []"
    and "mem_ok (fold (handle_next (processMessage (default_engine entropy hmac url_parse sha))) (mw_queue w) w)"
proof -
  let ?h = "processMessage (default_engine entropy hmac url_parse sha)"
  have "drain_loop ?h n w = Some (Inr (n + length (mw_queue w)), fold (handle_next ?h) (mw_queue w) w)
      \<and> mw_queue (fold (handle_next ?h) (mw_queue w) w) = [] \<and> mem_ok (fold (handle_next ?h) (mw_queue w) w)"
    using assms
  proof (induction "mw_queue w" arbitrary: w n)
    case Nil
    then show ?case by (subst drain_loop.simps) simp
  next
    case (Cons m rest)
    let ?w = "w\<lparr>mw_queue := rest\<rparr>"
    have next_world: "handle_next ?h m w = snd (?h m ?w)" by (simp add: handle_next_def flip: Cons.hyps(2))
    have step: "fst (?h m ?w) = Inr ()" "mem_ok (snd (?h m ?w))" "mw_queue (snd (?h m ?w)) = rest"
      using mem_process [of ?w] Cons.prems by simp_all
    from Cons.hyps(1) [OF step(3) [symmetric] step(2), of "n + 1"] show ?case
      using step(1,3) by (subst drain_loop.simps) (simp add: next_world flip: Cons.hyps(2))
  qed
  then show "drain_loop ?h n w = Some (Inr (n + length (mw_queue w)), fold (handle_next ?h) (mw_queue w) w)"
    "mw_queue (fold (handle_next ?h) (mw_queue w) w) = []" "mem_ok (fold (handle_next ?h) (mw_queue w) w)"
    by simp_all
qed

lemma handled_safe:
  assumes "mem_ok w" and "distinct (map (\<lambda>m. (msg_tenant m, msg_messageId m)) ms)"
  shows "(m \<in> set ms \<longrightarrow> safe_in m (fold (handle_next (processMessage (default_engine entropy hmac url_parse sha))) ms w))
    \<and> ((msg_tenant m, msg_messageId m) \<notin> (\<lambda>m. (msg_tenant m, msg_messageId m)) ` set ms \<longrightarrow> safe_in m w \<longrightarrow>
        safe_in m (fold (handle_next (processMessage (default_engine entropy hmac url_parse sha))) ms w))"
  using assms
proof (induction ms arbitrary: w)
  case (Cons m1 ms)
  let ?h = "processMessage (default_engine entropy hmac url_parse sha)"
  have "mem_ok (handle_next ?h m1 w)" "safe_in m1 (handle_next ?h m1 w)"
    "safe_in m w \<Longrightarrow> (msg_tenant m1, msg_messageId m1) \<noteq> (msg_tenant m, msg_messageId m) \<Longrightarrow> safe_in m (handle_next ?h m1 w)"
    using Cons.prems(1) by (simp_all add: handle_next_def mem_process)
  with Cons.IH [of "handle_next ?h m1 w"] Cons.prems(2) show ?case by auto
qed simp

end
