(* ===== verification/Core_Portal.thy ===== *)
theory Core_Portal
  imports Core_Send_Spec
begin

text \<open>
  The portal: endpoint management (\<open>packages/core/src/portal/endpoints.ts\<close>), the delivery log and replay
  (\<open>portal/deliveries.ts\<close>), with what each operation does to the view of any store that keeps its contract.
\<close>

section \<open>Endpoints (endpoints.ts)\<close>

record public_endpoint =
  pe_endpointId :: string
  pe_tenant :: string
  pe_url :: string
  pe_eventTypes :: "string list"
  pe_description :: "string option"
  pe_disabled :: bool
  pe_rateLimit :: "rat option"
  pe_createdAt :: millis

definition redact :: "endpoint \<Rightarrow> public_endpoint" where
  "redact e =
     \<lparr>pe_endpointId = ep_endpointId e, pe_tenant = ep_tenant e, pe_url = ep_url e, pe_eventTypes = ep_eventTypes e,
      pe_description = ep_description e, pe_disabled = ep_disabled e, pe_rateLimit = ep_rateLimit e,
      pe_createdAt = ep_createdAt e\<rparr>"

definition endpoints_create :: "'w state_store \<Rightarrow> new_endpoint \<Rightarrow> ('w, string \<times> string) io" where
  "endpoints_create S i = bind_io (ss_createEndpoint S i) (\<lambda>(endpoint, secret). return_io (ep_endpointId endpoint, secret))"

definition endpoints_list :: "'w state_store \<Rightarrow> string \<Rightarrow> ('w, public_endpoint list) io" where
  "endpoints_list S tenant = bind_io (ss_listEndpoints S tenant) (\<lambda>es. return_io (map redact es))"

definition endpoints_get :: "'w state_store \<Rightarrow> string \<Rightarrow> string \<Rightarrow> ('w, public_endpoint option) io" where
  "endpoints_get S tenant endpointId =
     bind_io (ss_getEndpoint S tenant endpointId) (\<lambda>e. return_io (map_option redact e))"

definition endpoints_update :: "'w state_store \<Rightarrow> string \<Rightarrow> string \<Rightarrow> endpoint_patch \<Rightarrow> ('w, public_endpoint) io" where
  "endpoints_update S tenant endpointId patch =
     bind_io (ss_updateEndpoint S tenant endpointId patch) (\<lambda>e. return_io (redact e))"

definition endpoints_rotateSecret :: "'w state_store \<Rightarrow> string \<Rightarrow> string \<Rightarrow> ('w, string) io" where
  "endpoints_rotateSecret S tenant endpointId = ss_rotateSecret S tenant endpointId"

definition endpoints_delete :: "'w state_store \<Rightarrow> string \<Rightarrow> string \<Rightarrow> ('w, unit) io" where
  "endpoints_delete S tenant endpointId = ss_deleteEndpoint S tenant endpointId"

text \<open>The handlers of one store together, as the engine hands them out.\<close>

record 'w endpoint_api =
  ea_create :: "new_endpoint \<Rightarrow> ('w, string \<times> string) io"
  ea_list :: "string \<Rightarrow> ('w, public_endpoint list) io"
  ea_get :: "string \<Rightarrow> string \<Rightarrow> ('w, public_endpoint option) io"
  ea_update :: "string \<Rightarrow> string \<Rightarrow> endpoint_patch \<Rightarrow> ('w, public_endpoint) io"
  ea_rotateSecret :: "string \<Rightarrow> string \<Rightarrow> ('w, string) io"
  ea_delete :: "string \<Rightarrow> string \<Rightarrow> ('w, unit) io"

definition createEndpointApi :: "'w state_store \<Rightarrow> 'w endpoint_api" where
  "createEndpointApi S =
     \<lparr>ea_create = endpoints_create S, ea_list = endpoints_list S, ea_get = endpoints_get S, ea_update = endpoints_update S,
      ea_rotateSecret = endpoints_rotateSecret S, ea_delete = endpoints_delete S\<rparr>"

section \<open>Deliveries and replay (deliveries.ts)\<close>

definition fresh_message :: "message \<Rightarrow> millis \<Rightarrow> message" where
  "fresh_message m now =
     m\<lparr>msg_attemptNo := 0, msg_status := Pending, msg_nextAttemptAt := None, msg_createdAt := now\<rparr>"

definition reenqueue :: "'w engine \<Rightarrow> message \<Rightarrow> ('w, unit) io" where
  "reenqueue E m = bind_io (eng_clock E) (\<lambda>now.
     seq_io (ss_putMessage (eng_state E) (fresh_message m now)) (tr_send (eng_transport E) (fresh_message m now)))"

definition deliveries_list :: "'w engine \<Rightarrow> delivery_query \<Rightarrow> ('w, delivery_record list) io" where
  "deliveries_list E q = ss_listDeliveries (eng_state E) q"

definition tenant_query :: "string \<Rightarrow> delivery_query" where
  "tenant_query tenant =
     \<lparr>dq_tenant = tenant, dq_endpointId = None, dq_eventType = None, dq_status = None, dq_before = None,
      dq_after = None, dq_limit = None\<rparr>"

definition deliveries_get :: "'w engine \<Rightarrow> string \<Rightarrow> string \<Rightarrow> ('w, delivery_record option) io" where
  "deliveries_get E tenant messageId =
     bind_io (ss_listDeliveries (eng_state E) (tenant_query tenant)) (\<lambda>rows.
     return_io (List.find (\<lambda>r. msg_messageId (fst r) = messageId) rows))"

definition deliveries_replay :: "'w engine \<Rightarrow> string \<Rightarrow> string \<Rightarrow> ('w, bool) io" where
  "deliveries_replay E tenant messageId =
     bind_io (ss_getMessage (eng_state E) tenant messageId) (\<lambda>found.
     case found of
       None \<Rightarrow> return_io False
     | Some m \<Rightarrow> seq_io (reenqueue E m) (return_io True))"

definition deliveries_replayEndpoint :: "'w engine \<Rightarrow> string \<Rightarrow> string \<Rightarrow> millis option \<Rightarrow> ('w, nat) io" where
  "deliveries_replayEndpoint E tenant endpointId since =
     bind_io (ss_listDlq (eng_state E) tenant (Some endpointId)) (\<lambda>dead.
     let selected = filter (\<lambda>d. case since of None \<Rightarrow> True | Some t \<Rightarrow> msg_createdAt (fst d) \<ge> t) dead
     in seq_io (for_io selected (\<lambda>d. reenqueue E (fst d))) (return_io (length selected)))"

record 'w delivery_api =
  da_list :: "delivery_query \<Rightarrow> ('w, delivery_record list) io"
  da_get :: "string \<Rightarrow> string \<Rightarrow> ('w, delivery_record option) io"
  da_replay :: "string \<Rightarrow> string \<Rightarrow> ('w, bool) io"
  da_replayEndpoint :: "string \<Rightarrow> string \<Rightarrow> millis option \<Rightarrow> ('w, nat) io"

definition createDeliveryApi :: "'w engine \<Rightarrow> 'w delivery_api" where
  "createDeliveryApi E =
     \<lparr>da_list = deliveries_list E, da_get = deliveries_get E, da_replay = deliveries_replay E,
      da_replayEndpoint = deliveries_replayEndpoint E\<rparr>"

section \<open>What they do\<close>

text \<open>The effect of one replay on the view.\<close>

definition replayed :: "message \<Rightarrow> view \<Rightarrow> view" where
  "replayed m v = push_queue m (put_msg m v)"

context engine_ports
begin

lemma wp_reenqueue:
  assumes "ok w"
    and "\<And>now w'. ok w' \<Longrightarrow> vw w' = replayed (fresh_message m now) (vw w) \<Longrightarrow> sched w' = sched w \<Longrightarrow> Q (Inr ()) w'"
  shows "wp (reenqueue E m) Q w"
  unfolding reenqueue_def
  by (intro wp_intro wp_clock wp_putMessage wp_send assms(1)) (use assms(2) in \<open>auto simp: replayed_def\<close>)

lemma wp_replay:
  assumes "ok w"
    and "\<And>w'. \<forall>m. v_messages (vw w) t i = Some m \<longrightarrow> msg_endpointId m = [] \<Longrightarrow> ok w' \<Longrightarrow> vw w' = vw w \<Longrightarrow> sched w' = sched w \<Longrightarrow>
          Q (Inr False) w'"
    and "\<And>m now w'. v_messages (vw w) t i = Some m \<Longrightarrow> ok w' \<Longrightarrow> vw w' = replayed (fresh_message m now) (vw w) \<Longrightarrow>
          sched w' = sched w \<Longrightarrow> Q (Inr True) w'"
  shows "wp (deliveries_replay E t i) Q w"
proof -
  from getMessage_call [OF assms(1), of t i] obtain r where
    r: "calls ok vw sched (ss_getMessage (eng_state E) t i) w (Inr r) (vw w)"
      "r = v_messages (vw w) t i \<or> r = None \<and> (\<exists>m. v_messages (vw w) t i = Some m \<and> msg_endpointId m = [])"
    by blast
  show ?thesis
    unfolding deliveries_replay_def
    apply (rule wp_bind, rule wp_calls [OF r(1)], rule after_Inr, rule wp_option)
    subgoal by (intro wp_return assms(2)) (use r(2) in auto)
    subgoal for w1 m by (intro wp_seq wp_reenqueue after_Inr wp_return assms(3)) (use r(2) in auto)
    done
qed

text \<open>Replaying a list of messages, each with a creation time of its own.\<close>

lemma wp_reenqueue_all:
  assumes "ok w"
    and "\<And>fs w'. length fs = length ds \<Longrightarrow> \<forall>(f, d) \<in> set (zip fs ds). \<exists>now. f = fresh_message (fst d) now \<Longrightarrow>
          ok w' \<Longrightarrow> vw w' = fold replayed fs (vw w) \<Longrightarrow> sched w' = sched w \<Longrightarrow> Q (Inr ()) w'"
  shows "wp (for_io ds (\<lambda>d. reenqueue E (fst d))) Q w"
  using assms
proof (induction ds arbitrary: w Q)
  case Nil
  then show ?case by (simp add: wp_def)
next
  case (Cons d ds)
  show ?case
    unfolding for_io.simps
  proof (rule wp_seq, rule wp_reenqueue [OF Cons.prems(1)], rule after_Inr, rule Cons.IH)
    fix now w1 fs w2
    assume a: "ok w1" "vw w1 = replayed (fresh_message (fst d) now) (vw w)" "sched w1 = sched w"
      "length fs = length ds" "\<forall>(f, d) \<in> set (zip fs ds). \<exists>now. f = fresh_message (fst d) now"
      "ok w2" "vw w2 = fold replayed fs (vw w1)" "sched w2 = sched w1"
    show "Q (Inr ()) w2"
      by (rule Cons.prems(2) [of "fresh_message (fst d) now # fs"]) (use a in auto)
  qed
qed

lemma wp_replayEndpoint:
  assumes "ok w" and "i \<noteq> []"
    and "\<And>ds fs w'. mset ds = filter_mset (\<lambda>d. case since of None \<Rightarrow> True | Some s \<Rightarrow> msg_createdAt (fst d) \<ge> s) (v_dlq (vw w) t i) \<Longrightarrow>
          length fs = length ds \<Longrightarrow> \<forall>(f, d) \<in> set (zip fs ds). \<exists>now. f = fresh_message (fst d) now \<Longrightarrow>
          ok w' \<Longrightarrow> vw w' = fold replayed fs (vw w) \<Longrightarrow> sched w' = sched w \<Longrightarrow> Q (Inr (length ds)) w'"
  shows "wp (deliveries_replayEndpoint E t i since) Q w"
proof -
  from listDlq_call [OF assms(1,2), of t] obtain rows where
    rows: "mset rows = v_dlq (vw w) t i" "calls ok vw sched (ss_listDlq (eng_state E) t (Some i)) w (Inr rows) (vw w)"
    by blast
  show ?thesis
    unfolding deliveries_replayEndpoint_def Let_def
    apply (rule wp_bind, rule wp_calls [OF rows(2)], rule after_Inr)
    apply (rule wp_seq, rule wp_reenqueue_all, assumption, rule after_Inr, rule wp_return)
    by (rule assms(3)) (auto simp flip: rows(1))
qed

end

end
