(* ===== verification/Core_Router.thy ===== *)
theory Core_Router
  imports Core_Portal
begin

text \<open>
  The HTTP router of \<open>packages/core/src/portal/http.ts\<close>. A request carries what the platform's \<open>Request\<close>
  and \<open>URL\<close> give: method, path, query parameters, headers and the parsed body (or the \<open>SyntaxError\<close> of
  \<open>req.json()\<close>). A body is taken at the types its handler casts it to, a field that is absent is \<open>None\<close>;
  bodies that break those types are outside the model. The text of a number that is no integer is the
  parameter \<open>frac_str\<close>, and of a \<open>TypeError\<close> only the fact is modelled, not the runtime's text.
\<close>

section \<open>Requests and responses\<close>

record request_body =
  bd_type :: "string option"
  bd_payload :: "json option"
  bd_idempotencyKey :: "string option"
  bd_metadata :: "(string \<times> string) list option"
  bd_url :: "string option"
  bd_eventTypes :: "string list option"
  bd_description :: "string option"
  bd_rateLimit :: "rat option"
  bd_disabled :: "bool option"
  bd_tenant :: "string option"
  bd_endpointId :: "string option"

record request =
  rq_method :: string
  rq_pathname :: string
  rq_query :: "string \<Rightarrow> string option"
  rq_header :: "string \<Rightarrow> string option"
  rq_json :: "js_error + request_body"

record response =
  rs_status :: int
  rs_body :: "string option"

definition jsonRes :: "json \<Rightarrow> int \<Rightarrow> response" where
  "jsonRes data status = \<lparr>rs_status = status, rs_body = (if status = 204 then None else Some (stringify data))\<rparr>"

text \<open>An object without its undefined members, which \<open>JSON.stringify\<close> leaves out.\<close>

definition jobj :: "(string \<times> json option) list \<Rightarrow> json" where
  "jobj ms = JObj (List.map_filter (\<lambda>(k, v). map_option (\<lambda>x. (k, x)) v) ms)"

definition num_json :: "(rat \<Rightarrow> string) \<Rightarrow> rat \<Rightarrow> json" where
  "num_json frac_str q = JNum (number_text frac_str q)"

definition error_json :: "string \<Rightarrow> json" where
  "error_json msg = JObj [(''error'', JStr msg)]"

definition public_endpoint_json :: "(rat \<Rightarrow> string) \<Rightarrow> public_endpoint \<Rightarrow> json" where
  "public_endpoint_json frac_str e =
     jobj [(''endpointId'', Some (JStr (pe_endpointId e))), (''tenant'', Some (JStr (pe_tenant e))),
           (''url'', Some (JStr (pe_url e))), (''eventTypes'', Some (JArr (map JStr (pe_eventTypes e)))),
           (''description'', map_option JStr (pe_description e)), (''disabled'', Some (JBool (pe_disabled e))),
           (''rateLimit'', map_option (num_json frac_str) (pe_rateLimit e)),
           (''createdAt'', Some (num_json frac_str (pe_createdAt e)))]"

definition message_json :: "(rat \<Rightarrow> string) \<Rightarrow> message \<Rightarrow> json" where
  "message_json frac_str m =
     jobj [(''messageId'', Some (JStr (msg_messageId m))), (''tenant'', Some (JStr (msg_tenant m))),
           (''endpointId'', Some (JStr (msg_endpointId m))), (''eventId'', Some (JStr (msg_eventId m))),
           (''eventType'', Some (JStr (msg_eventType m))), (''payload'', msg_payload m),
           (''attemptNo'', Some (JNum (int_str (msg_attemptNo m)))), (''status'', Some (JStr (status_text (msg_status m)))),
           (''nextAttemptAt'', map_option (num_json frac_str) (msg_nextAttemptAt m)),
           (''createdAt'', Some (num_json frac_str (msg_createdAt m)))]"

definition attempt_status_json :: "attempt_status \<Rightarrow> json" where
  "attempt_status_json st =
     (case st of HttpStatus n \<Rightarrow> JNum (int_str n) | Timeout \<Rightarrow> JStr ''timeout'' | Network \<Rightarrow> JStr ''network'')"

definition attempt_outcome_text :: "attempt_outcome \<Rightarrow> string" where
  "attempt_outcome_text out =
     (case out of AttDelivered \<Rightarrow> ''delivered'' | AttRetried \<Rightarrow> ''retried'' | AttDead \<Rightarrow> ''dead'')"

definition attempt_json :: "(rat \<Rightarrow> string) \<Rightarrow> attempt \<Rightarrow> json" where
  "attempt_json frac_str a =
     JObj [(''messageId'', JStr (att_messageId a)), (''endpointId'', JStr (att_endpointId a)),
           (''tenant'', JStr (att_tenant a)), (''eventType'', JStr (att_eventType a)),
           (''attemptNo'', JNum (int_str (att_attemptNo a))), (''status'', attempt_status_json (att_status a)),
           (''latencyMs'', num_json frac_str (att_latencyMs a)), (''respSnippet'', JStr (att_respSnippet a)),
           (''ts'', num_json frac_str (att_ts a)), (''outcome'', JStr (attempt_outcome_text (att_outcome a)))]"

definition delivery_json :: "(rat \<Rightarrow> string) \<Rightarrow> delivery_record \<Rightarrow> json" where
  "delivery_json frac_str r =
     JObj [(''message'', message_json frac_str (fst r)), (''attempts'', JArr (map (attempt_json frac_str) (snd r)))]"

definition receipt_json :: "receipt \<Rightarrow> json" where
  "receipt_json r =
     JObj [(''eventId'', JStr (rc_eventId r)), (''accepted'', JBool (rc_accepted r)),
           (''messageCount'', JNum (nat_str (rc_messageCount r)))]"

section \<open>Query parameters\<close>

definition parseLimit :: "string option \<Rightarrow> nat option" where
  "parseLimit raw =
     (case raw of None \<Rightarrow> None
      | Some s \<Rightarrow> if s = [] then None
          else (case js_Number s of
              Fin q \<Rightarrow> if q = rat_of_int \<lfloor>q\<rfloor> \<and> q > 0 then Some (nat \<lfloor>q\<rfloor>) else None
            | _ \<Rightarrow> None))"

definition parseTs :: "string option \<Rightarrow> millis option" where
  "parseTs raw =
     (case raw of None \<Rightarrow> None
      | Some s \<Rightarrow> if s = [] then None else (case js_Number s of Fin q \<Rightarrow> Some q | _ \<Rightarrow> None))"

section \<open>Routes\<close>

definition read_json :: "request \<Rightarrow> ('w, request_body) io" where
  "read_json req = (case rq_json req of Inl e \<Rightarrow> throw_io e | Inr body \<Rightarrow> return_io body)"

definition route_events :: "'w engine \<Rightarrow> request \<Rightarrow> string \<Rightarrow> ('w, response) io" where
  "route_events E req tenant = bind_io (read_json req) (\<lambda>body.
     case bd_type body of
       None \<Rightarrow> throw_io (PortalHttpError 400 ''type is required'')
     | Some ty \<Rightarrow>
         if ty = [] then throw_io (PortalHttpError 400 ''type is required'')
         else bind_io (send E \<lparr>ev_type = ty, ev_tenant = tenant, ev_payload = bd_payload body,
                  ev_idempotencyKey = bd_idempotencyKey body, ev_metadata = bd_metadata body\<rparr>) (\<lambda>receipt.
              return_io (jsonRes (receipt_json receipt) 202)))"

definition route_create :: "'w engine \<Rightarrow> request \<Rightarrow> string \<Rightarrow> ('w, response) io" where
  "route_create E req tenant = bind_io (read_json req) (\<lambda>body.
     case (bd_url body, bd_eventTypes body) of
       (Some url, Some types) \<Rightarrow>
         if url = [] then throw_io (PortalHttpError 400 ''url and eventTypes are required'')
         else bind_io (endpoints_create (eng_state E) \<lparr>ne_tenant = tenant, ne_url = url, ne_eventTypes = types,
                  ne_description = bd_description body, ne_rateLimit = bd_rateLimit body\<rparr>) (\<lambda>created.
              return_io (jsonRes (JObj [(''endpointId'', JStr (fst created)), (''secret'', JStr (snd created))]) 201))
     | _ \<Rightarrow> throw_io (PortalHttpError 400 ''url and eventTypes are required''))"

definition route_list :: "(rat \<Rightarrow> string) \<Rightarrow> 'w engine \<Rightarrow> string \<Rightarrow> ('w, response) io" where
  "route_list frac_str E tenant = bind_io (endpoints_list (eng_state E) tenant) (\<lambda>es.
     return_io (jsonRes (JArr (map (public_endpoint_json frac_str) es)) 200))"

definition route_get :: "(rat \<Rightarrow> string) \<Rightarrow> 'w engine \<Rightarrow> string \<Rightarrow> string \<Rightarrow> ('w, response) io" where
  "route_get frac_str E tenant endpointId = bind_io (endpoints_get (eng_state E) tenant endpointId) (\<lambda>ep.
     case ep of
       None \<Rightarrow> throw_io (PortalHttpError 404 ''endpoint not found'')
     | Some e \<Rightarrow> return_io (jsonRes (public_endpoint_json frac_str e) 200))"

text \<open>\<open>update({ tenant, endpointId, ...body })\<close>: the members of the body come after the tenant and the
  endpoint of the request, and replace them.\<close>

definition route_patch :: "(rat \<Rightarrow> string) \<Rightarrow> 'w engine \<Rightarrow> request \<Rightarrow> string \<Rightarrow> string \<Rightarrow> ('w, response) io" where
  "route_patch frac_str E req tenant endpointId = bind_io (read_json req) (\<lambda>body.
     bind_io (endpoints_update (eng_state E)
         (case bd_tenant body of Some t \<Rightarrow> t | None \<Rightarrow> tenant)
         (case bd_endpointId body of Some i \<Rightarrow> i | None \<Rightarrow> endpointId)
         \<lparr>pa_url = bd_url body, pa_eventTypes = bd_eventTypes body, pa_disabled = bd_disabled body\<rparr>) (\<lambda>e.
     return_io (jsonRes (public_endpoint_json frac_str e) 200)))"

definition route_delete :: "'w engine \<Rightarrow> string \<Rightarrow> string \<Rightarrow> ('w, response) io" where
  "route_delete E tenant endpointId =
     seq_io (endpoints_delete (eng_state E) tenant endpointId)
       (return_io (jsonRes (JObj [(''deleted'', JBool True)]) 200))"

definition route_rotate :: "'w engine \<Rightarrow> string \<Rightarrow> string \<Rightarrow> ('w, response) io" where
  "route_rotate E tenant endpointId = bind_io (endpoints_rotateSecret (eng_state E) tenant endpointId) (\<lambda>secret.
     return_io (jsonRes (JObj [(''secret'', JStr secret)]) 200))"

definition route_replayEndpoint :: "'w engine \<Rightarrow> request \<Rightarrow> string \<Rightarrow> string \<Rightarrow> ('w, response) io" where
  "route_replayEndpoint E req tenant endpointId =
     bind_io (deliveries_replayEndpoint E tenant endpointId (parseTs (rq_query req ''since''))) (\<lambda>n.
     return_io (jsonRes (JObj [(''count'', JNum (nat_str n))]) 202))"

definition route_deliveries :: "(rat \<Rightarrow> string) \<Rightarrow> 'w engine \<Rightarrow> request \<Rightarrow> string \<Rightarrow> ('w, response) io" where
  "route_deliveries frac_str E req tenant =
     bind_io (deliveries_list E \<lparr>dq_tenant = tenant, dq_endpointId = rq_query req ''endpointId'',
         dq_eventType = rq_query req ''eventType'', dq_status = rq_query req ''status'',
         dq_before = parseTs (rq_query req ''before''), dq_after = parseTs (rq_query req ''after''),
         dq_limit = parseLimit (rq_query req ''limit'')\<rparr>) (\<lambda>rows.
     return_io (jsonRes (JArr (map (delivery_json frac_str) rows)) 200))"

definition route_delivery :: "(rat \<Rightarrow> string) \<Rightarrow> 'w engine \<Rightarrow> string \<Rightarrow> string \<Rightarrow> ('w, response) io" where
  "route_delivery frac_str E tenant messageId = bind_io (deliveries_get E tenant messageId) (\<lambda>found.
     case found of
       None \<Rightarrow> throw_io (PortalHttpError 404 ''message not found'')
     | Some r \<Rightarrow> return_io (jsonRes (delivery_json frac_str r) 200))"

definition route_replay :: "'w engine \<Rightarrow> string \<Rightarrow> string \<Rightarrow> ('w, response) io" where
  "route_replay E tenant messageId = bind_io (deliveries_replay E tenant messageId) (\<lambda>done_it.
     return_io (jsonRes (JObj [(''replayed'', JBool done_it)]) (if done_it then 202 else 404)))"

definition not_found :: "('w, response) io" where
  "not_found = return_io (jsonRes (error_json ''not found'') 404)"

text \<open>The routing table, in the order of the source.\<close>

definition route :: "(rat \<Rightarrow> string) \<Rightarrow> 'w engine \<Rightarrow> request \<Rightarrow> string \<Rightarrow> string \<Rightarrow> string list \<Rightarrow> ('w, response) io" where
  "route frac_str E req tenant m segs =
     (case segs of
        [s] \<Rightarrow>
          if s = ''events'' \<and> m = ''POST'' then route_events E req tenant
          else if s = ''endpoints'' \<and> m = ''POST'' then route_create E req tenant
          else if s = ''endpoints'' \<and> m = ''GET'' then route_list frac_str E tenant
          else if s = ''deliveries'' \<and> m = ''GET'' then route_deliveries frac_str E req tenant
          else not_found
      | [s, i] \<Rightarrow>
          if s = ''endpoints'' \<and> m = ''GET'' then route_get frac_str E tenant i
          else if s = ''endpoints'' \<and> m = ''PATCH'' then route_patch frac_str E req tenant i
          else if s = ''endpoints'' \<and> m = ''DELETE'' then route_delete E tenant i
          else if s = ''deliveries'' \<and> m = ''GET'' then route_delivery frac_str E tenant i
          else not_found
      | [s, i, a] \<Rightarrow>
          if s = ''endpoints'' \<and> a = ''rotate-secret'' \<and> m = ''POST'' then route_rotate E tenant i
          else if s = ''endpoints'' \<and> a = ''replay'' \<and> m = ''POST'' then route_replayEndpoint E req tenant i
          else if s = ''deliveries'' \<and> a = ''replay'' \<and> m = ''POST'' then route_replay E tenant i
          else not_found
      | _ \<Rightarrow> not_found)"

section \<open>Errors and the handler\<close>

definition contains :: "string \<Rightarrow> string \<Rightarrow> bool" where
  "contains s p \<longleftrightarrow> list_ex (\<lambda>k. starts_with (drop k s) p) [0..<Suc (length s)]"

fun js_message :: "js_error \<Rightarrow> string" where
  "js_message (Error s) = s"
| "js_message (TypeError s) = s"
| "js_message (SyntaxError s) = s"
| "js_message (PortalHttpError _ s) = s"
| "js_message (WebhookVerificationError s) = s"
| "js_message (CircuitWriteConflictError t i) = ''circuit write conflict for tenant='' @ t @ '' endpointId='' @ i"
| "js_message (ServiceError s) = s"

fun error_response :: "js_error \<Rightarrow> response" where
  "error_response (PortalHttpError status msg) = jsonRes (error_json msg) status"
| "error_response (SyntaxError _) = jsonRes (error_json ''invalid JSON body'') 400"
| "error_response err =
     (let msg = js_message err
      in if contains (to_lower msg) ''not found'' then jsonRes (error_json msg) 404
         else jsonRes (error_json msg) 500)"

record router_options =
  ro_basePath :: "string option"
  ro_resolveTenant :: "(request \<Rightarrow> string option) option"

definition upper_char :: "char \<Rightarrow> char" where
  "upper_char c = (let n = (of_char c :: nat) in if 97 \<le> n \<and> n \<le> 122 then char_of (n - 32) else c)"

definition base_path :: "router_options \<Rightarrow> string" where
  "base_path opts = (case ro_basePath opts of Some b \<Rightarrow> b | None \<Rightarrow> ''/v1'')"

definition resolve_tenant :: "router_options \<Rightarrow> request \<Rightarrow> string option" where
  "resolve_tenant opts req =
     (case ro_resolveTenant opts of Some f \<Rightarrow> f req | None \<Rightarrow> rq_header req ''x-anyhook-tenant'')"

definition path_segments :: "router_options \<Rightarrow> request \<Rightarrow> string list" where
  "path_segments opts req =
     filter (\<lambda>s. s \<noteq> []) (split_on CHR ''/'' (drop (length (base_path opts) + 1) (rq_pathname req)))"

definition handle :: "(rat \<Rightarrow> string) \<Rightarrow> 'w engine \<Rightarrow> router_options \<Rightarrow> request \<Rightarrow> ('w, response) io" where
  "handle frac_str E opts req =
     (if \<not> starts_with (rq_pathname req) (base_path opts @ ''/'') then not_found
      else case resolve_tenant opts req of
          None \<Rightarrow> return_io (jsonRes (error_json ''unauthenticated: missing tenant'') 401)
        | Some tenant \<Rightarrow>
            if tenant = [] then return_io (jsonRes (error_json ''unauthenticated: missing tenant'') 401)
            else catch_io (route frac_str E req tenant (map upper_char (rq_method req)) (path_segments opts req))
                   (\<lambda>err. return_io (error_response err)))"

section \<open>Tenant isolation\<close>

text \<open>What a request of tenant \<open>t\<close> may change: the data of \<open>t\<close>, and the queue by messages of \<open>t\<close>.\<close>

definition tenant_frame :: "string \<Rightarrow> view \<Rightarrow> view \<Rightarrow> bool" where
  "tenant_frame t v v' \<longleftrightarrow>
     (\<forall>t'. t' \<noteq> t \<longrightarrow> v_events v' t' = v_events v t' \<and> v_endpoints v' t' = v_endpoints v t' \<and> v_messages v' t' = v_messages v t'
        \<and> v_attempts v' t' = v_attempts v t' \<and> v_circuits v' t' = v_circuits v t' \<and> v_buckets v' t' = v_buckets v t'
        \<and> v_dlq v' t' = v_dlq v t')
     \<and> v_posts v' = v_posts v
     \<and> (\<exists>ms. v_queue v' = v_queue v @ ms \<and> (\<forall>m \<in> set ms. msg_tenant m = t))"

lemma tenant_frame_refl [simp]: "tenant_frame t v v"
  by (simp add: tenant_frame_def)

lemma tenant_frame_trans: "tenant_frame t v v1 \<Longrightarrow> tenant_frame t v1 v2 \<Longrightarrow> tenant_frame t v v2"
  unfolding tenant_frame_def by auto

lemma tenant_frame_endpoint [simp]:
  "ep_tenant e = t \<Longrightarrow> tenant_frame t v (put_endpoint e v)" "tenant_frame t v (del_endpoint t i v)"
  by (auto simp: tenant_frame_def put_endpoint_def del_endpoint_def upd2_def)

lemma tenant_frame_replayed [simp]: "msg_tenant m = t \<Longrightarrow> tenant_frame t v (replayed m v)"
  by (auto simp: tenant_frame_def replayed_def put_msg_def push_queue_def upd2_def)

lemma tenant_frame_replayed_all: "\<forall>m \<in> set ms. msg_tenant m = t \<Longrightarrow> tenant_frame t v (fold replayed ms v)"
  by (induction ms arbitrary: v) (auto intro: tenant_frame_trans tenant_frame_replayed)

lemma enqueued_replayed: "enqueued = replayed"
  by (auto simp: fun_eq_iff enqueued_def replayed_def)

lemma tenant_frame_event [simp]: "tenant_frame t v (put_event t k x v)"
  by (auto simp: tenant_frame_def put_event_def upd2_def)

lemma tenant_frame_accepted:
  assumes "accepted_as E event v v' ms r"
  shows "tenant_frame (ev_tenant event) v v'"
proof -
  from assms obtain eid now es ids n where ms: "ms = map2 (fanout_message event eid now) es ids"
    and v': "v' = put_event (ev_tenant event) (idem_key E event) n
                (fold replayed ms (put_event (ev_tenant event) (idem_key E event) (eid, 0) v))"
    unfolding accepted_as_def accepted_for_def enqueued_replayed by blast
  have "\<forall>m \<in> set ms. msg_tenant m = ev_tenant event" using map2_fanout_tenant ms by blast
  then have "tenant_frame (ev_tenant event) (put_event (ev_tenant event) (idem_key E event) (eid, 0) v)
      (fold replayed ms (put_event (ev_tenant event) (idem_key E event) (eid, 0) v))"
    by (rule tenant_frame_replayed_all)
  with tenant_frame_event have "tenant_frame (ev_tenant event) v
      (fold replayed ms (put_event (ev_tenant event) (idem_key E event) (eid, 0) v))"
    by (rule tenant_frame_trans)
  then show ?thesis
    unfolding v' by (rule tenant_frame_trans) (rule tenant_frame_event)
qed

text \<open>The body names no other tenant. Only the bodies of PATCH requests need to keep to it.\<close>

definition body_names_no_tenant :: "request \<Rightarrow> string \<Rightarrow> bool" where
  "body_names_no_tenant req t \<longleftrightarrow> (case rq_json req of Inl _ \<Rightarrow> True | Inr b \<Rightarrow> bd_tenant b = None \<or> bd_tenant b = Some t)"

definition patch_names_no_tenant :: "request \<Rightarrow> string \<Rightarrow> bool" where
  "patch_names_no_tenant req t \<longleftrightarrow> (map upper_char (rq_method req) = ''PATCH'' \<longrightarrow> body_names_no_tenant req t)"

text \<open>What the portal shows of an endpoint: all its members but the secrets.\<close>

definition shown_endpoint :: "(rat \<Rightarrow> string) \<Rightarrow> endpoint \<Rightarrow> json" where
  "shown_endpoint frac_str e =
     jobj [(''endpointId'', Some (JStr (ep_endpointId e))), (''tenant'', Some (JStr (ep_tenant e))),
           (''url'', Some (JStr (ep_url e))), (''eventTypes'', Some (JArr (map JStr (ep_eventTypes e)))),
           (''description'', map_option JStr (ep_description e)), (''disabled'', Some (JBool (ep_disabled e))),
           (''rateLimit'', map_option (num_json frac_str) (ep_rateLimit e)),
           (''createdAt'', Some (num_json frac_str (ep_createdAt e)))]"

lemma public_shown: "public_endpoint_json frac_str (redact e) = shown_endpoint frac_str e"
  by (simp add: public_endpoint_json_def redact_def shown_endpoint_def)

text \<open>Two views with the same endpoints, up to their secrets.\<close>

definition same_but_secrets :: "view \<Rightarrow> view \<Rightarrow> bool" where
  "same_but_secrets v v' \<longleftrightarrow>
     (\<forall>t i. map_option (\<lambda>e. e\<lparr>ep_secrets := []\<rparr>) (v_endpoints v t i) = map_option (\<lambda>e. e\<lparr>ep_secrets := []\<rparr>) (v_endpoints v' t i))"

lemma shown_without_secrets [simp]: "shown_endpoint frac_str (e\<lparr>ep_secrets := ss\<rparr>) = shown_endpoint frac_str e"
  by (simp add: shown_endpoint_def)

lemma same_but_secrets_shown:
  assumes "e\<lparr>ep_secrets := []\<rparr> = e'\<lparr>ep_secrets := []\<rparr>"
  shows "shown_endpoint frac_str e = shown_endpoint frac_str e'"
    and "shown_endpoint frac_str (apply_patch p e) = shown_endpoint frac_str (apply_patch p e')"
proof -
  have "e' = e\<lparr>ep_secrets := ep_secrets e'\<rparr>"
    using arg_cong [OF assms, of "ep_secrets_update (\<lambda>_. ep_secrets e')"] by simp
  then obtain ss where e': "e' = e\<lparr>ep_secrets := ss\<rparr>" by blast
  show "shown_endpoint frac_str e = shown_endpoint frac_str e'" by (simp add: e')
  have "apply_patch p e' = (apply_patch p e)\<lparr>ep_secrets := ss\<rparr>" by (simp add: e' apply_patch_def split: option.split)
  then show "shown_endpoint frac_str (apply_patch p e) = shown_endpoint frac_str (apply_patch p e')" by simp
qed

lemma same_but_secrets_cases:
  assumes "same_but_secrets v v'"
  obtains "v_endpoints v t i = None" "v_endpoints v' t i = None"
    | e e' where "v_endpoints v t i = Some e" "v_endpoints v' t i = Some e'" "e\<lparr>ep_secrets := []\<rparr> = e'\<lparr>ep_secrets := []\<rparr>"
proof -
  have "map_option (\<lambda>e. e\<lparr>ep_secrets := []\<rparr>) (v_endpoints v t i) = map_option (\<lambda>e. e\<lparr>ep_secrets := []\<rparr>) (v_endpoints v' t i)"
    using assms by (simp add: same_but_secrets_def)
  with that show thesis by (cases "v_endpoints v t i"; cases "v_endpoints v' t i") simp_all
qed

context engine_ports
begin

text \<open>A route stays inside its tenant whether it returns or throws.\<close>

abbreviation inside :: "string \<Rightarrow> 'w \<Rightarrow> js_error + 'b \<Rightarrow> 'w \<Rightarrow> bool" where
  "inside t w0 \<equiv> (\<lambda>r w'. ok w' \<and> tenant_frame t (vw w0) (vw w') \<and> sched w' = sched w0)"

lemma wp_read_json:
  "ok w \<Longrightarrow> (\<And>body. rq_json req = Inr body \<Longrightarrow> wp (f body) (inside t w) w) \<Longrightarrow> wp (bind_io (read_json req) f) (inside t w) w"
  unfolding read_json_def by (cases "rq_json req") (auto intro!: wp_bind wp_throw wp_return after_Inr after_Inl)

lemma wp_send_inside:
  assumes "ok w"
  shows "wp (send E event) (inside (ev_tenant event) w) w"
proof (cases "acceptable E event")
  case True
  show ?thesis
  proof (cases "v_events (vw w) (ev_tenant event) (idem_key E event)")
    case None
    then show ?thesis
      by (intro wp_send_new [OF assms True]) (auto intro: tenant_frame_accepted)
  next
    case (Some x)
    then show ?thesis by (cases x) (auto intro: wp_send_duplicate [OF assms True])
  qed
next
  case False
  from send_refused [OF this, of w] assms show ?thesis by (auto simp: wp_def)
qed

lemma after_inside:
  "wp m (inside t w) w \<Longrightarrow> wp (bind_io m (\<lambda>x. return_io (f x))) (inside t w) w"
  by (rule wp_bind) (auto simp: wp_def afterf_def split: sum.splits)

lemma inside_events: "ok w \<Longrightarrow> wp (route_events E req t) (inside t w) w"
  unfolding route_events_def
  apply (rule wp_read_json, assumption)
  apply (intro wp_option wp_if wp_throw after_inside)
  using wp_send_inside [where event = "\<lparr>ev_type = _, ev_tenant = t, ev_payload = _, ev_idempotencyKey = _, ev_metadata = _\<rparr>"]
  by (auto simp: wp_def)

lemma wp_createEndpoint:
  assumes "ok w"
    and "\<And>e secret w'. ep_tenant e = ne_tenant ne \<Longrightarrow> ok w' \<Longrightarrow> vw w' = put_endpoint e (vw w) \<Longrightarrow> sched w' = sched w \<Longrightarrow>
          Q (Inr (e, secret)) w'"
  shows "wp (ss_createEndpoint (eng_state E) ne) Q w"
proof -
  from createEndpoint_call [OF assms(1), of ne] obtain e secret where
    "calls ok vw sched (ss_createEndpoint (eng_state E) ne) w (Inr (e, secret)) (put_endpoint e (vw w))" "ep_tenant e = ne_tenant ne"
    by fastforce
  then show ?thesis using assms(2) by (auto simp: calls_def wp_def)
qed

lemma inside_create: "ok w \<Longrightarrow> wp (route_create E req t) (inside t w) w"
  unfolding route_create_def endpoints_create_def
  apply (rule wp_read_json, assumption)
  unfolding prod.case
  apply (intro wp_option wp_if wp_throw wp_bind wp_createEndpoint)
  by (auto intro!: after_Inr wp_bind wp_return)

lemma wp_listDeliveries:
  assumes "ok w"
    and "\<And>rows w'. \<forall>(m, log) \<in> set rows. msg_tenant m = dq_tenant q \<and> query_matches q m \<Longrightarrow>
          ok w' \<Longrightarrow> vw w' = vw w \<Longrightarrow> sched w' = sched w \<Longrightarrow> Q (Inr rows) w'"
  shows "wp (ss_listDeliveries (eng_state E) q) Q w"
proof -
  from listDeliveries_call [OF assms(1), of q] obtain rows where
    "calls ok vw sched (ss_listDeliveries (eng_state E) q) w (Inr rows) (vw w)"
    "\<forall>(m, log) \<in> set rows. msg_tenant m = dq_tenant q \<and> query_matches q m"
    by fast
  then show ?thesis using assms(2) by (auto simp: calls_def wp_def)
qed

lemma inside_list: "ok w \<Longrightarrow> wp (route_list frac_str E t) (inside t w) w"
  unfolding route_list_def endpoints_list_def
  using listEndpoints_call [of w t] by (auto simp: wp_def bind_io_def calls_def)

lemma inside_get: "ok w \<Longrightarrow> wp (route_get frac_str E t i) (inside t w) w"
  unfolding route_get_def endpoints_get_def
  using getEndpoint_call [of w t i] by (auto simp: wp_def bind_io_def calls_def split: option.splits)

lemma inside_patch:
  assumes "ok w" and "body_names_no_tenant req t"
  shows "wp (route_patch frac_str E req t i) (inside t w) w"
  unfolding route_patch_def endpoints_update_def
proof (rule wp_read_json [OF assms(1)])
  fix body assume body: "rq_json req = Inr body"
  with assms(2) have t: "(case bd_tenant body of Some t \<Rightarrow> t | None \<Rightarrow> t) = t"
    by (auto simp: body_names_no_tenant_def split: option.splits)
  let ?i = "case bd_endpointId body of Some i \<Rightarrow> i | None \<Rightarrow> i"
  let ?p = "\<lparr>pa_url = bd_url body, pa_eventTypes = bd_eventTypes body, pa_disabled = bd_disabled body\<rparr>"
  show "wp (bind_io (bind_io (ss_updateEndpoint (eng_state E) (case bd_tenant body of Some t \<Rightarrow> t | None \<Rightarrow> t) ?i ?p)
      (\<lambda>e. return_io (redact e))) (\<lambda>e. return_io (jsonRes (public_endpoint_json frac_str e) 200))) (inside t w) w"
    unfolding t
  proof (cases "v_endpoints (vw w) t ?i")
    case None
    then show "wp (bind_io (bind_io (ss_updateEndpoint (eng_state E) t ?i ?p) (\<lambda>e. return_io (redact e)))
        (\<lambda>e. return_io (jsonRes (public_endpoint_json frac_str e) 200))) (inside t w) w"
      using updateEndpoint_missing [OF assms(1) None, of ?p] by (simp add: wp_def bind_io_def calls_def)
  next
    case (Some e)
    then show "wp (bind_io (bind_io (ss_updateEndpoint (eng_state E) t ?i ?p) (\<lambda>e. return_io (redact e)))
        (\<lambda>e. return_io (jsonRes (public_endpoint_json frac_str e) 200))) (inside t w) w"
      using updateEndpoint_call [OF assms(1) Some, of ?p] endpoint_keys [OF assms(1) Some]
      by (simp add: wp_def bind_io_def calls_def)
  qed
qed

lemma inside_delete: "ok w \<Longrightarrow> wp (route_delete E t i) (inside t w) w"
  unfolding route_delete_def endpoints_delete_def
  using deleteEndpoint_call [of w t i] by (auto simp: wp_def seq_io_def bind_io_def calls_def)

lemma inside_rotate:
  assumes "ok w"
  shows "wp (route_rotate E t i) (inside t w) w"
  unfolding route_rotate_def endpoints_rotateSecret_def
proof (cases "v_endpoints (vw w) t i")
  case None
  from rotateSecret_missing [OF assms this]
  show "wp (bind_io (ss_rotateSecret (eng_state E) t i) (\<lambda>secret. return_io (jsonRes (JObj [(''secret'', JStr secret)]) 200))) (inside t w) w"
    by (simp add: wp_def bind_io_def calls_def)
next
  case (Some e)
  from rotateSecret_call [OF assms this] endpoint_keys [OF assms Some] obtain secret where
    "calls ok vw sched (ss_rotateSecret (eng_state E) t i) w (Inr secret) (put_endpoint (rotate secret e) (vw w))" "ep_tenant e = t"
    by blast
  then show "wp (bind_io (ss_rotateSecret (eng_state E) t i) (\<lambda>secret. return_io (jsonRes (JObj [(''secret'', JStr secret)]) 200))) (inside t w) w"
    by (simp add: wp_def bind_io_def calls_def)
qed

lemma inside_replayEndpoint:
  assumes "ok w" and "i \<noteq> []"
  shows "wp (route_replayEndpoint E req t i) (inside t w) w"
  unfolding route_replayEndpoint_def
proof (rule wp_bind, rule wp_replayEndpoint [OF assms], rule after_Inr, rule wp_return)
  fix ds fs w'
  assume ds: "mset ds = filter_mset (\<lambda>d. case parseTs (rq_query req ''since'') of None \<Rightarrow> True | Some s \<Rightarrow> msg_createdAt (fst d) \<ge> s) (v_dlq (vw w) t i)"
    and fs: "length fs = length ds" "\<forall>(f, d) \<in> set (zip fs ds). \<exists>now. f = fresh_message (fst d) now"
    and w': "ok w'" "vw w' = fold replayed fs (vw w)" "sched w' = sched w"
  have "msg_tenant f = t" if "f \<in> set fs" for f
  proof -
    from that fs(1) obtain d where d: "(f, d) \<in> set (zip fs ds)" by (metis in_set_impl_in_set_zip1)
    with fs(2) have "msg_tenant f = msg_tenant (fst d)" by (auto simp: fresh_message_def)
    moreover have "d \<in># v_dlq (vw w) t i"
      using set_zip_rightD [OF d] ds by (metis filter_mset_eq_conv in_multiset_in_set mset_subset_eqD multiset_filter_subset)
    ultimately show ?thesis using dlq_keys [OF assms(1), of "fst d" "snd d" t i] by simp
  qed
  with w' show "ok w' \<and> tenant_frame t (vw w) (vw w') \<and> sched w' = sched w"
    by (simp add: tenant_frame_replayed_all)
qed

lemma inside_deliveries: "ok w \<Longrightarrow> wp (route_deliveries frac_str E req t) (inside t w) w"
  unfolding route_deliveries_def deliveries_list_def
  by (intro wp_bind wp_listDeliveries after_Inr wp_return) auto

lemma inside_delivery: "ok w \<Longrightarrow> wp (route_delivery frac_str E t i) (inside t w) w"
  unfolding route_delivery_def deliveries_get_def
  by (intro wp_bind wp_listDeliveries after_Inr wp_return wp_option wp_throw) auto

lemma inside_replay:
  assumes "ok w"
  shows "wp (route_replay E t i) (inside t w) w"
  unfolding route_replay_def
proof (rule wp_bind, rule wp_replay [OF assms])
  fix m now w'
  assume "v_messages (vw w) t i = Some m" and w': "ok w'" "vw w' = replayed (fresh_message m now) (vw w)" "sched w' = sched w"
  then have "msg_tenant (fresh_message m now) = t" using message_keys [OF assms] by (auto simp: fresh_message_def)
  with w' show "afterf no_escape (\<lambda>done_it. return_io (jsonRes (JObj [(''replayed'', JBool done_it)]) (if done_it then 202 else 404)))
      (inside t w) (Inr True) w'"
    by (intro after_Inr wp_return) simp
qed (auto intro!: after_Inr wp_return)

lemmas inside_routes = inside_events inside_create inside_list inside_get inside_patch inside_delete inside_rotate
  inside_replayEndpoint inside_deliveries inside_delivery inside_replay

lemma inside_route:
  assumes "ok w" and "m = ''PATCH'' \<Longrightarrow> body_names_no_tenant req t" and "\<forall>s \<in> set segs. s \<noteq> []"
  shows "wp (route frac_str E req t m segs) (inside t w) w"
proof -
  have nf: "wp not_found (inside t w) w" using assms(1) by (simp add: not_found_def wp_def)
  show ?thesis
    unfolding route_def
    by (intro wp_list wp_if nf inside_routes assms(1)) (use assms(2,3) in auto)
qed

text \<open>The handler turns every throw into a response and changes nothing more.\<close>

lemma wp_catch_response:
  "wp m (inside t w) w \<Longrightarrow> wp (catch_io m (\<lambda>err. return_io (error_response err))) (\<lambda>r w'. (\<exists>x. r = Inr x) \<and> inside t w r w') w"
  by (auto simp: wp_def catch_io_def split: sum.splits)

lemma wp_handle_inside:
  assumes "ok w" and "\<And>t. resolve_tenant opts req = Some t \<Longrightarrow> t = tenant \<and> patch_names_no_tenant req t"
  shows "wp (handle frac_str E opts req) (\<lambda>r w'. (\<exists>x. r = Inr x) \<and> inside tenant w r w') w"
proof -
  have "wp (catch_io (route frac_str E req t (map upper_char (rq_method req)) (path_segments opts req)) (\<lambda>err. return_io (error_response err)))
      (\<lambda>r w'. (\<exists>x. r = Inr x) \<and> inside t w r w') w" if "patch_names_no_tenant req t" for t
    by (intro wp_catch_response inside_route assms(1)) (use that in \<open>simp_all add: path_segments_def patch_names_no_tenant_def\<close>)
  then show ?thesis
    unfolding handle_def not_found_def using assms
    by (auto intro!: wp_if wp_option wp_return)
qed

text \<open>Also a PATCH whose body names another tenant keeps the store well formed.\<close>

lemma ok_patch: "ok w \<Longrightarrow> wp (route_patch frac_str E req t i) (\<lambda>r w'. ok w' \<and> sched w' = sched w) w"
proof -
  assume "ok w"
  obtain t' where t': "route_patch frac_str E req t i = route_patch frac_str E req t' i" "body_names_no_tenant req t'"
    by (cases "rq_json req"; cases "bd_tenant (projr (rq_json req))")
       (force simp: route_patch_def read_json_def body_names_no_tenant_def)+
  show ?thesis unfolding t'(1) using inside_patch [OF \<open>ok w\<close> t'(2)] by (rule wp_mono) simp
qed

lemma ok_route:
  assumes "ok w" and "\<forall>s \<in> set segs. s \<noteq> []"
  shows "wp (route frac_str E req t m segs) (\<lambda>r w'. ok w' \<and> sched w' = sched w) w"
proof -
  have weak: "wp f (\<lambda>r w'. ok w' \<and> sched w' = sched w) w" if "wp f (inside t w) w" for f :: "('w, response) io"
    using that by (rule wp_mono) simp
  have nf: "wp not_found (\<lambda>r w'. ok w' \<and> sched w' = sched w) w" using assms(1) by (simp add: not_found_def wp_def)
  show ?thesis
    unfolding route_def
    by (intro wp_list wp_if nf ok_patch inside_routes [THEN weak] assms(1)) (use assms(2) in auto)
qed

lemma wp_handle_ok:
  assumes "ok w"
  shows "wp (handle frac_str E opts req) (\<lambda>r w'. (\<exists>x. r = Inr x) \<and> ok w' \<and> sched w' = sched w) w"
proof -
  have "wp (catch_io (route frac_str E req t m (path_segments opts req)) (\<lambda>err. return_io (error_response err)))
      (\<lambda>r w'. (\<exists>x. r = Inr x) \<and> ok w' \<and> sched w' = sched w) w" for t m
    using ok_route [OF assms, of "path_segments opts req" frac_str req t m]
    by (auto simp: wp_def catch_io_def path_segments_def split: sum.splits)
  then show ?thesis
    unfolding handle_def not_found_def using assms by (auto intro!: wp_if wp_option wp_return)
qed

text \<open>What the routes that show endpoints answer, in terms of the view.\<close>

lemma wp_route_get:
  assumes "ok w"
    and "\<And>w'. vw w' = vw w \<Longrightarrow>
      Q (case v_endpoints (vw w) t i of None \<Rightarrow> Inl (PortalHttpError 404 ''endpoint not found'')
         | Some e \<Rightarrow> Inr (jsonRes (shown_endpoint frac_str e) 200)) w'"
  shows "wp (route_get frac_str E t i) Q w"
  unfolding route_get_def endpoints_get_def
  using getEndpoint_call [OF assms(1), of t i] assms(2)
  by (auto simp: wp_def bind_io_def calls_def public_shown split: option.splits)

lemma wp_route_list:
  assumes "ok w"
    and "\<And>es w'. distinct (map ep_endpointId es) \<Longrightarrow> set es = ran (v_endpoints (vw w) t) \<Longrightarrow> vw w' = vw w \<Longrightarrow>
      Q (Inr (jsonRes (JArr (map (shown_endpoint frac_str) es)) 200)) w'"
  shows "wp (route_list frac_str E t) Q w"
  unfolding route_list_def endpoints_list_def
  using listEndpoints_call [OF assms(1), of t] assms(2)
  by (auto simp: wp_def bind_io_def calls_def public_shown comp_def)

lemma route_patch_result:
  assumes "ok w" and "rq_json req = Inr body"
  shows "fst (route_patch frac_str E req t i w) =
    (let t' = (case bd_tenant body of Some x \<Rightarrow> x | None \<Rightarrow> t); i' = (case bd_endpointId body of Some x \<Rightarrow> x | None \<Rightarrow> i)
     in case v_endpoints (vw w) t' i' of
          None \<Rightarrow> Inl (Error (''endpoint not found: '' @ i'))
        | Some e \<Rightarrow> Inr (jsonRes (shown_endpoint frac_str (apply_patch
            \<lparr>pa_url = bd_url body, pa_eventTypes = bd_eventTypes body, pa_disabled = bd_disabled body\<rparr> e)) 200))"
  using updateEndpoint_missing [OF assms(1)] updateEndpoint_call [OF assms(1)] assms(2)
  by (simp add: route_patch_def read_json_def endpoints_update_def bind_io_def calls_def public_shown Let_def split: option.split)

text \<open>So what they answer does not depend on secrets.\<close>

lemma route_get_hides:
  assumes "ok w" and "ok w'" and "same_but_secrets (vw w) (vw w')"
  shows "fst (route_get frac_str E t i w) = fst (route_get frac_str E t i w')"
proof -
  have get: "fst (route_get frac_str E t i u) = (case v_endpoints (vw u) t i of None \<Rightarrow> Inl (PortalHttpError 404 ''endpoint not found'')
      | Some e \<Rightarrow> Inr (jsonRes (shown_endpoint frac_str e) 200))" if "ok u" for u
    using wp_route_get [OF that, where Q = "\<lambda>r _. r = (case v_endpoints (vw u) t i of None \<Rightarrow> Inl (PortalHttpError 404 ''endpoint not found'')
      | Some e \<Rightarrow> Inr (jsonRes (shown_endpoint frac_str e) 200))" and t = t and i = i and frac_str = frac_str] by (simp add: wp_def)
  show ?thesis
  proof (cases rule: same_but_secrets_cases [OF assms(3), of t i])
    case (2 e e')
    then show ?thesis by (simp add: get assms(1,2) same_but_secrets_shown(1) [OF 2(3)])
  qed (simp add: get assms(1,2))
qed

lemma route_patch_hides:
  assumes "ok w" and "ok w'" and "same_but_secrets (vw w) (vw w')"
  shows "fst (route_patch frac_str E req t i w) = fst (route_patch frac_str E req t i w')"
proof (cases "rq_json req")
  case (Inr body)
  let ?t = "case bd_tenant body of Some x \<Rightarrow> x | None \<Rightarrow> t" and ?i = "case bd_endpointId body of Some x \<Rightarrow> x | None \<Rightarrow> i"
  note result = route_patch_result [OF assms(1) Inr] route_patch_result [OF assms(2) Inr]
  show ?thesis
  proof (cases rule: same_but_secrets_cases [OF assms(3), of ?t ?i])
    case 1
    then show ?thesis unfolding result by (simp add: Let_def)
  next
    case (2 e e')
    then show ?thesis unfolding result by (simp add: Let_def same_but_secrets_shown(2) [OF 2(3)])
  qed
qed (simp add: route_patch_def read_json_def bind_io_def throw_io_def)

lemma ran_but_secrets:
  assumes "same_but_secrets v v'"
  shows "(\<lambda>e. e\<lparr>ep_secrets := []\<rparr>) ` ran (v_endpoints v t) \<subseteq> (\<lambda>e. e\<lparr>ep_secrets := []\<rparr>) ` ran (v_endpoints v' t)"
proof
  fix x assume "x \<in> (\<lambda>e. e\<lparr>ep_secrets := []\<rparr>) ` ran (v_endpoints v t)"
  then obtain e i where "x = e\<lparr>ep_secrets := []\<rparr>" "v_endpoints v t i = Some e" by (auto simp: ran_def)
  then show "x \<in> (\<lambda>e. e\<lparr>ep_secrets := []\<rparr>) ` ran (v_endpoints v' t)"
    by (cases rule: same_but_secrets_cases [OF assms, of t i]) (auto simp: ran_def)
qed

lemma route_list_hides:
  assumes "ok w" and "ok w'" and "same_but_secrets (vw w) (vw w')"
  shows "\<exists>ps ps'. fst (route_list frac_str E t w) = Inr (jsonRes (JArr ps) 200)
    \<and> fst (route_list frac_str E t w') = Inr (jsonRes (JArr ps') 200) \<and> mset ps = mset ps'"
proof -
  let ?hide = "\<lambda>e. e\<lparr>ep_secrets := []\<rparr>"
  have listed: "\<exists>es. distinct (map ep_endpointId es) \<and> set es = ran (v_endpoints (vw u) t)
      \<and> fst (route_list frac_str E t u) = Inr (jsonRes (JArr (map (shown_endpoint frac_str) es)) 200)" if "ok u" for u
    using wp_route_list [OF that, where t = t and frac_str = frac_str and Q = "\<lambda>r _. \<exists>es. distinct (map ep_endpointId es) \<and> set es = ran (v_endpoints (vw u) t)
      \<and> r = Inr (jsonRes (JArr (map (shown_endpoint frac_str) es)) 200)"] by (auto simp: wp_def)
  from listed [OF assms(1)] listed [OF assms(2)] obtain es es' where
    es: "distinct (map ep_endpointId es)" "set es = ran (v_endpoints (vw w) t)"
      "fst (route_list frac_str E t w) = Inr (jsonRes (JArr (map (shown_endpoint frac_str) es)) 200)" and
    es': "distinct (map ep_endpointId es')" "set es' = ran (v_endpoints (vw w') t)"
      "fst (route_list frac_str E t w') = Inr (jsonRes (JArr (map (shown_endpoint frac_str) es')) 200)"
    by blast
  have dist: "distinct (map ?hide xs)" if "distinct (map ep_endpointId xs)" for xs
    using that by (auto simp: distinct_map inj_on_def dest: arg_cong [of _ _ ep_endpointId])
  have "same_but_secrets (vw w') (vw w)" using assms(3) by (simp add: same_but_secrets_def)
  with assms(3) have "set (map ?hide es) = set (map ?hide es')"
    using ran_but_secrets [of "vw w" "vw w'" t] ran_but_secrets [of "vw w'" "vw w" t] es(2) es'(2) by auto
  then have "mset (map ?hide es) = mset (map ?hide es')"
    using dist [OF es(1)] dist [OF es'(1)] by (simp only: set_eq_iff_mset_eq_distinct)
  then have "image_mset (shown_endpoint frac_str) (mset (map ?hide es)) = image_mset (shown_endpoint frac_str) (mset (map ?hide es'))"
    by simp
  then have "mset (map (shown_endpoint frac_str) es) = mset (map (shown_endpoint frac_str) es')"
    by (simp add: multiset.map_comp comp_def)
  with es(3) es'(3) show ?thesis by blast
qed

end

text \<open>The path of one resource below the base path.\<close>

lemma path_segments_resource:
  assumes "rq_pathname req = base_path opts @ ''/'' @ s @ ''/'' @ i" and "CHR ''/'' \<notin> set s" and "CHR ''/'' \<notin> set i"
    and "s \<noteq> []" and "i \<noteq> []"
  shows "path_segments opts req = [s, i]" and "starts_with (rq_pathname req) (base_path opts @ ''/'')"
proof -
  have "split_on CHR ''/'' (s @ CHR ''/'' # i) = [s, i]"
    using assms(2,3) by (simp add: split_on_append_sep split_on_no_sep)
  then show "path_segments opts req = [s, i]"
    using assms(1,4,5) by (simp add: path_segments_def)
  show "starts_with (rq_pathname req) (base_path opts @ ''/'')"
    using assms(1) starts_with_append [of "base_path opts @ ''/''"] by simp
qed

lemma path_segments_action:
  assumes "rq_pathname req = base_path opts @ ''/'' @ s @ ''/'' @ i @ ''/'' @ a" and "CHR ''/'' \<notin> set s" and "CHR ''/'' \<notin> set i"
    and "CHR ''/'' \<notin> set a" and "s \<noteq> []" and "i \<noteq> []" and "a \<noteq> []"
  shows "path_segments opts req = [s, i, a]" and "starts_with (rq_pathname req) (base_path opts @ ''/'')"
proof -
  have "split_on CHR ''/'' (s @ CHR ''/'' # i @ CHR ''/'' # a) = [s, i, a]"
    using assms(2-4) by (simp add: split_on_append_sep split_on_no_sep)
  then show "path_segments opts req = [s, i, a]"
    using assms(1,5-7) by (simp add: path_segments_def)
  show "starts_with (rq_pathname req) (base_path opts @ ''/'')"
    using assms(1) starts_with_append [of "base_path opts @ ''/''"] by simp
qed

lemma path_segments_collection:
  assumes "rq_pathname req = base_path opts @ ''/'' @ s" and "CHR ''/'' \<notin> set s" and "s \<noteq> []"
  shows "path_segments opts req = [s]" and "starts_with (rq_pathname req) (base_path opts @ ''/'')"
  using assms starts_with_append [of "base_path opts @ ''/''"] by (simp_all add: path_segments_def split_on_no_sep)

end
