(* ===== verification/Key_Order.thy ===== *)
theory Key_Order
  imports Js_Values "HOL-Library.List_Lexorder" "HOL-Library.Char_ord"
begin

text \<open>
  Keys in the order of a key-value store: numbers padded to a fixed width sort as numbers, so that entries
  whose key carries a growing sequence number are listed in the order in which they were added.
\<close>

section \<open>Padded numbers\<close>

lemma of_digits_Cons: "of_digits b (c # s) = the (digit_val c) * b ^ length s + of_digits b s"
proof -
  have gen: "foldl (\<lambda>acc c. acc * b + the (digit_val c)) n s = n * b ^ length s + foldl (\<lambda>acc c. acc * b + the (digit_val c)) 0 s" for n
  proof (induction s rule: rev_induct)
    case (snoc x xs)
    show ?case unfolding foldl_append foldl.simps snoc.IH by (simp add: algebra_simps)
  qed simp
  show ?thesis using gen [of "the (digit_val c)"] by (simp add: of_digits_def)
qed

lemma of_digits_less:
  "\<forall>c \<in> set s. is_digit_in b c \<Longrightarrow> of_digits b s < b ^ length s"
proof (induction s)
  case Nil
  then show ?case by (simp add: of_digits_def)
next
  case (Cons c s)
  then have d: "the (digit_val c) < b" by (auto simp: is_digit_in_def split: option.splits)
  have "the (digit_val c) * b ^ length s + of_digits b s < (the (digit_val c) + 1) * b ^ length s"
    using Cons by simp
  also have "\<dots> \<le> b * b ^ length s" using d by (intro mult_le_mono1) simp
  finally show ?case by (simp add: of_digits_Cons)
qed

lemma digit_order:
  assumes "is_digit_in 10 c" and "is_digit_in 10 d" and "the (digit_val c) < the (digit_val d)"
  shows "c < d"
  using assms by (auto simp: is_digit_in_def digit_val_def Let_def less_char_def split: option.splits if_splits)

lemma digit_inj:
  assumes "is_digit_in 10 c" and "is_digit_in 10 d" and "the (digit_val c) = the (digit_val d)"
  shows "c = d"
proof -
  define a b where "a = (of_char c :: nat)" and "b = (of_char d :: nat)"
  have "a = b"
    using assms unfolding is_digit_in_def digit_val_def Let_def a_def [symmetric] b_def [symmetric]
    by (auto split: option.splits if_splits)
  then show ?thesis by (simp add: a_def b_def)
qed

lemma digits_order:
  "length s = length s' \<Longrightarrow> \<forall>c \<in> set s \<union> set s'. is_digit_in 10 c \<Longrightarrow> of_digits 10 s < of_digits 10 s' \<Longrightarrow> s < s'"
proof (induction s s' rule: list_induct2)
  case Nil
  then show ?case by (simp add: of_digits_def)
next
  case (Cons c s c' s')
  note less = of_digits_less [of s 10] of_digits_less [of s' 10]
  consider "the (digit_val c) < the (digit_val c')" | "the (digit_val c) = the (digit_val c')" | "the (digit_val c) > the (digit_val c')"
    by linarith
  then show ?case
  proof cases
    case 1
    then have "c < c'" by (rule digit_order [rotated 2]) (use Cons.prems in auto)
    then show ?thesis by simp
  next
    case 2
    have "c = c'" by (rule digit_inj [OF _ _ 2]) (use Cons.prems in auto)
    moreover have "of_digits 10 s < of_digits 10 s'" using Cons.prems(2) Cons.hyps 2 by (simp add: of_digits_Cons)
    ultimately show ?thesis using Cons by simp
  next
    case 3
    have "of_digits 10 s' < 10 ^ length s" using less(2) Cons.prems(1) Cons.hyps by simp
    then have "the (digit_val c') * 10 ^ length s + of_digits 10 s' < (the (digit_val c') + 1) * 10 ^ length s" by simp
    also have "\<dots> \<le> the (digit_val c) * 10 ^ length s" using 3 by (intro mult_le_mono1) simp
    finally have "of_digits 10 (c' # s') \<le> of_digits 10 (c # s)" by (simp add: of_digits_Cons Cons.hyps)
    with Cons.prems(2) show ?thesis by simp
  qed
qed

lemma length_pad: "0 < k \<Longrightarrow> n < 10 ^ k \<Longrightarrow> length (pad_zeros k (nat_str n)) = k"
  using length_to_radix [of k n] by (simp add: pad_zeros_def nat_str_def)

lemma of_digits_pad: "of_digits 10 (pad_zeros n s) = of_digits 10 s"
proof -
  have "foldl (\<lambda>acc c. acc * 10 + the (digit_val c)) 0 (replicate k CHR ''0'') = 0" for k :: nat
    by (induction k) (simp_all add: digit_val_def)
  then show ?thesis by (simp add: of_digits_def pad_zeros_def)
qed

lemma pad_digits: "c \<in> set (pad_zeros k (nat_str n)) \<Longrightarrow> is_digit_in 10 c"
  using nat_str_digits by (auto simp: pad_zeros_def is_digit_in_def digit_val_def)

lemma append_less: "length s = length s' \<Longrightarrow> s < s' \<Longrightarrow> s @ r < s' @ r'"
  by (induction s s' rule: list_induct2) auto

lemma append_less_same [simp]: "p @ s < p @ s' \<longleftrightarrow> (s :: string) < s'"
  by (induction p) auto

lemma pad_zeros_less:
  assumes "m < n" and "n < 10 ^ k" and "0 < k"
  shows "pad_zeros k (nat_str m) @ r < pad_zeros k (nat_str n) @ r'"
proof (rule append_less)
  show "length (pad_zeros k (nat_str m)) = length (pad_zeros k (nat_str n))" using assms by (simp add: length_pad)
  then show "pad_zeros k (nat_str m) < pad_zeros k (nat_str n)"
    by (rule digits_order) (use assms(1) pad_digits in \<open>auto simp: of_digits_pad\<close>)
qed

section \<open>Listing in the order of keys\<close>

lemma sort_key_greatest:
  assumes "\<forall>x \<in> set xs. f x < f y"
  shows "sort_key f (xs @ [y]) = sort_key f xs @ [y]"
proof (rule properties_for_sort_key)
  show "sorted (map f (sort_key f xs @ [y]))" using assms by (auto simp: sorted_append less_imp_le)
  show "filter (\<lambda>x. f k = f x) (sort_key f xs @ [y]) = filter (\<lambda>x. f k = f x) (xs @ [y])" for k
  proof -
    have eq: "(\<lambda>x. f k = f x) = (\<lambda>x. f x = f k)" by auto
    show ?thesis unfolding eq by (simp add: sort_key_stable)
  qed
qed simp

lemma alist_update_new: "map_of m k = None \<Longrightarrow> AList.update k v m = m @ [(k, v)]"
  by (induction m) (auto split: if_splits)

end
