(* ===== verification/Fetch_Client.thy ===== *)
theory Fetch_Client
  imports Core_Engine
begin

text \<open>
  The HTTP client over \<open>fetch\<close> (\<open>http-fetch.ts\<close>), which the Cloudflare and the AWS package both have: the URL
  policy is checked once more before the request, redirects are not followed, time-outs and transport
  errors become values. The \<open>fetch\<close> of the runtime is an argument.
\<close>

text \<open>
  \<open>fetch\<close> resolves with a response, of which the client reads type, status, body (\<open>None\<close> when
  \<open>res.text()\<close> rejects) and headers, or rejects with an error, of which it reads the name.
\<close>

record fetch_response =
  fr_type :: string
  fr_status :: int
  fr_text :: "string option"
  fr_headers :: "(string \<times> string) list"

datatype fetch_result = FetchOk fetch_response | FetchError string

text \<open>Header names are lowered one by one, a later one replaces an earlier.\<close>

definition fetch_headers :: "(string \<times> string) list \<Rightarrow> (string \<times> string) list" where
  "fetch_headers hs = foldl (\<lambda>acc (k, v). AList.update (to_lower k) v acc) [] hs"

definition fetch_answer :: "nat \<Rightarrow> fetch_result \<Rightarrow> http_result" where
  "fetch_answer snippetLimit res =
     (case res of
        FetchError name \<Rightarrow> if name = ''TimeoutError'' \<or> name = ''AbortError'' then HttpTimeout else HttpNetwork
      | FetchOk r \<Rightarrow>
          if fr_type r = ''opaqueredirect'' \<or> fr_status r = 0 \<and> fr_type r \<noteq> ''error''
          then HttpResponse 302 [] (Some [])
          else HttpResponse (fr_status r) (take snippetLimit (case fr_text r of Some s \<Rightarrow> s | None \<Rightarrow> []))
                 (Some (fetch_headers (fr_headers r))))"

definition fetch_post ::
  "(string \<Rightarrow> string \<Rightarrow> (string \<times> string) list \<Rightarrow> millis \<Rightarrow> ('w, fetch_result) io) \<Rightarrow> 'w url_policy option \<Rightarrow> nat option \<Rightarrow>
   string \<Rightarrow> string \<Rightarrow> (string \<times> string) list \<Rightarrow> millis \<Rightarrow> ('w, http_result) io" where
  "fetch_post fetch policy snippetLimit url body headers timeoutMs =
     (let go = bind_io (fetch url body headers timeoutMs) (\<lambda>res.
                 return_io (fetch_answer (case snippetLimit of Some n \<Rightarrow> n | None \<Rightarrow> 2048) res))
      in case policy of
           None \<Rightarrow> go
         | Some p \<Rightarrow> bind_io (policy_check p url) (\<lambda>check.
             if \<not> pr_allowed check then return_io HttpNetwork else go))"

definition createFetchHttpClient ::
  "(string \<Rightarrow> string \<Rightarrow> (string \<times> string) list \<Rightarrow> millis \<Rightarrow> ('w, fetch_result) io) \<Rightarrow> 'w url_policy option \<Rightarrow> nat option \<Rightarrow> 'w http_client" where
  "createFetchHttpClient fetch policy snippetLimit = \<lparr>http_post = fetch_post fetch policy snippetLimit\<rparr>"

end
