(* ===== verification/Cf_Objects.thy ===== *)
theory Cf_Objects
  imports Core_Router Signing Key_Order Fetch_Client
begin

text \<open>
  The two Durable Object classes of \<open>packages/cloudflare/src\<close>: one object per tenant
  (\<open>tenant-do.ts\<close>) and one per endpoint (\<open>endpoint-do.ts\<close>), over the key-value storage and the alarm
  the platform gives to every object. A method runs in the context of its object: the storage, the
  alarm, and the host, whose state is a type of its own. What the platform provides (\<open>Date.now\<close>,
  \<open>crypto\<close>, \<open>fetch\<close>, the queue and its driver) is the record \<open>cf_platform\<close>, an argument of every
  definition that uses it. The storage itself is written out, with the documented behaviour of its \<open>get\<close>,
  \<open>put\<close>, \<open>delete\<close> and \<open>list\<close> as long as a key and a value are within the limits of the platform: a call that
  the platform refuses for the size of a value is not modelled.
\<close>

section \<open>Names (env.ts)\<close>

definition endpointDoName :: "string \<Rightarrow> string \<Rightarrow> string" where
  "endpointDoName tenant endpointId = nat_str (length tenant) @ '':'' @ tenant @ '':'' @ endpointId"

section \<open>Storage\<close>

text \<open>The values the objects store. A typed read \<open>get<T>(key)\<close> is a read followed by the projection to its type.\<close>

datatype do_value =
    DoEndpoint endpoint
  | DoEvent string nat
  | DoText string
  | DoMessage message
  | DoAttempts "attempt list"
  | DoDlq dlq_row
  | DoCircuit circuit_record
  | DoRate rate_bucket
  | DoNum nat

fun as_endpoint :: "do_value \<Rightarrow> endpoint option" where
  "as_endpoint (DoEndpoint e) = Some e"
| "as_endpoint _ = None"

fun as_event :: "do_value \<Rightarrow> (string \<times> nat) option" where
  "as_event (DoEvent e n) = Some (e, n)"
| "as_event _ = None"

fun as_text :: "do_value \<Rightarrow> string option" where
  "as_text (DoText s) = Some s"
| "as_text _ = None"

fun as_message :: "do_value \<Rightarrow> message option" where
  "as_message (DoMessage m) = Some m"
| "as_message _ = None"

fun as_attempts :: "do_value \<Rightarrow> attempt list option" where
  "as_attempts (DoAttempts l) = Some l"
| "as_attempts _ = None"

fun as_dlq :: "do_value \<Rightarrow> dlq_row option" where
  "as_dlq (DoDlq r) = Some r"
| "as_dlq _ = None"

fun as_circuit :: "do_value \<Rightarrow> circuit_record option" where
  "as_circuit (DoCircuit c) = Some c"
| "as_circuit _ = None"

fun as_rate :: "do_value \<Rightarrow> rate_bucket option" where
  "as_rate (DoRate b) = Some b"
| "as_rate _ = None"

fun as_num :: "do_value \<Rightarrow> nat option" where
  "as_num (DoNum n) = Some n"
| "as_num _ = None"

type_synonym storage = "(string, do_value) jsmap"

definition read_as :: "(do_value \<Rightarrow> 'a option) \<Rightarrow> storage \<Rightarrow> string \<Rightarrow> 'a option" where
  "read_as p st k = Option.bind (map_of st k) p"

text \<open>\<open>storage.list({ prefix })\<close>: the entries whose key has the prefix, in the order of their keys.\<close>

definition listing :: "(do_value \<Rightarrow> 'a option) \<Rightarrow> string \<Rightarrow> storage \<Rightarrow> (string \<times> 'a) list" where
  "listing p prefix st =
     List.map_filter (\<lambda>(k, v). map_option (Pair k) (p v)) (sort_key fst (filter (\<lambda>kv. starts_with (fst kv) prefix) st))"

text \<open>The context of a method: \<open>this.ctx.storage\<close> with its alarm, and the host.\<close>

record 'h do_ctx =
  dc_storage :: storage
  dc_alarm :: "millis option"
  dc_host :: 'h

definition storage_get :: "(do_value \<Rightarrow> 'a option) \<Rightarrow> string \<Rightarrow> ('h do_ctx, 'a option) io" where
  "storage_get p k c = (Inr (read_as p (dc_storage c) k), c)"

definition storage_put :: "string \<Rightarrow> do_value \<Rightarrow> ('h do_ctx, unit) io" where
  "storage_put k v c = (Inr (), c\<lparr>dc_storage := AList.update k v (dc_storage c)\<rparr>)"

definition storage_delete :: "string \<Rightarrow> ('h do_ctx, unit) io" where
  "storage_delete k c = (Inr (), c\<lparr>dc_storage := AList.delete k (dc_storage c)\<rparr>)"

definition storage_list :: "(do_value \<Rightarrow> 'a option) \<Rightarrow> string \<Rightarrow> ('h do_ctx, (string \<times> 'a) list) io" where
  "storage_list p prefix c = (Inr (listing p prefix (dc_storage c)), c)"

definition getAlarm :: "('h do_ctx, millis option) io" where
  "getAlarm c = (Inr (dc_alarm c), c)"

definition setAlarm :: "millis \<Rightarrow> ('h do_ctx, unit) io" where
  "setAlarm t c = (Inr (), c\<lparr>dc_alarm := Some t\<rparr>)"

definition on_host :: "('h, 'a) io \<Rightarrow> ('h do_ctx, 'a) io" where
  "on_host m c = (fst (m (dc_host c)), c\<lparr>dc_host := snd (m (dc_host c))\<rparr>)"

section \<open>The platform\<close>

text \<open>
  \<open>pl_num_str\<close> and \<open>pl_num_read\<close> are the text of a number and \<open>Number\<close> of such a text: the rationals of
  the model include numbers that no double equals, so the text of a fraction is left to the platform.
\<close>

record 'h cf_platform =
  pl_date_now :: "('h, millis) io"
  pl_math_random :: "('h, rat) io"
  pl_randomUUID :: "('h, string) io"
  pl_randomValues :: "('h, byte list) io"
  pl_fetch :: "string \<Rightarrow> string \<Rightarrow> (string \<times> string) list \<Rightarrow> millis \<Rightarrow> ('h, fetch_result) io"
  pl_queue_send :: "message \<Rightarrow> ('h, unit) io"
  pl_producer_connect :: "('h, unit) io"
  pl_producer_publish :: "message \<Rightarrow> ('h, unit) io"
  pl_consumer_connect :: "('h, unit) io"
  pl_num_str :: "rat \<Rightarrow> string"
  pl_num_read :: "string \<Rightarrow> rat"

section \<open>The tenant object (tenant-do.ts)\<close>

definition ENDPOINT_PREFIX :: string where "ENDPOINT_PREFIX = ''ep:''"
definition EVENT_PREFIX :: string where "EVENT_PREFIX = ''evt:''"
definition MSG_INDEX_PREFIX :: string where "MSG_INDEX_PREFIX = ''msgidx:''"

definition tdo_createEndpoint :: "'h cf_platform \<Rightarrow> new_endpoint \<Rightarrow> ('h do_ctx, endpoint \<times> string) io" where
  "tdo_createEndpoint P e =
     bind_io (on_host (pl_randomValues P)) (\<lambda>random.
     let secret = generateSecret random
     in bind_io (on_host (pl_randomUUID P)) (\<lambda>uuid.
        bind_io (on_host (pl_date_now P)) (\<lambda>now.
        let endpoint =
              \<lparr>ep_endpointId = uuid, ep_tenant = ne_tenant e, ep_url = ne_url e, ep_eventTypes = ne_eventTypes e,
               ep_description = ne_description e, ep_disabled = False, ep_rateLimit = ne_rateLimit e,
               ep_createdAt = now, ep_secrets = [secret]\<rparr>
        in seq_io (storage_put (ENDPOINT_PREFIX @ ep_endpointId endpoint) (DoEndpoint endpoint))
           (return_io (endpoint, secret)))))"

definition tdo_getEndpoint :: "string \<Rightarrow> ('h do_ctx, endpoint option) io" where
  "tdo_getEndpoint endpointId = storage_get as_endpoint (ENDPOINT_PREFIX @ endpointId)"

definition tdo_listEndpoints :: "('h do_ctx, endpoint list) io" where
  "tdo_listEndpoints = bind_io (storage_list as_endpoint ENDPOINT_PREFIX) (\<lambda>rows. return_io (map snd rows))"

definition tdo_matchEndpoints :: "string \<Rightarrow> ('h do_ctx, endpoint list) io" where
  "tdo_matchEndpoints eventType =
     bind_io tdo_listEndpoints (\<lambda>all. return_io (filter (\<lambda>e. subscribes e eventType) all))"

definition tdo_updateEndpoint :: "string \<Rightarrow> endpoint_patch \<Rightarrow> ('h do_ctx, endpoint) io" where
  "tdo_updateEndpoint endpointId patch = bind_io (tdo_getEndpoint endpointId) (\<lambda>found.
     case found of
       None \<Rightarrow> throw_io (Error (''endpoint not found: '' @ endpointId))
     | Some existing \<Rightarrow>
         (let updated = existing\<lparr>
                ep_url := (case pa_url patch of Some u \<Rightarrow> u | None \<Rightarrow> ep_url existing),
                ep_eventTypes := (case pa_eventTypes patch of Some ts \<Rightarrow> ts | None \<Rightarrow> ep_eventTypes existing),
                ep_disabled := (case pa_disabled patch of Some x \<Rightarrow> x | None \<Rightarrow> ep_disabled existing)\<rparr>
          in seq_io (storage_put (ENDPOINT_PREFIX @ endpointId) (DoEndpoint updated)) (return_io updated)))"

definition tdo_rotateSecret :: "'h cf_platform \<Rightarrow> string \<Rightarrow> ('h do_ctx, string) io" where
  "tdo_rotateSecret P endpointId = bind_io (tdo_getEndpoint endpointId) (\<lambda>found.
     case found of
       None \<Rightarrow> throw_io (Error (''endpoint not found: '' @ endpointId))
     | Some existing \<Rightarrow>
         bind_io (on_host (pl_randomValues P)) (\<lambda>random.
         let secret = generateSecret random
         in seq_io (storage_put (ENDPOINT_PREFIX @ endpointId)
              (DoEndpoint (existing\<lparr>ep_secrets := [secret, hd (ep_secrets existing)]\<rparr>)))
            (return_io secret)))"

definition tdo_deleteEndpoint :: "string \<Rightarrow> ('h do_ctx, unit) io" where
  "tdo_deleteEndpoint endpointId = storage_delete (ENDPOINT_PREFIX @ endpointId)"

definition tdo_recordEvent :: "string \<Rightarrow> string \<Rightarrow> ('h do_ctx, record_result) io" where
  "tdo_recordEvent eventId idemKey =
     bind_io (storage_get as_event (EVENT_PREFIX @ idemKey)) (\<lambda>existing.
     case existing of
       Some r \<Rightarrow> return_io \<lparr>rr_isNew = False, rr_eventId = fst r, rr_messageCount = snd r\<rparr>
     | None \<Rightarrow>
         seq_io (storage_put (EVENT_PREFIX @ idemKey) (DoEvent eventId 0))
           (return_io \<lparr>rr_isNew = True, rr_eventId = eventId, rr_messageCount = 0\<rparr>))"

definition tdo_finalizeEvent :: "string \<Rightarrow> string \<Rightarrow> nat \<Rightarrow> ('h do_ctx, unit) io" where
  "tdo_finalizeEvent idemKey eventId messageCount =
     storage_put (EVENT_PREFIX @ idemKey) (DoEvent eventId messageCount)"

definition tdo_registerMessage :: "string \<Rightarrow> string \<Rightarrow> ('h do_ctx, unit) io" where
  "tdo_registerMessage messageId endpointId = storage_put (MSG_INDEX_PREFIX @ messageId) (DoText endpointId)"

definition tdo_lookupMessageEndpoint :: "string \<Rightarrow> ('h do_ctx, string option) io" where
  "tdo_lookupMessageEndpoint messageId = storage_get as_text (MSG_INDEX_PREFIX @ messageId)"

section \<open>The endpoint object (endpoint-do.ts)\<close>

definition MESSAGE_PREFIX :: string where "MESSAGE_PREFIX = ''msg:''"
definition ATTEMPT_PREFIX :: string where "ATTEMPT_PREFIX = ''att:''"
definition DLQ_PREFIX :: string where "DLQ_PREFIX = ''dlq:''"
definition SCHED_PREFIX :: string where "SCHED_PREFIX = ''sched:''"
definition CIRCUIT_KEY :: string where "CIRCUIT_KEY = ''circuit''"
definition RATE_KEY :: string where "RATE_KEY = ''rate''"
definition DLQ_SEQ_KEY :: string where "DLQ_SEQ_KEY = ''dlqSeq''"

definition schedKey :: "(rat \<Rightarrow> string) \<Rightarrow> millis \<Rightarrow> string \<Rightarrow> string" where
  "schedKey num_str t messageId = SCHED_PREFIX @ num_str t @ '':'' @ messageId"

text \<open>\<open>rest.slice(0, rest.indexOf(':'))\<close>; without a colon the index is \<open>-1\<close>, which cuts the last character.\<close>

definition upto_colon :: "string \<Rightarrow> string" where
  "upto_colon rest = (if CHR '':'' \<in> set rest then takeWhile (\<lambda>c. c \<noteq> CHR '':'') rest else butlast rest)"

definition parseSchedAt :: "(string \<Rightarrow> rat) \<Rightarrow> string \<Rightarrow> millis" where
  "parseSchedAt num_read key = num_read (upto_colon (drop (length SCHED_PREFIX) key))"

definition edo_putMessage :: "message \<Rightarrow> ('h do_ctx, unit) io" where
  "edo_putMessage m = storage_put (MESSAGE_PREFIX @ msg_messageId m) (DoMessage m)"

definition edo_getMessage :: "string \<Rightarrow> ('h do_ctx, message option) io" where
  "edo_getMessage messageId = storage_get as_message (MESSAGE_PREFIX @ messageId)"

definition edo_appendAttempt :: "attempt \<Rightarrow> ('h do_ctx, unit) io" where
  "edo_appendAttempt a =
     bind_io (storage_get as_attempts (ATTEMPT_PREFIX @ att_messageId a)) (\<lambda>stored.
     storage_put (ATTEMPT_PREFIX @ att_messageId a)
       (DoAttempts ((case stored of Some l \<Rightarrow> l | None \<Rightarrow> []) @ [a])))"

text \<open>\<open>if (q.eventType)\<close> and \<open>if (q.status)\<close> skip an empty string.\<close>

definition when_text :: "string option \<Rightarrow> (message \<Rightarrow> string) \<Rightarrow> message list \<Rightarrow> message list" where
  "when_text want field rows =
     (case want of None \<Rightarrow> rows | Some x \<Rightarrow> if x = [] then rows else filter (\<lambda>m. field m = x) rows)"

definition edo_select :: "delivery_query \<Rightarrow> message list \<Rightarrow> message list" where
  "edo_select q rows =
     (let r1 = when_text (dq_eventType q) msg_eventType rows;
          r2 = when_text (dq_status q) (\<lambda>m. status_text (msg_status m)) r1;
          r3 = (case dq_before q of None \<Rightarrow> r2 | Some b \<Rightarrow> filter (\<lambda>m. msg_createdAt m < b) r2);
          r4 = (case dq_after q of None \<Rightarrow> r3 | Some a \<Rightarrow> filter (\<lambda>m. msg_createdAt m > a) r3);
          r5 = sort_desc msg_createdAt r4
      in case dq_limit q of None \<Rightarrow> r5 | Some n \<Rightarrow> take n r5)"

definition edo_listDeliveries :: "delivery_query \<Rightarrow> ('h do_ctx, delivery_record list) io" where
  "edo_listDeliveries q =
     bind_io (storage_list as_message MESSAGE_PREFIX) (\<lambda>all.
     map_io (\<lambda>m. bind_io (storage_get as_attempts (ATTEMPT_PREFIX @ msg_messageId m)) (\<lambda>attempts.
               return_io (m, case attempts of Some l \<Rightarrow> l | None \<Rightarrow> [])))
       (edo_select q (map snd all)))"

definition edo_getCircuit :: "('h do_ctx, circuit_record) io" where
  "edo_getCircuit = bind_io (storage_get as_circuit CIRCUIT_KEY) (\<lambda>found.
     return_io (case found of Some c \<Rightarrow> c | None \<Rightarrow> initialCircuit DEFAULT_COOLDOWN_MS))"

definition edo_putCircuit :: "circuit_record \<Rightarrow> ('h do_ctx, unit) io" where
  "edo_putCircuit rec = storage_put CIRCUIT_KEY (DoCircuit rec)"

definition edo_getRateBucket :: "('h do_ctx, rate_bucket option) io" where
  "edo_getRateBucket = storage_get as_rate RATE_KEY"

definition edo_putRateBucket :: "rate_bucket \<Rightarrow> ('h do_ctx, unit) io" where
  "edo_putRateBucket bucket = storage_put RATE_KEY (DoRate bucket)"

definition dlqKey :: "nat \<Rightarrow> string \<Rightarrow> string" where
  "dlqKey seq messageId = DLQ_PREFIX @ pad_zeros 16 (nat_str seq) @ '':'' @ messageId"

definition edo_addToDlq :: "message \<Rightarrow> dlq_reason \<Rightarrow> ('h do_ctx, unit) io" where
  "edo_addToDlq m reason =
     bind_io (storage_get as_num DLQ_SEQ_KEY) (\<lambda>stored.
     let seq = (case stored of Some n \<Rightarrow> n | None \<Rightarrow> 0) + 1
     in seq_io (storage_put DLQ_SEQ_KEY (DoNum seq))
        (storage_put (dlqKey seq (msg_messageId m)) (DoDlq (m, reason))))"

definition edo_listDlq :: "string option \<Rightarrow> ('h do_ctx, dlq_row list) io" where
  "edo_listDlq endpointId =
     bind_io (storage_list as_dlq DLQ_PREFIX) (\<lambda>all.
     let rows = map snd all
     in return_io (case endpointId of None \<Rightarrow> rows
          | Some i \<Rightarrow> if i = [] then rows else filter (\<lambda>r. msg_endpointId (fst r) = i) rows))"

subsection \<open>The schedule\<close>

definition edo_scheduleRetry :: "'h cf_platform \<Rightarrow> message \<Rightarrow> millis \<Rightarrow> ('h do_ctx, unit) io" where
  "edo_scheduleRetry P m t =
     seq_io (storage_put (schedKey (pl_num_str P) t (msg_messageId m)) (DoMessage m))
     (bind_io getAlarm (\<lambda>currentAlarm.
      case currentAlarm of
        None \<Rightarrow> setAlarm t
      | Some a \<Rightarrow> if t < a then setAlarm t else return_io ()))"

text \<open>One round of the loop that splits the scheduled messages into the due ones and the earliest of the rest.\<close>

definition scan_step ::
  "(string \<Rightarrow> rat) \<Rightarrow> millis \<Rightarrow> (string \<times> message) list \<times> millis option \<Rightarrow> string \<times> message \<Rightarrow>
   (string \<times> message) list \<times> millis option" where
  "scan_step num_read now acc km =
     (let t = parseSchedAt num_read (fst km)
      in if t \<le> now then (fst acc @ [km], snd acc)
         else (fst acc, case snd acc of None \<Rightarrow> Some t | Some e \<Rightarrow> if t < e then Some t else Some e))"

text \<open>Send, then delete: an entry whose send throws is still there.\<close>

definition release_due :: "'h cf_platform \<Rightarrow> string \<times> message \<Rightarrow> ('h do_ctx, unit) io" where
  "release_due P km = seq_io (on_host (pl_queue_send P (snd km))) (storage_delete (fst km))"

definition processDueSchedules :: "'h cf_platform \<Rightarrow> ('h do_ctx, nat) io" where
  "processDueSchedules P =
     bind_io (on_host (pl_date_now P)) (\<lambda>now.
     bind_io (storage_list as_message SCHED_PREFIX) (\<lambda>all.
     let split = foldl (scan_step (pl_num_read P) now) ([], None) all
     in seq_io (for_io (fst split) (release_due P))
        (seq_io (case snd split of Some t \<Rightarrow> setAlarm t | None \<Rightarrow> return_io ())
        (return_io (length (fst split))))))"

definition alarm :: "'h cf_platform \<Rightarrow> ('h do_ctx, unit) io" where
  "alarm P = bind_io (processDueSchedules P) (\<lambda>_. return_io ())"

end
