(* ===== verification/Cf_Adapter.thy ===== *)
theory Cf_Adapter
  imports Cf_Objects
begin

text \<open>
  The Cloudflare adapter of \<open>packages/cloudflare/src\<close>: the world of all Durable Objects, the state store
  that routes each call to the object of its tenant or endpoint (\<open>state-do.ts\<close>), the alarm scheduler, the
  fetch client, the queue transport, and the Worker that builds the engine from them. A call of a stub
  runs the method in the context of the named object and writes its storage and alarm back; the object of
  a name is unique (\<open>idFromName\<close>), and one that was never touched is empty.
\<close>

section \<open>The world\<close>

record do_object =
  ob_storage :: storage
  ob_alarm :: "millis option"

record 'h cf_world =
  cw_tenants :: "(string, do_object) jsmap"
  cw_endpoints :: "(string, do_object) jsmap"
  cw_producerConnected :: bool
  cw_host :: 'h

definition object_of :: "(string, do_object) jsmap \<Rightarrow> string \<Rightarrow> do_object" where
  "object_of objs name = (case map_of objs name of Some x \<Rightarrow> x | None \<Rightarrow> \<lparr>ob_storage = [], ob_alarm = None\<rparr>)"

definition ctx_of :: "do_object \<Rightarrow> 'h \<Rightarrow> 'h do_ctx" where
  "ctx_of x h = \<lparr>dc_storage = ob_storage x, dc_alarm = ob_alarm x, dc_host = h\<rparr>"

definition object_in :: "'h do_ctx \<Rightarrow> do_object" where
  "object_in c = \<lparr>ob_storage = dc_storage c, ob_alarm = dc_alarm c\<rparr>"

definition tenantStub :: "string \<Rightarrow> ('h do_ctx, 'a) io \<Rightarrow> ('h cf_world, 'a) io" where
  "tenantStub tenant f w =
     (let r = f (ctx_of (object_of (cw_tenants w) tenant) (cw_host w))
      in (fst r, w\<lparr>cw_tenants := AList.update tenant (object_in (snd r)) (cw_tenants w), cw_host := dc_host (snd r)\<rparr>))"

definition endpointStub :: "string \<Rightarrow> string \<Rightarrow> ('h do_ctx, 'a) io \<Rightarrow> ('h cf_world, 'a) io" where
  "endpointStub tenant endpointId f w =
     (let name = endpointDoName tenant endpointId;
          r = f (ctx_of (object_of (cw_endpoints w) name) (cw_host w))
      in (fst r, w\<lparr>cw_endpoints := AList.update name (object_in (snd r)) (cw_endpoints w), cw_host := dc_host (snd r)\<rparr>))"

definition in_host :: "('h, 'a) io \<Rightarrow> ('h cf_world, 'a) io" where
  "in_host f w = (fst (f (cw_host w)), w\<lparr>cw_host := snd (f (cw_host w))\<rparr>)"

section \<open>The state store (state-do.ts)\<close>

definition do_recordEvent :: "string \<Rightarrow> string \<Rightarrow> string \<Rightarrow> ('h cf_world, record_result) io" where
  "do_recordEvent tenant eventId idemKey = tenantStub tenant (tdo_recordEvent eventId idemKey)"

definition do_finalizeEvent :: "string \<Rightarrow> string \<Rightarrow> string \<Rightarrow> nat \<Rightarrow> ('h cf_world, unit) io" where
  "do_finalizeEvent tenant idemKey eventId messageCount = tenantStub tenant (tdo_finalizeEvent idemKey eventId messageCount)"

definition do_createEndpoint :: "'h cf_platform \<Rightarrow> new_endpoint \<Rightarrow> ('h cf_world, endpoint \<times> string) io" where
  "do_createEndpoint P e = tenantStub (ne_tenant e) (tdo_createEndpoint P e)"

definition do_getEndpoint :: "string \<Rightarrow> string \<Rightarrow> ('h cf_world, endpoint option) io" where
  "do_getEndpoint tenant endpointId = tenantStub tenant (tdo_getEndpoint endpointId)"

definition do_listEndpoints :: "string \<Rightarrow> ('h cf_world, endpoint list) io" where
  "do_listEndpoints tenant = tenantStub tenant tdo_listEndpoints"

definition do_matchEndpoints :: "string \<Rightarrow> string \<Rightarrow> ('h cf_world, endpoint list) io" where
  "do_matchEndpoints tenant eventType = tenantStub tenant (tdo_matchEndpoints eventType)"

definition do_updateEndpoint :: "string \<Rightarrow> string \<Rightarrow> endpoint_patch \<Rightarrow> ('h cf_world, endpoint) io" where
  "do_updateEndpoint tenant endpointId patch = tenantStub tenant (tdo_updateEndpoint endpointId patch)"

definition do_rotateSecret :: "'h cf_platform \<Rightarrow> string \<Rightarrow> string \<Rightarrow> ('h cf_world, string) io" where
  "do_rotateSecret P tenant endpointId = tenantStub tenant (tdo_rotateSecret P endpointId)"

definition do_deleteEndpoint :: "string \<Rightarrow> string \<Rightarrow> ('h cf_world, unit) io" where
  "do_deleteEndpoint tenant endpointId = tenantStub tenant (tdo_deleteEndpoint endpointId)"

definition do_putMessage :: "message \<Rightarrow> ('h cf_world, unit) io" where
  "do_putMessage m =
     seq_io (endpointStub (msg_tenant m) (msg_endpointId m) (edo_putMessage m))
       (tenantStub (msg_tenant m) (tdo_registerMessage (msg_messageId m) (msg_endpointId m)))"

definition do_getMessage :: "string \<Rightarrow> string \<Rightarrow> ('h cf_world, message option) io" where
  "do_getMessage tenant messageId =
     bind_io (tenantStub tenant (tdo_lookupMessageEndpoint messageId)) (\<lambda>found.
     case found of
       None \<Rightarrow> return_io None
     | Some endpointId \<Rightarrow>
         if endpointId = [] then return_io None
         else endpointStub tenant endpointId (edo_getMessage messageId))"

definition do_appendAttempt :: "attempt \<Rightarrow> ('h cf_world, unit) io" where
  "do_appendAttempt a = endpointStub (att_tenant a) (att_endpointId a) (edo_appendAttempt a)"

text \<open>The calls of \<open>Promise.all\<close> only read, each its own object, so their order does not matter.\<close>

definition do_listAllDeliveries :: "delivery_query \<Rightarrow> ('h cf_world, delivery_record list) io" where
  "do_listAllDeliveries q =
     bind_io (tenantStub (dq_tenant q) tdo_listEndpoints) (\<lambda>endpoints.
     bind_io (map_io (\<lambda>e. endpointStub (dq_tenant q) (ep_endpointId e) (edo_listDeliveries q)) endpoints) (\<lambda>perEndpoint.
     let rows = sort_desc (\<lambda>r. msg_createdAt (fst r)) (concat perEndpoint)
     in return_io (case dq_limit q of None \<Rightarrow> rows | Some n \<Rightarrow> take n rows)))"

definition do_listDeliveries :: "delivery_query \<Rightarrow> ('h cf_world, delivery_record list) io" where
  "do_listDeliveries q =
     (case dq_endpointId q of
        None \<Rightarrow> do_listAllDeliveries q
      | Some i \<Rightarrow> if i = [] then do_listAllDeliveries q else endpointStub (dq_tenant q) i (edo_listDeliveries q))"

definition do_getCircuit :: "string \<Rightarrow> string \<Rightarrow> ('h cf_world, circuit_record) io" where
  "do_getCircuit tenant endpointId = endpointStub tenant endpointId edo_getCircuit"

definition do_putCircuit :: "string \<Rightarrow> string \<Rightarrow> circuit_record \<Rightarrow> ('h cf_world, unit) io" where
  "do_putCircuit tenant endpointId rec = endpointStub tenant endpointId (edo_putCircuit rec)"

definition do_getRateBucket :: "string \<Rightarrow> string \<Rightarrow> ('h cf_world, rate_bucket option) io" where
  "do_getRateBucket tenant endpointId = endpointStub tenant endpointId edo_getRateBucket"

definition do_putRateBucket :: "string \<Rightarrow> string \<Rightarrow> rate_bucket \<Rightarrow> ('h cf_world, unit) io" where
  "do_putRateBucket tenant endpointId bucket = endpointStub tenant endpointId (edo_putRateBucket bucket)"

definition do_addToDlq :: "message \<Rightarrow> dlq_reason \<Rightarrow> ('h cf_world, unit) io" where
  "do_addToDlq m reason = endpointStub (msg_tenant m) (msg_endpointId m) (edo_addToDlq m reason)"

definition do_listAllDlq :: "string \<Rightarrow> ('h cf_world, dlq_row list) io" where
  "do_listAllDlq tenant =
     bind_io (tenantStub tenant tdo_listEndpoints) (\<lambda>endpoints.
     bind_io (map_io (\<lambda>e. endpointStub tenant (ep_endpointId e) (edo_listDlq None)) endpoints) (\<lambda>perEndpoint.
     return_io (concat perEndpoint)))"

definition do_listDlq :: "string \<Rightarrow> string option \<Rightarrow> ('h cf_world, dlq_row list) io" where
  "do_listDlq tenant endpointId =
     (case endpointId of
        None \<Rightarrow> do_listAllDlq tenant
      | Some i \<Rightarrow> if i = [] then do_listAllDlq tenant else endpointStub tenant i (edo_listDlq None))"

definition DoStateStore :: "'h cf_platform \<Rightarrow> 'h cf_world state_store" where
  "DoStateStore P =
     \<lparr>ss_recordEvent = do_recordEvent, ss_finalizeEvent = do_finalizeEvent,
      ss_createEndpoint = do_createEndpoint P, ss_getEndpoint = do_getEndpoint,
      ss_listEndpoints = do_listEndpoints, ss_matchEndpoints = do_matchEndpoints,
      ss_updateEndpoint = do_updateEndpoint, ss_rotateSecret = do_rotateSecret P,
      ss_deleteEndpoint = do_deleteEndpoint, ss_putMessage = do_putMessage, ss_getMessage = do_getMessage,
      ss_appendAttempt = do_appendAttempt, ss_listDeliveries = do_listDeliveries,
      ss_getCircuit = do_getCircuit, ss_putCircuit = do_putCircuit, ss_getRateBucket = do_getRateBucket,
      ss_putRateBucket = do_putRateBucket, ss_addToDlq = do_addToDlq, ss_listDlq = do_listDlq\<rparr>"

section \<open>Scheduler, HTTP client, transport\<close>

definition do_scheduleRetry :: "'h cf_platform \<Rightarrow> message \<Rightarrow> millis \<Rightarrow> ('h cf_world, unit) io" where
  "do_scheduleRetry P m t = endpointStub (msg_tenant m) (msg_endpointId m) (edo_scheduleRetry P m t)"

definition DoScheduler :: "'h cf_platform \<Rightarrow> 'h cf_world scheduler" where
  "DoScheduler P = \<lparr>sch_scheduleRetry = do_scheduleRetry P\<rparr>"

definition cf_fetch :: "'h cf_platform \<Rightarrow> string \<Rightarrow> string \<Rightarrow> (string \<times> string) list \<Rightarrow> millis \<Rightarrow> ('h cf_world, fetch_result) io" where
  "cf_fetch P url body headers timeoutMs = in_host (pl_fetch P url body headers timeoutMs)"

text \<open>\<open>CfQueuesTransport\<close>: the producer is connected on the first send. The handler of \<open>subscribe\<close> is what
  \<open>dispatchBatch\<close> hands to the driver.\<close>

definition cfq_send :: "'h cf_platform \<Rightarrow> message \<Rightarrow> ('h cf_world, unit) io" where
  "cfq_send P m w =
     seq_io (if \<not> cw_producerConnected w
             then seq_io (in_host (pl_producer_connect P)) (\<lambda>w'. (Inr (), w'\<lparr>cw_producerConnected := True\<rparr>))
             else return_io ())
       (in_host (pl_producer_publish P m)) w"

definition cfq_subscribe :: "'h cf_platform \<Rightarrow> (message \<Rightarrow> ('h cf_world, unit) io) \<Rightarrow> ('h cf_world, unit) io" where
  "cfq_subscribe P handler = in_host (pl_consumer_connect P)"

definition CfQueuesTransport :: "'h cf_platform \<Rightarrow> 'h cf_world transport" where
  "CfQueuesTransport P = \<lparr>tr_send = cfq_send P, tr_subscribe = cfq_subscribe P\<rparr>"

section \<open>Adapter and Worker\<close>

record 'h cf_adapter =
  ca_transport :: "'h cf_world transport"
  ca_state :: "'h cf_world state_store"
  ca_scheduler :: "'h cf_world scheduler"
  ca_http :: "'h cf_world http_client"

definition createAdapter :: "'h cf_platform \<Rightarrow> (string \<Rightarrow> url_parts option) \<Rightarrow> 'h cf_world url_policy option \<Rightarrow> 'h cf_adapter" where
  "createAdapter P url_parse policy =
     (let urlPolicy = (case policy of Some p \<Rightarrow> p | None \<Rightarrow> default_policy_port url_parse)
      in \<lparr>ca_transport = CfQueuesTransport P, ca_state = DoStateStore P, ca_scheduler = DoScheduler P,
          ca_http = createFetchHttpClient (cf_fetch P) (Some urlPolicy) None\<rparr>)"

definition cf_globals :: "'h cf_platform \<Rightarrow> (string \<Rightarrow> url_parts option) \<Rightarrow> (string \<Rightarrow> string) \<Rightarrow> 'h cf_world platform" where
  "cf_globals P url_parse sha256_hex =
     \<lparr>pf_date_now = in_host (pl_date_now P), pf_math_random = in_host (pl_math_random P),
      pf_url_parse = url_parse, pf_sha256_hex = sha256_hex\<rparr>"

text \<open>\<open>buildEngine\<close> (worker.ts): every option but the ports and the signer at its default. A new transport is
  not connected yet.\<close>

definition cf_engine ::
  "'h cf_platform \<Rightarrow> hmac_sha256 \<Rightarrow> (string \<Rightarrow> url_parts option) \<Rightarrow> (string \<Rightarrow> string) \<Rightarrow> 'h cf_world engine" where
  "cf_engine P hmac url_parse sha256_hex =
     (let adapter = createAdapter P url_parse None
      in WebhookEngine (cf_globals P url_parse sha256_hex)
           \<lparr>eo_transport = ca_transport adapter, eo_state = ca_state adapter, eo_scheduler = ca_scheduler adapter,
            eo_http = ca_http adapter, eo_signer = createSigner hmac, eo_telemetry = None, eo_urlPolicy = None,
            eo_clock = None, eo_rng = None, eo_scheduleMs = None, eo_failureThreshold = None, eo_cooldownMs = None,
            eo_maxPayloadBytes = None, eo_timeoutMs = None\<rparr>)"

definition new_transport :: "('h cf_world, unit) io" where
  "new_transport w = (Inr (), w\<lparr>cw_producerConnected := False\<rparr>)"

definition worker_fetch ::
  "'h cf_platform \<Rightarrow> hmac_sha256 \<Rightarrow> (string \<Rightarrow> url_parts option) \<Rightarrow> (string \<Rightarrow> string) \<Rightarrow> (rat \<Rightarrow> string) \<Rightarrow>
   request \<Rightarrow> ('h cf_world, response) io" where
  "worker_fetch P hmac url_parse sha256_hex frac_str req =
     seq_io new_transport
       (handle frac_str (cf_engine P hmac url_parse sha256_hex) \<lparr>ro_basePath = None, ro_resolveTenant = None\<rparr> req)"

text \<open>\<open>dispatchBatch\<close>: \<open>process_batch\<close> is the driver's \<open>processBatch\<close>, given the subscribed handler.\<close>

definition cfq_dispatchBatch ::
  "((message \<Rightarrow> ('h cf_world, unit) io) \<Rightarrow> message list \<Rightarrow> ('h cf_world, unit) io) \<Rightarrow>
   (message \<Rightarrow> ('h cf_world, unit) io) \<Rightarrow> message list \<Rightarrow> ('h cf_world, unit) io" where
  "cfq_dispatchBatch process_batch handler batch = process_batch handler batch"

definition worker_queue ::
  "'h cf_platform \<Rightarrow> hmac_sha256 \<Rightarrow> (string \<Rightarrow> url_parts option) \<Rightarrow> (string \<Rightarrow> string) \<Rightarrow>
   ((message \<Rightarrow> ('h cf_world, unit) io) \<Rightarrow> message list \<Rightarrow> ('h cf_world, unit) io) \<Rightarrow>
   message list \<Rightarrow> ('h cf_world, unit) io" where
  "worker_queue P hmac url_parse sha256_hex process_batch batch =
     seq_io new_transport
     (seq_io (tr_subscribe (ca_transport (createAdapter P url_parse None)) (processMessage (cf_engine P hmac url_parse sha256_hex)))
        (cfq_dispatchBatch process_batch (processMessage (cf_engine P hmac url_parse sha256_hex)) batch))"

end
