(* ===== verification/Cf_Contracts.thy ===== *)
theory Cf_Contracts
  imports Cf_Adapter
begin

text \<open>
  The Cloudflare adapter keeps the port contracts of the engine, for every platform that behaves as
  documented: the keys of the storage determine what they hold, every object holds only entries of its
  own tenant and endpoint, and the alarm of an endpoint's object is never later than its earliest
  scheduled retry.
\<close>

section \<open>Keys\<close>

lemma colon_split:
  assumes "a @ CHR '':'' # r = a' @ CHR '':'' # r'" and "CHR '':'' \<notin> set a" and "CHR '':'' \<notin> set a'"
  shows "a = a' \<and> r = r'"
proof -
  have "takeWhile (\<lambda>c. c \<noteq> CHR '':'') (a @ CHR '':'' # r) = a" "takeWhile (\<lambda>c. c \<noteq> CHR '':'') (a' @ CHR '':'' # r') = a'"
    using assms(2,3) by (auto simp: takeWhile_append)
  with assms(1) show ?thesis by simp
qed

lemma nat_str_no_colon: "CHR '':'' \<notin> set (nat_str n)"
  by (rule nat_str_no_char) (simp add: is_digit_in_def digit_val_def)

lemma endpointDoName_inj:
  assumes "endpointDoName t i = endpointDoName t' i'"
  shows "t = t' \<and> i = i'"
proof -
  have "nat_str (length t) @ CHR '':'' # (t @ '':'' @ i) = nat_str (length t') @ CHR '':'' # (t' @ '':'' @ i')"
    using assms by (simp add: endpointDoName_def)
  then have "nat_str (length t) = nat_str (length t')" "t @ '':'' @ i = t' @ '':'' @ i'"
    using colon_split nat_str_no_colon by blast+
  then show ?thesis using inj_nat_str by auto
qed

lemma endpointDoName_eq [simp]: "endpointDoName t i = endpointDoName t' i' \<longleftrightarrow> t = t' \<and> i = i'"
  using endpointDoName_inj by blast

lemma pad_zeros_no_colon: "CHR '':'' \<notin> set (pad_zeros k (nat_str n))"
  using nat_str_no_colon [of n] by (simp add: pad_zeros_def)

lemma dlqKey_inj: "dlqKey n i = dlqKey n' i' \<longleftrightarrow> n = n' \<and> i = i'"
proof
  assume "dlqKey n i = dlqKey n' i'"
  then have "pad_zeros 16 (nat_str n) @ CHR '':'' # i = pad_zeros 16 (nat_str n') @ CHR '':'' # i'"
    by (simp add: dlqKey_def)
  then have "pad_zeros 16 (nat_str n) = pad_zeros 16 (nat_str n') \<and> i = i'"
    using colon_split pad_zeros_no_colon by blast
  then show "n = n' \<and> i = i'" by (metis of_digits_pad of_digits_nat_str)
qed simp

lemmas storage_keys = ENDPOINT_PREFIX_def EVENT_PREFIX_def MSG_INDEX_PREFIX_def MESSAGE_PREFIX_def ATTEMPT_PREFIX_def
  DLQ_PREFIX_def SCHED_PREFIX_def CIRCUIT_KEY_def RATE_KEY_def DLQ_SEQ_KEY_def dlqKey_def schedKey_def

text \<open>The text of a number reads back, and contains no colon.\<close>

definition number_format :: "(rat \<Rightarrow> string) \<Rightarrow> (string \<Rightarrow> rat) \<Rightarrow> bool" where
  "number_format num_str num_read \<longleftrightarrow> (\<forall>q. num_read (num_str q) = q \<and> CHR '':'' \<notin> set (num_str q))"

lemma parse_schedKey: "number_format num_str num_read \<Longrightarrow> parseSchedAt num_read (schedKey num_str t i) = t"
  by (simp add: parseSchedAt_def schedKey_def upto_colon_def number_format_def takeWhile_append)

lemma schedKey_inj:
  assumes "number_format num_str num_read"
  shows "schedKey num_str t i = schedKey num_str t' i' \<longleftrightarrow> t = t' \<and> i = i'"
proof
  assume k: "schedKey num_str t i = schedKey num_str t' i'"
  then have "i = i'"
    using colon_split [of "num_str t" i "num_str t'" i'] assms by (simp add: schedKey_def number_format_def)
  moreover have "t = t'" using k parse_schedKey [OF assms] by metis
  ultimately show "t = t' \<and> i = i'" by simp
qed simp

section \<open>Storage\<close>

lemma read_as_update [simp]: "read_as p (AList.update k v st) k' = (if k' = k then p v else read_as p st k')"
  by (simp add: read_as_def)

lemma read_as_delete [simp]: "read_as p (AList.delete k st) k' = (if k' = k then None else read_as p st k')"
  by (simp add: read_as_def)

lemma read_as_Nil [simp]: "read_as p [] k = None"
  by (simp add: read_as_def)

lemma set_listing:
  assumes "distinct (map fst st)"
  shows "set (listing p pre st) = {(k, x). starts_with k pre \<and> read_as p st k = Some x}"
proof -
  have "(k, v) \<in> set st \<longleftrightarrow> map_of st k = Some v" for k v
    using assms by simp
  then show ?thesis
    by (auto simp: listing_def in_map_filter read_as_def bind_eq_Some_conv)
qed

lemma distinct_map_filter_keys:
  "distinct (map fst xs) \<Longrightarrow> distinct (map fst (List.map_filter (\<lambda>(k, v). map_option (Pair k) (p v)) xs))"
  by (induction xs) (force simp: in_map_filter split: option.splits)+

lemma distinct_listing:
  assumes "distinct (map fst st)"
  shows "distinct (map fst (listing p pre st))"
proof -
  have "mset (map fst (sort_key fst (filter (\<lambda>kv. starts_with (fst kv) pre) st))) = mset (map fst (filter (\<lambda>kv. starts_with (fst kv) pre) st))"
    by (metis mset_map mset_sort)
  then have "distinct (map fst (sort_key fst (filter (\<lambda>kv. starts_with (fst kv) pre) st)))"
    using distinct_map_filter [of fst st] assms by (metis mset_eq_imp_distinct_iff)
  then show ?thesis unfolding listing_def by (rule distinct_map_filter_keys)
qed

lemma mset_listing:
  "mset (map snd (listing p pre st)) = mset (List.map_filter (\<lambda>(k, v). if starts_with k pre then p v else None) st)"
proof -
  have gen: "mset (map snd (List.map_filter (\<lambda>(k, v). map_option (Pair k) (p v)) xs)) = mset (List.map_filter (p \<circ> snd) xs)" for xs
    by (induction xs) (auto split: option.splits)
  have perm: "mset xs = mset ys \<Longrightarrow> mset (List.map_filter f xs) = mset (List.map_filter f ys)" for xs ys and f :: "string \<times> do_value \<Rightarrow> 'a option"
    by (metis map_filter_def mset_filter mset_map)
  have "mset (List.map_filter (p \<circ> snd) (filter (\<lambda>kv. starts_with (fst kv) pre) st))
      = mset (List.map_filter (\<lambda>(k, v). if starts_with k pre then p v else None) st)"
    by (induction st) (auto split: option.splits if_splits)
  then show ?thesis
    unfolding listing_def gen using perm [OF mset_sort] by metis
qed

text \<open>The dead-letter rows of an object, and what a write to another key leaves alone.\<close>

definition dlq_rows :: "storage \<Rightarrow> dlq_row multiset" where
  "dlq_rows st = mset (List.map_filter (\<lambda>(k, v). if starts_with k DLQ_PREFIX then as_dlq v else None) st)"

lemma mset_dlq_listing: "mset (map snd (listing as_dlq DLQ_PREFIX st)) = dlq_rows st"
  unfolding dlq_rows_def by (rule mset_listing)

lemma map_filter_update_other:
  "(\<And>v. f (k, v) = None) \<Longrightarrow> List.map_filter f (AList.update k x st) = List.map_filter f st"
  by (induction st) (auto split: option.splits)

lemma map_filter_update_new:
  "map_of st k = None \<Longrightarrow> List.map_filter f (AList.update k x st) = List.map_filter f st @ List.map_filter f [(k, x)]"
  by (induction st) (auto split: option.splits if_splits)

lemma map_filter_delete_other:
  "(\<And>v. f (k, v) = None) \<Longrightarrow> List.map_filter f (AList.delete k st) = List.map_filter f st"
  by (induction st) (auto simp: AList.delete_eq split: option.splits)

lemma dlq_rows_other [simp]:
  "\<not> starts_with k DLQ_PREFIX \<Longrightarrow> dlq_rows (AList.update k x st) = dlq_rows st"
  "\<not> starts_with k DLQ_PREFIX \<Longrightarrow> dlq_rows (AList.delete k st) = dlq_rows st"
  by (simp_all add: dlq_rows_def map_filter_update_other map_filter_delete_other)

lemma dlq_rows_new:
  "map_of st k = None \<Longrightarrow> starts_with k DLQ_PREFIX \<Longrightarrow> dlq_rows (AList.update k (DoDlq r) st) = add_mset r (dlq_rows st)"
  by (simp add: dlq_rows_def map_filter_update_new)

section \<open>What an object holds\<close>

definition dlq_seq :: "storage \<Rightarrow> nat" where
  "dlq_seq st = (case read_as as_num st DLQ_SEQ_KEY of Some n \<Rightarrow> n | None \<Rightarrow> 0)"

text \<open>An entry of the object of tenant \<open>t\<close>: the prefix of the key determines the type of the value.\<close>

inductive tenant_entry :: "string \<Rightarrow> string \<Rightarrow> do_value \<Rightarrow> bool" for t where
  endpoint: "ep_tenant e = t \<Longrightarrow> ep_secrets e \<noteq> [] \<Longrightarrow> tenant_entry t (ENDPOINT_PREFIX @ ep_endpointId e) (DoEndpoint e)"
| event: "tenant_entry t (EVENT_PREFIX @ k) (DoEvent eid n)"
| index: "tenant_entry t (MSG_INDEX_PREFIX @ i) (DoText s)"

text \<open>An entry of the object of endpoint \<open>i\<close> of tenant \<open>t\<close>, whose dead letters are numbered up to \<open>seq\<close>.\<close>

inductive endpoint_entry :: "(rat \<Rightarrow> string) \<Rightarrow> string \<Rightarrow> string \<Rightarrow> nat \<Rightarrow> string \<Rightarrow> do_value \<Rightarrow> bool" for num_str t i seq where
  message: "msg_tenant m = t \<Longrightarrow> msg_endpointId m = i \<Longrightarrow>
    endpoint_entry num_str t i seq (MESSAGE_PREFIX @ msg_messageId m) (DoMessage m)"
| attempts: "\<forall>a \<in> set l. att_tenant a = t \<and> att_endpointId a = i \<and> att_messageId a = k \<Longrightarrow>
    endpoint_entry num_str t i seq (ATTEMPT_PREFIX @ k) (DoAttempts l)"
| dlq: "msg_tenant m = t \<Longrightarrow> msg_endpointId m = i \<Longrightarrow> n \<le> seq \<Longrightarrow>
    endpoint_entry num_str t i seq (dlqKey n (msg_messageId m)) (DoDlq (m, r))"
| sched: "msg_tenant m = t \<Longrightarrow> msg_endpointId m = i \<Longrightarrow>
    endpoint_entry num_str t i seq (schedKey num_str due (msg_messageId m)) (DoMessage m)"
| circuit: "endpoint_entry num_str t i seq CIRCUIT_KEY (DoCircuit c)"
| rate: "endpoint_entry num_str t i seq RATE_KEY (DoRate b)"
| dlqSeq: "endpoint_entry num_str t i seq DLQ_SEQ_KEY (DoNum n)"

text \<open>The scheduled retries of an object.\<close>

definition sched_entries :: "(string \<Rightarrow> rat) \<Rightarrow> storage \<Rightarrow> (message \<times> millis) set" where
  "sched_entries num_read st =
     {(m, t). \<exists>k. starts_with k SCHED_PREFIX \<and> read_as as_message st k = Some m \<and> t = parseSchedAt num_read k}"

definition alarm_covers :: "(string \<Rightarrow> rat) \<Rightarrow> do_object \<Rightarrow> bool" where
  "alarm_covers num_read x \<longleftrightarrow>
     (\<forall>(m, t) \<in> sched_entries num_read (ob_storage x). \<exists>a. ob_alarm x = Some a \<and> a \<le> t)"

definition tenant_object_ok :: "string \<Rightarrow> storage \<Rightarrow> bool" where
  "tenant_object_ok t st \<longleftrightarrow> distinct (map fst st) \<and> (\<forall>(k, v) \<in> set st. tenant_entry t k v)"

definition endpoint_storage_ok :: "(rat \<Rightarrow> string) \<Rightarrow> string \<Rightarrow> string \<Rightarrow> storage \<Rightarrow> bool" where
  "endpoint_storage_ok num_str t i st \<longleftrightarrow>
     distinct (map fst st) \<and> (\<forall>(k, v) \<in> set st. endpoint_entry num_str t i (dlq_seq st) k v)"

lemma tenant_object_ok_Nil [simp]: "tenant_object_ok t []"
  by (simp add: tenant_object_ok_def)

lemma endpoint_storage_ok_Nil [simp]: "endpoint_storage_ok num_str t i []"
  by (simp add: endpoint_storage_ok_def)

lemma tenant_object_ok_update:
  "tenant_object_ok t st \<Longrightarrow> tenant_entry t k v \<Longrightarrow> tenant_object_ok t (AList.update k v st)"
  by (auto simp: tenant_object_ok_def dest!: set_alist_update)

lemma tenant_object_ok_delete: "tenant_object_ok t st \<Longrightarrow> tenant_object_ok t (AList.delete k st)"
  by (auto simp: tenant_object_ok_def dest!: set_alist_delete)

lemma endpoint_entry_mono: "endpoint_entry num_str t i n k v \<Longrightarrow> n \<le> n' \<Longrightarrow> endpoint_entry num_str t i n' k v"
  by (induction rule: endpoint_entry.induct) (auto intro: endpoint_entry.intros order_trans)

lemma endpoint_storage_ok_update:
  assumes "endpoint_storage_ok num_str t i st" and "endpoint_entry num_str t i (dlq_seq (AList.update k v st)) k v"
    and "dlq_seq st \<le> dlq_seq (AList.update k v st)"
  shows "endpoint_storage_ok num_str t i (AList.update k v st)"
  using assms by (auto simp: endpoint_storage_ok_def dest!: set_alist_update intro: endpoint_entry_mono)

lemma dlq_seq_other [simp]:
  "k \<noteq> DLQ_SEQ_KEY \<Longrightarrow> dlq_seq (AList.update k v st) = dlq_seq st"
  "k \<noteq> DLQ_SEQ_KEY \<Longrightarrow> dlq_seq (AList.delete k st) = dlq_seq st"
  by (simp_all add: dlq_seq_def)

lemma endpoint_storage_ok_put:
  "endpoint_storage_ok num_str t i st \<Longrightarrow> endpoint_entry num_str t i (dlq_seq st) k v \<Longrightarrow> k \<noteq> DLQ_SEQ_KEY \<Longrightarrow>
   endpoint_storage_ok num_str t i (AList.update k v st)"
  by (rule endpoint_storage_ok_update) simp_all

lemma endpoint_storage_ok_delete:
  "endpoint_storage_ok num_str t i st \<Longrightarrow> k \<noteq> DLQ_SEQ_KEY \<Longrightarrow> endpoint_storage_ok num_str t i (AList.delete k st)"
  by (auto simp: endpoint_storage_ok_def dest!: set_alist_delete)

text \<open>Reading an entry back.\<close>

lemma read_as_in: "read_as p st k = Some x \<Longrightarrow> \<exists>v. (k, v) \<in> set st \<and> p v = Some x"
  by (auto simp: read_as_def bind_eq_Some_conv dest: map_of_SomeD)

lemma tenant_endpoint_read:
  assumes "tenant_object_ok t st" and "read_as as_endpoint st k = Some e"
  shows "k = ENDPOINT_PREFIX @ ep_endpointId e \<and> ep_tenant e = t \<and> ep_secrets e \<noteq> []"
proof -
  from read_as_in [OF assms(2)] obtain v where "(k, v) \<in> set st" "as_endpoint v = Some e" by blast
  then have "tenant_entry t k v" using assms(1) by (auto simp: tenant_object_ok_def)
  then show ?thesis using \<open>as_endpoint v = Some e\<close> by cases auto
qed

lemma endpoint_message_read:
  assumes "endpoint_storage_ok num_str t i st" and "read_as as_message st k = Some m"
  shows "msg_tenant m = t \<and> msg_endpointId m = i
    \<and> (k = MESSAGE_PREFIX @ msg_messageId m \<or> (\<exists>due. k = schedKey num_str due (msg_messageId m)))"
proof -
  from read_as_in [OF assms(2)] obtain v where "(k, v) \<in> set st" "as_message v = Some m" by blast
  then have "endpoint_entry num_str t i (dlq_seq st) k v" using assms(1) by (auto simp: endpoint_storage_ok_def)
  then show ?thesis using \<open>as_message v = Some m\<close> by cases auto
qed

lemma endpoint_attempts_read:
  assumes "endpoint_storage_ok num_str t i st" and "read_as as_attempts st (ATTEMPT_PREFIX @ k) = Some l"
  shows "\<forall>a \<in> set l. att_tenant a = t \<and> att_endpointId a = i \<and> att_messageId a = k"
proof -
  from read_as_in [OF assms(2)] obtain v where "(ATTEMPT_PREFIX @ k, v) \<in> set st" "as_attempts v = Some l" by blast
  then have "endpoint_entry num_str t i (dlq_seq st) (ATTEMPT_PREFIX @ k) v" using assms(1) by (auto simp: endpoint_storage_ok_def)
  then show ?thesis using \<open>as_attempts v = Some l\<close> by cases auto
qed

lemma endpoint_dlq_read:
  assumes "endpoint_storage_ok num_str t i st" and "(m, r) \<in># dlq_rows st"
  shows "msg_tenant m = t \<and> msg_endpointId m = i"
proof -
  from assms(2) obtain k v where "(k, v) \<in> set st" "as_dlq v = Some (m, r)"
    by (auto simp: dlq_rows_def in_map_filter split: if_splits)
  then have "endpoint_entry num_str t i (dlq_seq st) k v" using assms(1) by (auto simp: endpoint_storage_ok_def)
  then show ?thesis using \<open>as_dlq v = Some (m, r)\<close> by cases auto
qed

lemma dlq_key_fresh:
  assumes "endpoint_storage_ok num_str t i st" and "dlq_seq st < n"
  shows "map_of st (dlqKey n k) = None"
proof (rule ccontr)
  assume "map_of st (dlqKey n k) \<noteq> None"
  then obtain v where "(dlqKey n k, v) \<in> set st" by (auto dest: map_of_SomeD)
  then have "endpoint_entry num_str t i (dlq_seq st) (dlqKey n k) v" using assms(1) by (auto simp: endpoint_storage_ok_def)
  then show False
    by cases (use assms(2) in \<open>auto simp: dlqKey_inj\<close>, auto simp: storage_keys)
qed

section \<open>The platform as documented\<close>

text \<open>
  What the host shows of itself: the queue it delivers from and the requests \<open>fetch\<close> sent. A call of the
  host returns \<open>r\<close> and leaves the queue \<open>q\<close> and the requests \<open>p\<close>.
\<close>

type_synonym posts = "(string \<times> string \<times> (string \<times> string) list) list"

definition host_call ::
  "('h \<Rightarrow> bool) \<Rightarrow> ('h \<Rightarrow> message list) \<Rightarrow> ('h \<Rightarrow> posts) \<Rightarrow> ('h, 'a) io \<Rightarrow> 'h \<Rightarrow> js_error + 'a \<Rightarrow> message list \<Rightarrow> posts \<Rightarrow> bool" where
  "host_call hok hq hp f h r q p \<longleftrightarrow> fst (f h) = r \<and> hok (snd (f h)) \<and> hq (snd (f h)) = q \<and> hp (snd (f h)) = p"

text \<open>
  The clock, the random sources and the queue driver answer; \<open>Math.random\<close> draws from \<open>[0, 1)\<close>; publishing
  appends to the queue; \<open>fetch\<close> sends one request, whatever comes back; \<open>QUEUE.send\<close> may throw, before or
  after the message is queued; the text of a number reads back.
\<close>

definition platform_ok ::
  "'h cf_platform \<Rightarrow> ('h \<Rightarrow> message list) \<Rightarrow> ('h \<Rightarrow> posts) \<Rightarrow> ('h \<Rightarrow> bool) \<Rightarrow> bool" where
  "platform_ok P hq hp hok \<longleftrightarrow>
     (\<forall>h. hok h \<longrightarrow>
        (\<exists>t. host_call hok hq hp (pl_date_now P) h (Inr t) (hq h) (hp h))
      \<and> (\<exists>x. 0 \<le> x \<and> x < 1 \<and> host_call hok hq hp (pl_math_random P) h (Inr x) (hq h) (hp h))
      \<and> (\<exists>u. host_call hok hq hp (pl_randomUUID P) h (Inr u) (hq h) (hp h))
      \<and> (\<exists>b. host_call hok hq hp (pl_randomValues P) h (Inr b) (hq h) (hp h))
      \<and> (\<forall>url body hs tmo. \<exists>res. host_call hok hq hp (pl_fetch P url body hs tmo) h (Inr res) (hq h) (hp h @ [(url, body, hs)]))
      \<and> host_call hok hq hp (pl_producer_connect P) h (Inr ()) (hq h) (hp h)
      \<and> (\<forall>m. host_call hok hq hp (pl_producer_publish P m) h (Inr ()) (hq h @ [m]) (hp h))
      \<and> host_call hok hq hp (pl_consumer_connect P) h (Inr ()) (hq h) (hp h)
      \<and> (\<forall>m. \<exists>r q. host_call hok hq hp (pl_queue_send P m) h r q (hp h)
            \<and> (r = Inr () \<and> q = hq h @ [m] \<or> (\<exists>e. r = Inl e) \<and> (q = hq h \<or> q = hq h @ [m]))))
   \<and> number_format (pl_num_str P) (pl_num_read P)"

lemma platform_calls:
  assumes "platform_ok P hq hp hok" and "hok h"
  shows "\<exists>t. host_call hok hq hp (pl_date_now P) h (Inr t) (hq h) (hp h)"
    and "\<exists>x. 0 \<le> x \<and> x < 1 \<and> host_call hok hq hp (pl_math_random P) h (Inr x) (hq h) (hp h)"
    and "\<exists>u. host_call hok hq hp (pl_randomUUID P) h (Inr u) (hq h) (hp h)"
    and "\<exists>b. host_call hok hq hp (pl_randomValues P) h (Inr b) (hq h) (hp h)"
    and "\<exists>res. host_call hok hq hp (pl_fetch P url body hs tmo) h (Inr res) (hq h) (hp h @ [(url, body, hs)])"
    and "host_call hok hq hp (pl_producer_connect P) h (Inr ()) (hq h) (hp h)"
    and "host_call hok hq hp (pl_producer_publish P m) h (Inr ()) (hq h @ [m]) (hp h)"
    and "host_call hok hq hp (pl_consumer_connect P) h (Inr ()) (hq h) (hp h)"
    and "\<exists>r q. host_call hok hq hp (pl_queue_send P m) h r q (hp h)
            \<and> (r = Inr () \<and> q = hq h @ [m] \<or> (\<exists>e. r = Inl e) \<and> (q = hq h \<or> q = hq h @ [m]))"
  using assms unfolding platform_ok_def by blast+

lemma platform_number_format: "platform_ok P hq hp hok \<Longrightarrow> number_format (pl_num_str P) (pl_num_read P)"
  by (simp add: platform_ok_def)

section \<open>The view of the world\<close>

abbreviation tenant_store :: "'h cf_world \<Rightarrow> string \<Rightarrow> storage" where
  "tenant_store w t \<equiv> ob_storage (object_of (cw_tenants w) t)"

definition endpoint_object :: "'h cf_world \<Rightarrow> string \<Rightarrow> string \<Rightarrow> do_object" where
  "endpoint_object w t i = object_of (cw_endpoints w) (endpointDoName t i)"

abbreviation endpoint_store :: "'h cf_world \<Rightarrow> string \<Rightarrow> string \<Rightarrow> storage" where
  "endpoint_store w t i \<equiv> ob_storage (endpoint_object w t i)"

definition cf_view :: "('h \<Rightarrow> message list) \<Rightarrow> ('h \<Rightarrow> posts) \<Rightarrow> 'h cf_world \<Rightarrow> view" where
  "cf_view hq hp w =
     \<lparr>v_events = (\<lambda>t k. read_as as_event (tenant_store w t) (EVENT_PREFIX @ k)),
      v_endpoints = (\<lambda>t i. read_as as_endpoint (tenant_store w t) (ENDPOINT_PREFIX @ i)),
      v_messages = (\<lambda>t i. Option.bind (read_as as_text (tenant_store w t) (MSG_INDEX_PREFIX @ i))
                      (\<lambda>e. read_as as_message (endpoint_store w t e) (MESSAGE_PREFIX @ i))),
      v_attempts = (\<lambda>t (e, i). filter (\<lambda>a. att_endpointId a = e)
                      (case read_as as_attempts (endpoint_store w t e) (ATTEMPT_PREFIX @ i) of None \<Rightarrow> [] | Some l \<Rightarrow> l)),
      v_circuits = (\<lambda>t e. case read_as as_circuit (endpoint_store w t e) CIRCUIT_KEY of
                      Some c \<Rightarrow> c | None \<Rightarrow> initialCircuit DEFAULT_COOLDOWN_MS),
      v_buckets = (\<lambda>t e. read_as as_rate (endpoint_store w t e) RATE_KEY),
      v_dlq = (\<lambda>t e. dlq_rows (endpoint_store w t e)),
      v_queue = hq (cw_host w),
      v_posts = hp (cw_host w)\<rparr>"

definition cf_sched :: "'h cf_platform \<Rightarrow> 'h cf_world \<Rightarrow> (message \<times> millis) set" where
  "cf_sched P w = (\<Union>t i. sched_entries (pl_num_read P) (endpoint_store w t i))"

definition endpoint_object_ok :: "'h cf_platform \<Rightarrow> string \<Rightarrow> string \<Rightarrow> do_object \<Rightarrow> bool" where
  "endpoint_object_ok P t i x \<longleftrightarrow> endpoint_storage_ok (pl_num_str P) t i (ob_storage x) \<and> alarm_covers (pl_num_read P) x"

definition cf_ok :: "'h cf_platform \<Rightarrow> ('h \<Rightarrow> bool) \<Rightarrow> 'h cf_world \<Rightarrow> bool" where
  "cf_ok P hok w \<longleftrightarrow>
     (\<forall>t. tenant_object_ok t (tenant_store w t)) \<and> (\<forall>t i. endpoint_object_ok P t i (endpoint_object w t i)) \<and> hok (cw_host w)"

text \<open>The same without the alarms: what is stored is well formed, whenever the alarms are set.\<close>

definition cf_stored :: "'h cf_platform \<Rightarrow> ('h \<Rightarrow> bool) \<Rightarrow> 'h cf_world \<Rightarrow> bool" where
  "cf_stored P hok w \<longleftrightarrow>
     (\<forall>t. tenant_object_ok t (tenant_store w t)) \<and> (\<forall>t i. endpoint_storage_ok (pl_num_str P) t i (endpoint_store w t i)) \<and> hok (cw_host w)"

lemma cf_ok_stored: "cf_ok P hok w \<longleftrightarrow> cf_stored P hok w \<and> (\<forall>t i. alarm_covers (pl_num_read P) (endpoint_object w t i))"
  by (auto simp: cf_ok_def cf_stored_def endpoint_object_ok_def)

lemma cf_storedD:
  assumes "cf_stored P hok w"
  shows "tenant_object_ok t (tenant_store w t)" "endpoint_storage_ok (pl_num_str P) t i (endpoint_store w t i)" "hok (cw_host w)"
  using assms by (auto simp: cf_stored_def)

lemma cf_okD:
  assumes "cf_ok P hok w"
  shows "tenant_object_ok t (tenant_store w t)" "endpoint_storage_ok (pl_num_str P) t i (endpoint_store w t i)"
    "alarm_covers (pl_num_read P) (endpoint_object w t i)" "endpoint_object_ok P t i (endpoint_object w t i)" "hok (cw_host w)"
  using assms by (auto simp: cf_ok_def endpoint_object_ok_def)

lemma object_of_update [simp]: "object_of (AList.update n x objs) n' = (if n' = n then x else object_of objs n')"
  by (simp add: object_of_def)

lemma endpoint_object_update [simp]:
  "endpoint_object (w\<lparr>cw_endpoints := AList.update (endpointDoName t i) x (cw_endpoints w)\<rparr>) t' i'
     = (if t' = t \<and> i' = i then x else endpoint_object w t' i')"
  "endpoint_object (w\<lparr>cw_tenants := y\<rparr>) t' i' = endpoint_object w t' i'"
  "endpoint_object (w\<lparr>cw_host := h\<rparr>) t' i' = endpoint_object w t' i'"
  "endpoint_object (w\<lparr>cw_producerConnected := b\<rparr>) t' i' = endpoint_object w t' i'"
  by (simp_all add: endpoint_object_def)

abbreviation cf_calls ::
  "'h cf_platform \<Rightarrow> ('h \<Rightarrow> message list) \<Rightarrow> ('h \<Rightarrow> posts) \<Rightarrow> ('h \<Rightarrow> bool) \<Rightarrow>
   ('h cf_world, 'a) io \<Rightarrow> 'h cf_world \<Rightarrow> js_error + 'a \<Rightarrow> view \<Rightarrow> bool" where
  "cf_calls P hq hp hok \<equiv> calls (cf_ok P hok) (cf_view hq hp) (cf_sched P)"

text \<open>A call of a tenant's object is a call of the store when the object stays well formed.\<close>

lemma tenantStub_calls:
  assumes "cf_ok P hok w" and "f (ctx_of (object_of (cw_tenants w) t) (cw_host w)) = (r, c)"
    and "tenant_object_ok t (dc_storage c)" and "hok (dc_host c)"
    and "cf_view hq hp (w\<lparr>cw_tenants := AList.update t (object_in c) (cw_tenants w), cw_host := dc_host c\<rparr>) = v"
  shows "cf_calls P hq hp hok (tenantStub t f) w r v"
  using assms by (auto simp: calls_def tenantStub_def Let_def cf_ok_def cf_sched_def object_in_def)

lemma endpointStub_calls:
  assumes "cf_ok P hok w" and "f (ctx_of (endpoint_object w t i) (cw_host w)) = (r, c)"
    and "endpoint_object_ok P t i (object_in c)" and "hok (dc_host c)"
    and "sched_entries (pl_num_read P) (dc_storage c) = sched_entries (pl_num_read P) (endpoint_store w t i)"
    and "cf_view hq hp (w\<lparr>cw_endpoints := AList.update (endpointDoName t i) (object_in c) (cw_endpoints w), cw_host := dc_host c\<rparr>) = v"
  shows "cf_calls P hq hp hok (endpointStub t i f) w r v"
proof -
  have "endpointStub t i f w = (r, w\<lparr>cw_endpoints := AList.update (endpointDoName t i) (object_in c) (cw_endpoints w), cw_host := dc_host c\<rparr>)"
    using assms(2) by (simp add: endpointStub_def Let_def endpoint_object_def)
  moreover have "sched_entries (pl_num_read P) (ob_storage (if t' = t \<and> i' = i then object_in c else endpoint_object w t' i'))
      = sched_entries (pl_num_read P) (endpoint_store w t' i')" for t' i'
    using assms(5) by (simp add: object_in_def)
  ultimately show ?thesis
    using assms by (simp add: calls_def cf_ok_def cf_sched_def)
qed

lemma sched_entries_other [simp]:
  "\<not> starts_with k SCHED_PREFIX \<Longrightarrow> sched_entries num_read (AList.update k v st) = sched_entries num_read st"
  by (auto simp: sched_entries_def)

text \<open>The writes of the store: one entry outside the schedule.\<close>

lemma endpoint_put_calls:
  assumes "cf_ok P hok w" and "endpoint_entry (pl_num_str P) t i (dlq_seq (endpoint_store w t i)) k v"
    and "k \<noteq> DLQ_SEQ_KEY" and "\<not> starts_with k SCHED_PREFIX"
    and "f (ctx_of (endpoint_object w t i) (cw_host w))
        = (r, (ctx_of (endpoint_object w t i) (cw_host w))\<lparr>dc_storage := AList.update k v (endpoint_store w t i)\<rparr>)"
    and "cf_view hq hp (w\<lparr>cw_endpoints := AList.update (endpointDoName t i)
           ((endpoint_object w t i)\<lparr>ob_storage := AList.update k v (endpoint_store w t i)\<rparr>) (cw_endpoints w)\<rparr>) = u"
  shows "cf_calls P hq hp hok (endpointStub t i f) w r u"
proof (rule endpointStub_calls [OF assms(1), where f = f, OF assms(5)])
  let ?c = "(ctx_of (endpoint_object w t i) (cw_host w))\<lparr>dc_storage := AList.update k v (endpoint_store w t i)\<rparr>"
  have x: "object_in ?c = (endpoint_object w t i)\<lparr>ob_storage := AList.update k v (endpoint_store w t i)\<rparr>"
    by (simp add: object_in_def ctx_of_def)
  have "endpoint_storage_ok (pl_num_str P) t i (AList.update k v (endpoint_store w t i))"
    using cf_okD(2) [OF assms(1)] assms(2,3) by (rule endpoint_storage_ok_put)
  then show "endpoint_object_ok P t i (object_in ?c)"
    using cf_okD(3) [OF assms(1), of t i] assms(4) unfolding x by (simp add: endpoint_object_ok_def alarm_covers_def)
  have "w\<lparr>cw_endpoints := y, cw_host := cw_host w\<rparr> = w\<lparr>cw_endpoints := y\<rparr>" for y by simp
  then show "cf_view hq hp (w\<lparr>cw_endpoints := AList.update (endpointDoName t i) (object_in ?c) (cw_endpoints w), cw_host := dc_host ?c\<rparr>) = u"
    using assms(6) unfolding x by (simp add: ctx_of_def)
qed (use assms(4) cf_okD(5) [OF assms(1)] in \<open>simp_all add: ctx_of_def\<close>)

lemma tenant_put_calls:
  assumes "cf_ok P hok w" and "tenant_entry t k v" and "hok h"
    and "f (ctx_of (object_of (cw_tenants w) t) (cw_host w))
        = (r, \<lparr>dc_storage = AList.update k v (tenant_store w t), dc_alarm = a, dc_host = h\<rparr>)"
    and "cf_view hq hp (w\<lparr>cw_tenants := AList.update t
           \<lparr>ob_storage = AList.update k v (tenant_store w t), ob_alarm = a\<rparr> (cw_tenants w), cw_host := h\<rparr>) = u"
  shows "cf_calls P hq hp hok (tenantStub t f) w r u"
  by (rule tenantStub_calls [OF assms(1), where f = f, OF assms(4)])
     (use assms cf_okD(1) [OF assms(1)] in \<open>simp_all add: tenant_object_ok_update object_in_def\<close>)

text \<open>Reads.\<close>

lemma object_in_ctx [simp]: "object_in (ctx_of x h) = x" "dc_host (ctx_of x h) = h" "dc_storage (ctx_of x h) = ob_storage x"
  "object_in ((ctx_of x h)\<lparr>dc_storage := st\<rparr>) = x\<lparr>ob_storage := st\<rparr>" "dc_alarm (ctx_of x h) = ob_alarm x"
  by (simp_all add: object_in_def ctx_of_def)

lemma tenant_reads:
  assumes "cf_ok P hok w" and "f (ctx_of (object_of (cw_tenants w) t) (cw_host w)) = (r, ctx_of (object_of (cw_tenants w) t) (cw_host w))"
  shows "cf_calls P hq hp hok (tenantStub t f) w r (cf_view hq hp w)"
  by (rule tenantStub_calls [OF assms(1), where f = f, OF assms(2)])
     (auto simp: cf_okD [OF assms(1)] cf_view_def)

lemma endpoint_reads:
  assumes "cf_ok P hok w" and "f (ctx_of (endpoint_object w t i) (cw_host w)) = (r, ctx_of (endpoint_object w t i) (cw_host w))"
  shows "cf_calls P hq hp hok (endpointStub t i f) w r (cf_view hq hp w)"
  by (rule endpointStub_calls [OF assms(1), where f = f, OF assms(2)])
     (auto simp: cf_okD [OF assms(1)] cf_view_def fun_eq_iff intro!: Option.bind_cong)

section \<open>The state store keeps its contract\<close>

lemma starts_with_keys [simp]:
  "\<not> starts_with (MESSAGE_PREFIX @ x) SCHED_PREFIX" "\<not> starts_with (ATTEMPT_PREFIX @ x) SCHED_PREFIX"
  "\<not> starts_with CIRCUIT_KEY SCHED_PREFIX" "\<not> starts_with RATE_KEY SCHED_PREFIX" "\<not> starts_with DLQ_SEQ_KEY SCHED_PREFIX"
  "\<not> starts_with (dlqKey n x) SCHED_PREFIX" "starts_with (schedKey num_str d x) SCHED_PREFIX"
  "\<not> starts_with (MESSAGE_PREFIX @ x) DLQ_PREFIX" "\<not> starts_with (ATTEMPT_PREFIX @ x) DLQ_PREFIX"
  "\<not> starts_with CIRCUIT_KEY DLQ_PREFIX" "\<not> starts_with RATE_KEY DLQ_PREFIX" "\<not> starts_with DLQ_SEQ_KEY DLQ_PREFIX"
  "\<not> starts_with (schedKey num_str d x) DLQ_PREFIX" "starts_with (dlqKey n x) DLQ_PREFIX"
  by (simp_all add: storage_keys starts_with_iff)

lemma storage_keys_neq [simp]:
  "MESSAGE_PREFIX @ x \<noteq> ATTEMPT_PREFIX @ y" "MESSAGE_PREFIX @ x \<noteq> CIRCUIT_KEY" "MESSAGE_PREFIX @ x \<noteq> RATE_KEY"
  "MESSAGE_PREFIX @ x \<noteq> DLQ_SEQ_KEY" "MESSAGE_PREFIX @ x \<noteq> dlqKey n y" "MESSAGE_PREFIX @ x \<noteq> schedKey num_str d y"
  "ATTEMPT_PREFIX @ x \<noteq> MESSAGE_PREFIX @ y" "ATTEMPT_PREFIX @ x \<noteq> CIRCUIT_KEY" "ATTEMPT_PREFIX @ x \<noteq> RATE_KEY"
  "ATTEMPT_PREFIX @ x \<noteq> DLQ_SEQ_KEY" "ATTEMPT_PREFIX @ x \<noteq> dlqKey n y" "ATTEMPT_PREFIX @ x \<noteq> schedKey num_str d y"
  "CIRCUIT_KEY \<noteq> MESSAGE_PREFIX @ y" "CIRCUIT_KEY \<noteq> ATTEMPT_PREFIX @ y" "CIRCUIT_KEY \<noteq> RATE_KEY"
  "CIRCUIT_KEY \<noteq> DLQ_SEQ_KEY" "CIRCUIT_KEY \<noteq> dlqKey n y" "CIRCUIT_KEY \<noteq> schedKey num_str d y"
  "RATE_KEY \<noteq> MESSAGE_PREFIX @ y" "RATE_KEY \<noteq> ATTEMPT_PREFIX @ y" "RATE_KEY \<noteq> CIRCUIT_KEY"
  "RATE_KEY \<noteq> DLQ_SEQ_KEY" "RATE_KEY \<noteq> dlqKey n y" "RATE_KEY \<noteq> schedKey num_str d y"
  "DLQ_SEQ_KEY \<noteq> MESSAGE_PREFIX @ y" "DLQ_SEQ_KEY \<noteq> ATTEMPT_PREFIX @ y" "DLQ_SEQ_KEY \<noteq> CIRCUIT_KEY"
  "DLQ_SEQ_KEY \<noteq> RATE_KEY" "DLQ_SEQ_KEY \<noteq> dlqKey n y" "DLQ_SEQ_KEY \<noteq> schedKey num_str d y"
  "dlqKey n x \<noteq> MESSAGE_PREFIX @ y" "dlqKey n x \<noteq> ATTEMPT_PREFIX @ y" "dlqKey n x \<noteq> CIRCUIT_KEY"
  "dlqKey n x \<noteq> RATE_KEY" "dlqKey n x \<noteq> DLQ_SEQ_KEY" "dlqKey n x \<noteq> schedKey num_str d y"
  "schedKey num_str d x \<noteq> MESSAGE_PREFIX @ y" "schedKey num_str d x \<noteq> ATTEMPT_PREFIX @ y" "schedKey num_str d x \<noteq> CIRCUIT_KEY"
  "schedKey num_str d x \<noteq> RATE_KEY" "schedKey num_str d x \<noteq> DLQ_SEQ_KEY" "schedKey num_str d x \<noteq> dlqKey n y"
  "ENDPOINT_PREFIX @ x \<noteq> EVENT_PREFIX @ y" "ENDPOINT_PREFIX @ x \<noteq> MSG_INDEX_PREFIX @ y" "EVENT_PREFIX @ x \<noteq> ENDPOINT_PREFIX @ y"
  "EVENT_PREFIX @ x \<noteq> MSG_INDEX_PREFIX @ y" "MSG_INDEX_PREFIX @ x \<noteq> ENDPOINT_PREFIX @ y" "MSG_INDEX_PREFIX @ x \<noteq> EVENT_PREFIX @ y"
  by (simp_all add: storage_keys)

lemmas store_run = bind_io_def seq_io_def storage_get_def storage_put_def storage_delete_def storage_list_def ctx_of_def on_host_def

lemmas cf_view_defs = cf_view_def view_defs upd2_def fun_eq_iff

lemma calls_seq:
  assumes "calls ok vw sched f w (Inr x) v1" and "ok (snd (f w)) \<Longrightarrow> sched (snd (f w)) = sched w \<Longrightarrow> calls ok vw sched g (snd (f w)) r v2"
  shows "calls ok vw sched (seq_io f g) w r v2"
  using assms by (auto simp: calls_def seq_io_def bind_io_def)

text \<open>Which view a write of one entry of an endpoint's object gives.\<close>

lemma cf_view_endpoint_put:
  "cf_view hq hp (w\<lparr>cw_endpoints := AList.update (endpointDoName t i) ((endpoint_object w t i)\<lparr>ob_storage := st\<rparr>) (cw_endpoints w)\<rparr>)
   = (cf_view hq hp w)\<lparr>
      v_messages := (\<lambda>t' k. Option.bind (read_as as_text (tenant_store w t') (MSG_INDEX_PREFIX @ k))
                      (\<lambda>e. read_as as_message (if t' = t \<and> e = i then st else endpoint_store w t' e) (MESSAGE_PREFIX @ k))),
      v_attempts := (\<lambda>t' (e, k). filter (\<lambda>a. att_endpointId a = e)
          (case read_as as_attempts (if t' = t \<and> e = i then st else endpoint_store w t' e) (ATTEMPT_PREFIX @ k) of None \<Rightarrow> [] | Some l \<Rightarrow> l)),
      v_circuits := (\<lambda>t' e. case read_as as_circuit (if t' = t \<and> e = i then st else endpoint_store w t' e) CIRCUIT_KEY of
                      Some c \<Rightarrow> c | None \<Rightarrow> initialCircuit DEFAULT_COOLDOWN_MS),
      v_buckets := (\<lambda>t' e. read_as as_rate (if t' = t \<and> e = i then st else endpoint_store w t' e) RATE_KEY),
      v_dlq := (\<lambda>t' e. dlq_rows (if t' = t \<and> e = i then st else endpoint_store w t' e))\<rparr>"
proof -
  have "ob_storage (if b then (endpoint_object w t i)\<lparr>ob_storage := st\<rparr> else x) = (if b then st else ob_storage x)" for b x
    by simp
  then show ?thesis unfolding cf_view_def by (simp add: fun_eq_iff)
qed

lemma cf_getEndpoint: "cf_ok P hok w \<Longrightarrow> cf_calls P hq hp hok (do_getEndpoint t i) w (Inr (v_endpoints (cf_view hq hp w) t i)) (cf_view hq hp w)"
  unfolding do_getEndpoint_def
  by (rule tenant_reads) (simp_all add: tdo_getEndpoint_def storage_get_def cf_view_def)

lemma cf_putCircuit: "cf_ok P hok w \<Longrightarrow> cf_calls P hq hp hok (do_putCircuit t i c) w (Inr ()) (put_circ t i c (cf_view hq hp w))"
  unfolding do_putCircuit_def
  by (rule endpoint_put_calls [where k = CIRCUIT_KEY and v = "DoCircuit c"])
     (auto simp: edo_putCircuit_def storage_put_def cf_view_endpoint_put cf_view_defs intro: endpoint_entry.intros intro!: Option.bind_cong)

lemma cf_putRateBucket: "cf_ok P hok w \<Longrightarrow> cf_calls P hq hp hok (do_putRateBucket t i b) w (Inr ()) (put_buck t i b (cf_view hq hp w))"
  unfolding do_putRateBucket_def
  by (rule endpoint_put_calls [where k = RATE_KEY and v = "DoRate b"])
     (auto simp: edo_putRateBucket_def storage_put_def cf_view_endpoint_put cf_view_defs intro: endpoint_entry.intros intro!: Option.bind_cong)

lemma cf_appendAttempt:
  assumes "cf_ok P hok w"
  shows "cf_calls P hq hp hok (do_appendAttempt a) w (Inr ()) (add_att a (cf_view hq hp w))"
proof -
  let ?stored = "case read_as as_attempts (endpoint_store w (att_tenant a) (att_endpointId a)) (ATTEMPT_PREFIX @ att_messageId a)
    of Some l \<Rightarrow> l | None \<Rightarrow> []"
  have "\<forall>b \<in> set (?stored @ [a]). att_tenant b = att_tenant a \<and> att_endpointId b = att_endpointId a \<and> att_messageId b = att_messageId a"
    using endpoint_attempts_read [OF cf_okD(2) [OF assms, of "att_tenant a" "att_endpointId a"], of "att_messageId a"]
    by (cases "read_as as_attempts (endpoint_store w (att_tenant a) (att_endpointId a)) (ATTEMPT_PREFIX @ att_messageId a)") auto
  then have "endpoint_entry (pl_num_str P) (att_tenant a) (att_endpointId a) n (ATTEMPT_PREFIX @ att_messageId a) (DoAttempts (?stored @ [a]))" for n
    by (rule endpoint_entry.attempts)
  with assms show ?thesis
    unfolding do_appendAttempt_def
    by (intro endpoint_put_calls [where k = "ATTEMPT_PREFIX @ att_messageId a" and v = "DoAttempts (?stored @ [a])"])
       (auto simp: edo_appendAttempt_def storage_get_def storage_put_def bind_io_def cf_view_endpoint_put cf_view_defs
         intro!: Option.bind_cong)
qed

lemma cf_putMessage:
  assumes "cf_ok P hok w"
  shows "cf_calls P hq hp hok (do_putMessage m) w (Inr ()) (put_msg m (cf_view hq hp w))"
proof -
  let ?t = "msg_tenant m" and ?i = "msg_endpointId m"
  let ?w = "w\<lparr>cw_endpoints := AList.update (endpointDoName ?t ?i) ((endpoint_object w ?t ?i)\<lparr>ob_storage :=
      AList.update (MESSAGE_PREFIX @ msg_messageId m) (DoMessage m) (endpoint_store w ?t ?i)\<rparr>) (cw_endpoints w)\<rparr>"
  have first: "cf_calls P hq hp hok (endpointStub ?t ?i (edo_putMessage m)) w (Inr ()) (cf_view hq hp ?w)"
    by (rule endpoint_put_calls [OF assms, where k = "MESSAGE_PREFIX @ msg_messageId m" and v = "DoMessage m"])
       (auto simp: edo_putMessage_def storage_put_def intro: endpoint_entry.intros)
  have w: "snd (endpointStub ?t ?i (edo_putMessage m) w) = ?w"
    by (simp add: endpointStub_def Let_def edo_putMessage_def storage_put_def endpoint_object_def)
  show ?thesis
    unfolding do_putMessage_def
  proof (rule calls_seq [OF first], unfold w)
    assume ok: "cf_ok P hok ?w" 
    show "cf_calls P hq hp hok (tenantStub ?t (tdo_registerMessage (msg_messageId m) ?i)) ?w (Inr ()) (put_msg m (cf_view hq hp w))"
    proof (rule tenant_put_calls [OF ok, where k = "MSG_INDEX_PREFIX @ msg_messageId m" and v = "DoText ?i"])
      show "tdo_registerMessage (msg_messageId m) ?i (ctx_of (object_of (cw_tenants ?w) ?t) (cw_host ?w))
        = (Inr (), \<lparr>dc_storage = AList.update (MSG_INDEX_PREFIX @ msg_messageId m) (DoText ?i) (tenant_store ?w ?t),
             dc_alarm = ob_alarm (object_of (cw_tenants w) ?t), dc_host = cw_host w\<rparr>)"
        by (simp add: tdo_registerMessage_def storage_put_def ctx_of_def)
      show "cf_view hq hp (?w\<lparr>cw_tenants := AList.update ?t
          \<lparr>ob_storage = AList.update (MSG_INDEX_PREFIX @ msg_messageId m) (DoText ?i) (tenant_store ?w ?t),
           ob_alarm = ob_alarm (object_of (cw_tenants w) ?t)\<rparr> (cw_tenants ?w), cw_host := cw_host w\<rparr>) = put_msg m (cf_view hq hp w)"
        by (auto simp: cf_view_defs intro!: Option.bind_cong)
    qed (use cf_okD(5) [OF assms] in \<open>auto intro: tenant_entry.intros\<close>)
  qed
qed

text \<open>A write to the tenant's object that touches neither the message index nor the host's queue and requests.\<close>

lemma cf_recordEvent_new:
  "cf_ok P hok w \<Longrightarrow> v_events (cf_view hq hp w) t k = None \<Longrightarrow>
   cf_calls P hq hp hok (do_recordEvent t eid k) w
     (Inr \<lparr>rr_isNew = True, rr_eventId = eid, rr_messageCount = 0\<rparr>) (put_event t k (eid, 0) (cf_view hq hp w))"
  unfolding do_recordEvent_def
  by (rule tenant_put_calls [where k = "EVENT_PREFIX @ k" and v = "DoEvent eid 0" and h = "cw_host w" and a = "ob_alarm (object_of (cw_tenants w) t)"])
     (auto simp: tdo_recordEvent_def store_run cf_view_defs cf_okD intro: tenant_entry.intros)

lemma cf_recordEvent_dup:
  "cf_ok P hok w \<Longrightarrow> v_events (cf_view hq hp w) t k = Some (eid', n) \<Longrightarrow>
   cf_calls P hq hp hok (do_recordEvent t eid k) w
     (Inr \<lparr>rr_isNew = False, rr_eventId = eid', rr_messageCount = n\<rparr>) (cf_view hq hp w)"
  unfolding do_recordEvent_def
  by (rule tenant_reads) (simp_all add: tdo_recordEvent_def storage_get_def bind_io_def cf_view_def)

lemma cf_finalizeEvent:
  "cf_ok P hok w \<Longrightarrow> cf_calls P hq hp hok (do_finalizeEvent t k eid n) w (Inr ()) (put_event t k (eid, n) (cf_view hq hp w))"
  unfolding do_finalizeEvent_def
  by (rule tenant_put_calls [where k = "EVENT_PREFIX @ k" and v = "DoEvent eid n" and h = "cw_host w" and a = "ob_alarm (object_of (cw_tenants w) t)"])
     (auto simp: tdo_finalizeEvent_def store_run cf_view_defs cf_okD intro: tenant_entry.intros)

lemma cf_createEndpoint:
  assumes "platform_ok P hq hp hok" and ok: "cf_ok P hok w"
  shows "\<exists>i secret now. cf_calls P hq hp hok (do_createEndpoint P ne) w
         (Inr (\<lparr>ep_endpointId = i, ep_tenant = ne_tenant ne, ep_url = ne_url ne, ep_eventTypes = ne_eventTypes ne,
                ep_description = ne_description ne, ep_disabled = False, ep_rateLimit = ne_rateLimit ne,
                ep_createdAt = now, ep_secrets = [secret]\<rparr>, secret))
         (put_endpoint \<lparr>ep_endpointId = i, ep_tenant = ne_tenant ne, ep_url = ne_url ne, ep_eventTypes = ne_eventTypes ne,
                ep_description = ne_description ne, ep_disabled = False, ep_rateLimit = ne_rateLimit ne,
                ep_createdAt = now, ep_secrets = [secret]\<rparr> (cf_view hq hp w))"
proof -
  let ?h = "cw_host w"
  from platform_calls(4) [OF assms(1) cf_okD(5) [OF ok]] obtain b where
    b: "host_call hok hq hp (pl_randomValues P) ?h (Inr b) (hq ?h) (hp ?h)" by blast
  let ?h1 = "snd (pl_randomValues P ?h)"
  have h1: "hok ?h1" "hq ?h1 = hq ?h" "hp ?h1 = hp ?h" using b by (simp_all add: host_call_def)
  from platform_calls(3) [OF assms(1) h1(1)] obtain i where
    i: "host_call hok hq hp (pl_randomUUID P) ?h1 (Inr i) (hq ?h1) (hp ?h1)" by blast
  let ?h2 = "snd (pl_randomUUID P ?h1)"
  have h2: "hok ?h2" "hq ?h2 = hq ?h" "hp ?h2 = hp ?h" using i h1 by (simp_all add: host_call_def)
  from platform_calls(1) [OF assms(1) h2(1)] obtain now where
    now: "host_call hok hq hp (pl_date_now P) ?h2 (Inr now) (hq ?h2) (hp ?h2)" by blast
  let ?h3 = "snd (pl_date_now P ?h2)"
  define e where "e = \<lparr>ep_endpointId = i, ep_tenant = ne_tenant ne, ep_url = ne_url ne, ep_eventTypes = ne_eventTypes ne,
      ep_description = ne_description ne, ep_disabled = False, ep_rateLimit = ne_rateLimit ne,
      ep_createdAt = now, ep_secrets = [generateSecret b]\<rparr>"
  have "cf_calls P hq hp hok (do_createEndpoint P ne) w (Inr (e, generateSecret b)) (put_endpoint e (cf_view hq hp w))"
    unfolding do_createEndpoint_def
  proof (rule tenant_put_calls [OF ok, where k = "ENDPOINT_PREFIX @ i" and v = "DoEndpoint e" and h = ?h3 and a = "ob_alarm (object_of (cw_tenants w) (ne_tenant ne))"])
    have "tenant_entry (ne_tenant ne) (ENDPOINT_PREFIX @ ep_endpointId e) (DoEndpoint e)"
      by (rule tenant_entry.endpoint) (simp_all add: e_def)
    then show "tenant_entry (ne_tenant ne) (ENDPOINT_PREFIX @ i) (DoEndpoint e)" by (simp add: e_def)
  qed (use b i now h2 in \<open>auto simp: host_call_def tdo_createEndpoint_def store_run Let_def cf_view_defs e_def\<close>)
  then show ?thesis unfolding e_def by blast
qed

lemma cf_endpoints_listed:
  assumes "cf_ok P hok w"
  shows "set (map snd (listing as_endpoint ENDPOINT_PREFIX (tenant_store w t))) = ran (v_endpoints (cf_view hq hp w) t)"
    and "distinct (map ep_endpointId (map snd (listing as_endpoint ENDPOINT_PREFIX (tenant_store w t))))"
proof -
  note ok = cf_okD(1) [OF assms, of t]
  have st: "distinct (map fst (tenant_store w t))" using ok by (simp add: tenant_object_ok_def)
  note key = tenant_endpoint_read [OF ok]
  show "set (map snd (listing as_endpoint ENDPOINT_PREFIX (tenant_store w t))) = ran (v_endpoints (cf_view hq hp w) t)"
    using key by (force simp: set_listing [OF st] ran_def cf_view_def image_def)
  have "map fst (listing as_endpoint ENDPOINT_PREFIX (tenant_store w t))
      = map (\<lambda>e. ENDPOINT_PREFIX @ ep_endpointId e) (map snd (listing as_endpoint ENDPOINT_PREFIX (tenant_store w t)))"
    using key by (auto simp: set_listing [OF st])
  then have "distinct (map (\<lambda>e. ENDPOINT_PREFIX @ ep_endpointId e) (map snd (listing as_endpoint ENDPOINT_PREFIX (tenant_store w t))))"
    using distinct_listing [OF st, of as_endpoint ENDPOINT_PREFIX] by metis
  then show "distinct (map ep_endpointId (map snd (listing as_endpoint ENDPOINT_PREFIX (tenant_store w t))))"
    by (simp add: distinct_map inj_on_def)
qed

lemma cf_listEndpoints:
  "cf_ok P hok w \<Longrightarrow> cf_calls P hq hp hok (do_listEndpoints t) w
     (Inr (map snd (listing as_endpoint ENDPOINT_PREFIX (tenant_store w t)))) (cf_view hq hp w)"
  unfolding do_listEndpoints_def
  by (rule tenant_reads) (simp_all add: tdo_listEndpoints_def storage_list_def bind_io_def)

lemma cf_matchEndpoints:
  "cf_ok P hok w \<Longrightarrow> cf_calls P hq hp hok (do_matchEndpoints t ty) w
     (Inr (filter (\<lambda>e. subscribes e ty) (map snd (listing as_endpoint ENDPOINT_PREFIX (tenant_store w t))))) (cf_view hq hp w)"
  unfolding do_matchEndpoints_def
  by (rule tenant_reads) (simp_all add: tdo_matchEndpoints_def tdo_listEndpoints_def storage_list_def bind_io_def)

lemma cf_endpoint_keys:
  "cf_ok P hok w \<Longrightarrow> v_endpoints (cf_view hq hp w) t i = Some e \<Longrightarrow> ep_tenant e = t \<and> ep_endpointId e = i \<and> ep_secrets e \<noteq> []"
  using tenant_endpoint_read [OF cf_okD(1)] by (force simp: cf_view_def)

lemma cf_updateEndpoint:
  assumes "cf_ok P hok w" and "v_endpoints (cf_view hq hp w) t i = Some e"
  shows "cf_calls P hq hp hok (do_updateEndpoint t i p) w (Inr (apply_patch p e)) (put_endpoint (apply_patch p e) (cf_view hq hp w))"
proof -
  note e = cf_endpoint_keys [OF assms]
  have "tenant_entry t (ENDPOINT_PREFIX @ ep_endpointId (apply_patch p e)) (DoEndpoint (apply_patch p e))"
    by (rule tenant_entry.endpoint) (use e in simp_all)
  then show ?thesis
    unfolding do_updateEndpoint_def
    by (intro tenant_put_calls [OF assms(1), where k = "ENDPOINT_PREFIX @ i" and v = "DoEndpoint (apply_patch p e)" and h = "cw_host w"
          and a = "ob_alarm (object_of (cw_tenants w) t)"])
       (use assms e in \<open>auto simp: tdo_updateEndpoint_def tdo_getEndpoint_def store_run Let_def apply_patch_def cf_view_defs cf_okD\<close>)
qed

lemma cf_missing:
  assumes "cf_ok P hok w" and "v_endpoints (cf_view hq hp w) t i = None"
  shows "cf_calls P hq hp hok (do_updateEndpoint t i p) w (Inl (Error (''endpoint not found: '' @ i))) (cf_view hq hp w)"
    and "cf_calls P hq hp hok (do_rotateSecret P t i) w (Inl (Error (''endpoint not found: '' @ i))) (cf_view hq hp w)"
  unfolding do_updateEndpoint_def do_rotateSecret_def
  by (rule tenant_reads [OF assms(1)],
      use assms(2) in \<open>simp add: tdo_updateEndpoint_def tdo_rotateSecret_def tdo_getEndpoint_def storage_get_def bind_io_def cf_view_def\<close>)+

lemma cf_rotateSecret:
  assumes "platform_ok P hq hp hok" and "cf_ok P hok w" and "v_endpoints (cf_view hq hp w) t i = Some e"
  shows "\<exists>secret. cf_calls P hq hp hok (do_rotateSecret P t i) w (Inr secret) (put_endpoint (rotate secret e) (cf_view hq hp w))"
proof -
  let ?h = "cw_host w"
  note e = cf_endpoint_keys [OF assms(2,3)]
  from platform_calls(4) [OF assms(1) cf_okD(5) [OF assms(2)]] obtain b where
    b: "host_call hok hq hp (pl_randomValues P) ?h (Inr b) (hq ?h) (hp ?h)" by blast
  let ?e = "rotate (generateSecret b) e"
  have "tenant_entry t (ENDPOINT_PREFIX @ ep_endpointId ?e) (DoEndpoint ?e)"
    by (rule tenant_entry.endpoint) (use e in \<open>simp_all add: rotate_def\<close>)
  then have "cf_calls P hq hp hok (do_rotateSecret P t i) w (Inr (generateSecret b)) (put_endpoint ?e (cf_view hq hp w))"
    unfolding do_rotateSecret_def
    by (intro tenant_put_calls [OF assms(2), where k = "ENDPOINT_PREFIX @ i" and v = "DoEndpoint ?e" and h = "snd (pl_randomValues P ?h)"
          and a = "ob_alarm (object_of (cw_tenants w) t)"])
       (use assms(3) b e in \<open>auto simp: tdo_rotateSecret_def tdo_getEndpoint_def store_run Let_def rotate_def cf_view_defs host_call_def\<close>)
  then show ?thesis by blast
qed

lemma cf_deleteEndpoint:
  "cf_ok P hok w \<Longrightarrow> cf_calls P hq hp hok (do_deleteEndpoint t i) w (Inr ()) (del_endpoint t i (cf_view hq hp w))"
  unfolding do_deleteEndpoint_def
  by (rule tenantStub_calls [where f = "tdo_deleteEndpoint i" and
        c = "(ctx_of (object_of (cw_tenants w) t) (cw_host w))\<lparr>dc_storage := AList.delete (ENDPOINT_PREFIX @ i) (tenant_store w t)\<rparr>"])
     (auto simp: tdo_deleteEndpoint_def storage_delete_def cf_view_defs cf_okD tenant_object_ok_delete)

lemma cf_message_keys:
  assumes "cf_ok P hok w" and "v_messages (cf_view hq hp w) t i = Some m"
  shows "msg_tenant m = t \<and> msg_messageId m = i \<and> read_as as_text (tenant_store w t) (MSG_INDEX_PREFIX @ i) = Some (msg_endpointId m)"
proof -
  from assms(2) obtain e where e: "read_as as_text (tenant_store w t) (MSG_INDEX_PREFIX @ i) = Some e"
    "read_as as_message (endpoint_store w t e) (MESSAGE_PREFIX @ i) = Some m"
    by (auto simp: cf_view_def bind_eq_Some_conv)
  from endpoint_message_read [OF cf_okD(2) [OF assms(1)] e(2)] e(1) show ?thesis by auto
qed

lemma cf_getMessage:
  assumes ok: "cf_ok P hok w"
  shows "\<exists>r. cf_calls P hq hp hok (do_getMessage t i) w (Inr r) (cf_view hq hp w)
    \<and> (r = v_messages (cf_view hq hp w) t i \<or> r = None \<and> (\<exists>m. v_messages (cf_view hq hp w) t i = Some m \<and> msg_endpointId m = []))"
proof -
  let ?idx = "read_as as_text (tenant_store w t) (MSG_INDEX_PREFIX @ i)"
  have look: "cf_calls P hq hp hok (tenantStub t (tdo_lookupMessageEndpoint i)) w (Inr ?idx) (cf_view hq hp w)"
    by (rule tenant_reads [OF ok]) (simp add: tdo_lookupMessageEndpoint_def storage_get_def)
  let ?w = "snd (tenantStub t (tdo_lookupMessageEndpoint i) w)"
  have w: "cf_ok P hok ?w" "cf_view hq hp ?w = cf_view hq hp w" "cf_sched P ?w = cf_sched P w"
    using look by (simp_all add: calls_def)
  have st: "endpoint_store ?w t e = endpoint_store w t e" for e by (simp add: tenantStub_def Let_def)
  have get: "cf_calls P hq hp hok (endpointStub t e (edo_getMessage i)) ?w
      (Inr (read_as as_message (endpoint_store w t e) (MESSAGE_PREFIX @ i))) (cf_view hq hp w)" for e
    unfolding w(2) [symmetric] by (rule endpoint_reads [OF w(1)]) (simp add: edo_getMessage_def storage_get_def st)
  let ?r = "case ?idx of None \<Rightarrow> None | Some e \<Rightarrow> if e = [] then None else read_as as_message (endpoint_store w t e) (MESSAGE_PREFIX @ i)"
  have "cf_calls P hq hp hok (do_getMessage t i) w (Inr ?r) (cf_view hq hp w)"
    using look get w unfolding do_getMessage_def by (auto simp: calls_def bind_io_def split: option.splits)
  moreover have "?r = v_messages (cf_view hq hp w) t i \<or> ?r = None \<and> (\<exists>m. v_messages (cf_view hq hp w) t i = Some m \<and> msg_endpointId m = [])"
  proof (cases "v_messages (cf_view hq hp w) t i")
    case None
    then show ?thesis by (auto simp: cf_view_def split: option.splits)
  next
    case (Some m)
    with cf_message_keys [OF ok Some] show ?thesis by (auto simp: cf_view_def)
  qed
  ultimately show ?thesis by blast
qed

lemma cf_getCircuit: "cf_ok P hok w \<Longrightarrow> cf_calls P hq hp hok (do_getCircuit t i) w (Inr (v_circuits (cf_view hq hp w) t i)) (cf_view hq hp w)"
  unfolding do_getCircuit_def by (rule endpoint_reads) (simp_all add: edo_getCircuit_def storage_get_def bind_io_def cf_view_def)

lemma cf_getRateBucket: "cf_ok P hok w \<Longrightarrow> cf_calls P hq hp hok (do_getRateBucket t i) w (Inr (v_buckets (cf_view hq hp w) t i)) (cf_view hq hp w)"
  unfolding do_getRateBucket_def by (rule endpoint_reads) (simp_all add: edo_getRateBucket_def storage_get_def cf_view_def)

lemma cf_listDlq:
  assumes "cf_ok P hok w" and "i \<noteq> []"
  shows "\<exists>rows. mset rows = v_dlq (cf_view hq hp w) t i \<and> cf_calls P hq hp hok (do_listDlq t (Some i)) w (Inr rows) (cf_view hq hp w)"
proof (intro exI conjI)
  show "mset (map snd (listing as_dlq DLQ_PREFIX (endpoint_store w t i))) = v_dlq (cf_view hq hp w) t i"
    unfolding mset_dlq_listing by (simp add: cf_view_def)
  show "cf_calls P hq hp hok (do_listDlq t (Some i)) w (Inr (map snd (listing as_dlq DLQ_PREFIX (endpoint_store w t i)))) (cf_view hq hp w)"
    using assms(2) unfolding do_listDlq_def
    by simp (rule endpoint_reads [OF assms(1)], simp add: edo_listDlq_def storage_list_def bind_io_def Let_def)
qed

text \<open>A new dead letter takes a new number, so it replaces none.\<close>

lemma cf_addToDlq:
  assumes "cf_ok P hok w"
  shows "cf_calls P hq hp hok (do_addToDlq m r) w (Inr ()) (add_dlq m r (cf_view hq hp w))"
proof -
  let ?t = "msg_tenant m" and ?i = "msg_endpointId m"
  let ?st = "endpoint_store w ?t ?i"
  let ?n = "dlq_seq ?st + 1"
  let ?st1 = "AList.update DLQ_SEQ_KEY (DoNum ?n) ?st"
  let ?st2 = "AList.update (dlqKey ?n (msg_messageId m)) (DoDlq (m, r)) ?st1"
  note ok = cf_okD(2) [OF assms, of ?t ?i]
  have seq [simp]: "dlq_seq ?st1 = ?n" by (simp add: dlq_seq_def)
  have ok1: "endpoint_storage_ok (pl_num_str P) ?t ?i ?st1"
    by (rule endpoint_storage_ok_update [OF ok]) (auto simp only: seq intro: endpoint_entry.intros)
  have ok2: "endpoint_storage_ok (pl_num_str P) ?t ?i ?st2"
  proof (rule endpoint_storage_ok_put [OF ok1])
    show "endpoint_entry (pl_num_str P) ?t ?i (dlq_seq ?st1) (dlqKey ?n (msg_messageId m)) (DoDlq (m, r))"
      unfolding seq by (rule endpoint_entry.dlq) simp_all
  qed simp
  have "map_of ?st1 (dlqKey ?n (msg_messageId m)) = None"
    using dlq_key_fresh [OF ok, of ?n] by simp
  then have rows: "dlq_rows ?st2 = add_mset (m, r) (dlq_rows ?st)"
    by (simp add: dlq_rows_new)
  show ?thesis
    unfolding do_addToDlq_def
  proof (rule endpointStub_calls [OF assms, where f = "edo_addToDlq m r" and c = "(ctx_of (endpoint_object w ?t ?i) (cw_host w))\<lparr>dc_storage := ?st2\<rparr>"])
    show "edo_addToDlq m r (ctx_of (endpoint_object w ?t ?i) (cw_host w)) = (Inr (), (ctx_of (endpoint_object w ?t ?i) (cw_host w))\<lparr>dc_storage := ?st2\<rparr>)"
      by (simp add: edo_addToDlq_def bind_io_def seq_io_def storage_get_def storage_put_def Let_def dlq_seq_def)
    show "endpoint_object_ok P ?t ?i (object_in ((ctx_of (endpoint_object w ?t ?i) (cw_host w))\<lparr>dc_storage := ?st2\<rparr>))"
      using ok2 cf_okD(3) [OF assms, of ?t ?i] by (simp add: endpoint_object_ok_def alarm_covers_def)
    show "cf_view hq hp (w\<lparr>cw_endpoints := AList.update (endpointDoName ?t ?i) (object_in ((ctx_of (endpoint_object w ?t ?i) (cw_host w))\<lparr>dc_storage := ?st2\<rparr>)) (cw_endpoints w),
        cw_host := dc_host ((ctx_of (endpoint_object w ?t ?i) (cw_host w))\<lparr>dc_storage := ?st2\<rparr>)\<rparr>) = add_dlq m r (cf_view hq hp w)"
      using rows by (auto simp: cf_view_endpoint_put cf_view_defs intro!: Option.bind_cong)
  qed (use cf_okD(5) [OF assms] in simp_all)
qed

subsection \<open>The delivery log\<close>

definition row_ok :: "view \<Rightarrow> delivery_query \<Rightarrow> delivery_record \<Rightarrow> bool" where
  "row_ok v q row \<longleftrightarrow> msg_tenant (fst row) = dq_tenant q \<and> query_matches q (fst row)
     \<and> filter (\<lambda>a. att_endpointId a = msg_endpointId (fst row)) (snd row)
         = v_attempts v (dq_tenant q) (msg_endpointId (fst row), msg_messageId (fst row))"

lemma map_io_pure: "(\<And>x. x \<in> set xs \<Longrightarrow> f x c = (Inr (g x), c)) \<Longrightarrow> map_io f xs c = (Inr (map g xs), c)"
  by (induction xs) (simp_all add: bind_io_def)

lemma map_io_reads:
  assumes "ok w" and "vw w = v" and "\<And>x w. x \<in> set xs \<Longrightarrow> ok w \<Longrightarrow> vw w = v \<Longrightarrow> \<exists>y. calls ok vw sched (f x) w (Inr y) v \<and> R y"
  shows "\<exists>ys. calls ok vw sched (map_io f xs) w (Inr ys) v \<and> (\<forall>y \<in> set ys. R y)"
  using assms
proof (induction xs arbitrary: w)
  case Nil
  then show ?case by (simp add: calls_def)
next
  case (Cons x xs)
  from Cons.prems(3) [of x w] Cons.prems(1,2) obtain y where y: "calls ok vw sched (f x) w (Inr y) v" "R y" by auto
  then have "ok (snd (f x w))" "vw (snd (f x w)) = v" by (simp_all add: calls_def)
  from Cons.IH [OF this] Cons.prems(3) obtain ys where
    "calls ok vw sched (map_io f xs) (snd (f x w)) (Inr ys) v" "\<forall>y \<in> set ys. R y" by auto
  with y show ?case by (intro exI [of _ "y # ys"]) (auto simp: calls_def bind_io_def)
qed

lemma set_when_text: "m \<in> set (when_text want field rows) \<Longrightarrow> m \<in> set rows \<and> text_matches want (field m)"
  by (auto simp: when_text_def text_matches_def split: option.splits if_splits)

lemma set_edo_select:
  "m \<in> set (edo_select q rows) \<Longrightarrow> text_matches (dq_endpointId q) (msg_endpointId m) \<Longrightarrow> m \<in> set rows \<and> query_matches q m"
  by (auto simp: edo_select_def query_matches_def Let_def split: option.splits dest!: set_when_text in_set_takeD)

lemma cf_endpoint_deliveries:
  assumes "cf_ok P hok w" and "text_matches (dq_endpointId q) i"
  shows "\<exists>rows. cf_calls P hq hp hok (endpointStub (dq_tenant q) i (edo_listDeliveries q)) w (Inr rows) (cf_view hq hp w)
    \<and> (\<forall>row \<in> set rows. row_ok (cf_view hq hp w) q row)"
proof (intro exI conjI ballI)
  let ?st = "endpoint_store w (dq_tenant q) i"
  let ?log = "\<lambda>m. case read_as as_attempts ?st (ATTEMPT_PREFIX @ msg_messageId m) of Some l \<Rightarrow> l | None \<Rightarrow> []"
  let ?rows = "map (\<lambda>m. (m, ?log m)) (edo_select q (map snd (listing as_message MESSAGE_PREFIX ?st)))"
  show "cf_calls P hq hp hok (endpointStub (dq_tenant q) i (edo_listDeliveries q)) w (Inr ?rows) (cf_view hq hp w)"
    by (rule endpoint_reads [OF assms(1)])
       (simp add: edo_listDeliveries_def storage_list_def bind_io_def, rule map_io_pure, simp add: storage_get_def)
  note ok = cf_okD(2) [OF assms(1), of "dq_tenant q" i]
  have st: "distinct (map fst ?st)" using ok by (simp add: endpoint_storage_ok_def)
  fix row assume "row \<in> set ?rows"
  then obtain m where m: "m \<in> set (edo_select q (map snd (listing as_message MESSAGE_PREFIX ?st)))" "row = (m, ?log m)" by auto
  have in_listing: "msg_tenant m' = dq_tenant q \<and> msg_endpointId m' = i" if "m' \<in> set (map snd (listing as_message MESSAGE_PREFIX ?st))" for m'
    using that endpoint_message_read [OF ok] by (auto simp: set_listing [OF st])
  have "set (edo_select q (map snd (listing as_message MESSAGE_PREFIX ?st))) \<subseteq> set (map snd (listing as_message MESSAGE_PREFIX ?st))"
    by (auto simp: edo_select_def Let_def split: option.splits dest!: set_when_text in_set_takeD)
  with m(1) in_listing have keys: "msg_tenant m = dq_tenant q" "msg_endpointId m = i" by blast+
  with set_edo_select [OF m(1)] assms(2) have "query_matches q m" by simp
  with keys show "row_ok (cf_view hq hp w) q row" by (simp add: row_ok_def m(2) cf_view_def)
qed

lemma cf_all_deliveries:
  assumes ok: "cf_ok P hok w" and "\<And>i. text_matches (dq_endpointId q) i"
  shows "\<exists>rows. cf_calls P hq hp hok (do_listAllDeliveries q) w (Inr rows) (cf_view hq hp w)
    \<and> (\<forall>row \<in> set rows. row_ok (cf_view hq hp w) q row)"
proof -
  let ?eps = "map snd (listing as_endpoint ENDPOINT_PREFIX (tenant_store w (dq_tenant q)))"
  note es = cf_listEndpoints [OF ok, of hq hp "dq_tenant q", unfolded do_listEndpoints_def]
  let ?w = "snd (tenantStub (dq_tenant q) tdo_listEndpoints w)"
  have w: "cf_ok P hok ?w" "cf_view hq hp ?w = cf_view hq hp w" "cf_sched P ?w = cf_sched P w"
    using es by (simp_all add: calls_def)
  have "\<exists>yss. cf_calls P hq hp hok (map_io (\<lambda>e. endpointStub (dq_tenant q) (ep_endpointId e) (edo_listDeliveries q)) ?eps) ?w (Inr yss) (cf_view hq hp w)
      \<and> (\<forall>ys \<in> set yss. \<forall>row \<in> set ys. row_ok (cf_view hq hp w) q row)"
    by (rule map_io_reads [where ok = "cf_ok P hok" and vw = "cf_view hq hp"]) (use w cf_endpoint_deliveries assms(2) in metis)+
  then obtain yss where yss: "cf_calls P hq hp hok (map_io (\<lambda>e. endpointStub (dq_tenant q) (ep_endpointId e) (edo_listDeliveries q)) ?eps) ?w (Inr yss) (cf_view hq hp w)"
    "\<forall>ys \<in> set yss. \<forall>row \<in> set ys. row_ok (cf_view hq hp w) q row" by blast
  let ?rows = "case dq_limit q of None \<Rightarrow> sort_desc (\<lambda>r. msg_createdAt (fst r)) (concat yss)
      | Some n \<Rightarrow> take n (sort_desc (\<lambda>r. msg_createdAt (fst r)) (concat yss))"
  have "cf_calls P hq hp hok (do_listAllDeliveries q) w (Inr ?rows) (cf_view hq hp w)"
    unfolding do_listAllDeliveries_def using es yss(1) w by (auto simp: calls_def bind_io_def Let_def)
  moreover have "\<forall>row \<in> set ?rows. row_ok (cf_view hq hp w) q row"
    using yss(2) by (auto split: option.splits dest!: in_set_takeD)
  ultimately show ?thesis by blast
qed

lemma cf_listDeliveries:
  assumes "cf_ok P hok w"
  shows "\<exists>rows. cf_calls P hq hp hok (do_listDeliveries q) w (Inr rows) (cf_view hq hp w) \<and> (\<forall>row \<in> set rows. row_ok (cf_view hq hp w) q row)"
  unfolding do_listDeliveries_def
  using cf_all_deliveries [OF assms, of q hq hp] cf_endpoint_deliveries [OF assms, of q _ hq hp]
  by (cases "dq_endpointId q") (auto simp: text_matches_def)

lemma cf_state_store:
  assumes "platform_ok P hq hp hok"
  shows "state_store_port (DoStateStore P) (cf_view hq hp) (cf_sched P) (cf_ok P hok)"
proof unfold_locales
  fix w t i m r assume "cf_ok P hok w" "(m, r) \<in># v_dlq (cf_view hq hp w) t i"
  then show "msg_tenant m = t \<and> msg_endpointId m = i" by (intro endpoint_dlq_read [OF cf_okD(2)]) (simp_all add: cf_view_def)
next
  fix w t assume ok: "cf_ok P hok w"
  note es = cf_endpoints_listed [OF ok, of t]
  show "\<exists>es. distinct (map ep_endpointId es) \<and> set es = ran (v_endpoints (cf_view hq hp w) t)
      \<and> cf_calls P hq hp hok (ss_listEndpoints (DoStateStore P) t) w (Inr es) (cf_view hq hp w)"
    using es cf_listEndpoints [OF ok, of hq hp t] unfolding DoStateStore_def state_store.simps by blast
  fix ty
  show "\<exists>es. distinct (map ep_endpointId es) \<and> set es = {e \<in> ran (v_endpoints (cf_view hq hp w) t). subscribes e ty}
      \<and> cf_calls P hq hp hok (ss_matchEndpoints (DoStateStore P) t ty) w (Inr es) (cf_view hq hp w)"
    using es cf_matchEndpoints [OF ok, of hq hp t ty] unfolding DoStateStore_def state_store.simps
    by (intro exI [of _ "filter (\<lambda>e. subscribes e ty) (map snd (listing as_endpoint ENDPOINT_PREFIX (tenant_store w t)))"])
       (simp add: distinct_map_filter flip: es(1) [of hq hp])
next
  fix w t i p assume "cf_ok P hok w" "v_endpoints (cf_view hq hp w) t i = None"
  note missing = cf_missing [OF this]
  show "cf_calls P hq hp hok (ss_updateEndpoint (DoStateStore P) t i p) w (Inl (Error (''endpoint not found: '' @ i))) (cf_view hq hp w)"
    "cf_calls P hq hp hok (ss_rotateSecret (DoStateStore P) t i) w (Inl (Error (''endpoint not found: '' @ i))) (cf_view hq hp w)"
    unfolding DoStateStore_def state_store.simps by (rule missing)+
next
  fix w q assume "cf_ok P hok w"
  from cf_listDeliveries [OF this, of hq hp q]
  show "\<exists>rows. cf_calls P hq hp hok (ss_listDeliveries (DoStateStore P) q) w (Inr rows) (cf_view hq hp w)
       \<and> (\<forall>(m, log) \<in> set rows. msg_tenant m = dq_tenant q \<and> query_matches q m
            \<and> filter (\<lambda>a. att_endpointId a = msg_endpointId m) log = v_attempts (cf_view hq hp w) (dq_tenant q) (msg_endpointId m, msg_messageId m))"
    unfolding DoStateStore_def row_ok_def by (fastforce simp: split_beta)
qed (simp_all add: DoStateStore_def cf_endpoint_keys cf_recordEvent_new cf_recordEvent_dup cf_finalizeEvent cf_createEndpoint [OF assms]
  cf_getEndpoint cf_updateEndpoint cf_rotateSecret [OF assms] cf_deleteEndpoint cf_putMessage cf_getMessage cf_appendAttempt
  cf_getCircuit cf_putCircuit cf_getRateBucket cf_putRateBucket cf_addToDlq cf_listDlq, use cf_message_keys in blast)

section \<open>The scheduler keeps its contract\<close>

lemma sched_entries_put:
  assumes "number_format num_str num_read"
  shows "sched_entries num_read (AList.update (schedKey num_str d i) (DoMessage m) st)
    = insert (m, d) {(m', t). \<exists>k. k \<noteq> schedKey num_str d i \<and> starts_with k SCHED_PREFIX \<and> read_as as_message st k = Some m' \<and> t = parseSchedAt num_read k}"
  using parse_schedKey [OF assms] by (auto simp: sched_entries_def)

text \<open>The entry that a retry replaces, if any, is one of the same message.\<close>

lemma entries_but_put:
  assumes "number_format num_str num_read" and "endpoint_storage_ok num_str (msg_tenant m) (msg_endpointId m) st"
  shows "entries_but m (sched_entries num_read (AList.update (schedKey num_str d (msg_messageId m)) (DoMessage m) st))
    = entries_but m (sched_entries num_read st)"
proof -
  have "msg_messageId m' = msg_messageId m \<and> msg_tenant m' = msg_tenant m"
    if "read_as as_message st (schedKey num_str d (msg_messageId m)) = Some m'" for m'
    using endpoint_message_read [OF assms(2) that] schedKey_inj [OF assms(1)] by auto
  then show ?thesis
    unfolding sched_entries_put [OF assms(1)] by (auto simp: entries_but_def sched_entries_def) metis+
qed

definition scheduled_object :: "'h cf_platform \<Rightarrow> message \<Rightarrow> millis \<Rightarrow> do_object \<Rightarrow> do_object" where
  "scheduled_object P m d x =
     \<lparr>ob_storage = AList.update (schedKey (pl_num_str P) d (msg_messageId m)) (DoMessage m) (ob_storage x),
      ob_alarm = Some (case ob_alarm x of None \<Rightarrow> d | Some a \<Rightarrow> min a d)\<rparr>"

lemma edo_scheduleRetry_run:
  "edo_scheduleRetry P m d (ctx_of x h) = (Inr (), ctx_of (scheduled_object P m d x) h)"
  by (simp add: edo_scheduleRetry_def seq_io_def bind_io_def storage_put_def getAlarm_def setAlarm_def ctx_of_def scheduled_object_def min_def split: option.splits)

lemma scheduled_object_ok:
  assumes "number_format (pl_num_str P) (pl_num_read P)" and "endpoint_object_ok P (msg_tenant m) (msg_endpointId m) x"
  shows "endpoint_object_ok P (msg_tenant m) (msg_endpointId m) (scheduled_object P m d x)"
proof -
  have "\<exists>a. ob_alarm x = Some a \<and> a \<le> t" if "(m', t) \<in> sched_entries (pl_num_read P) (ob_storage x)" for m' t
    using assms(2) that by (auto simp: endpoint_object_ok_def alarm_covers_def)
  moreover have "(m', t) = (m, d) \<or> (m', t) \<in> sched_entries (pl_num_read P) (ob_storage x)"
    if "(m', t) \<in> sched_entries (pl_num_read P) (ob_storage (scheduled_object P m d x))" for m' t
    using that unfolding scheduled_object_def do_object.simps sched_entries_put [OF assms(1)] by (auto simp: sched_entries_def)
  ultimately have "alarm_covers (pl_num_read P) (scheduled_object P m d x)"
    by (fastforce simp: alarm_covers_def scheduled_object_def min_le_iff_disj split: option.splits)
  moreover have "endpoint_storage_ok (pl_num_str P) (msg_tenant m) (msg_endpointId m) (ob_storage (scheduled_object P m d x))"
    using assms(2) unfolding scheduled_object_def do_object.simps
    by (intro endpoint_storage_ok_put) (auto simp: endpoint_object_ok_def intro: endpoint_entry.intros)
  ultimately show ?thesis by (simp add: endpoint_object_ok_def)
qed

lemma do_scheduleRetry_run:
  "do_scheduleRetry P m d w = (Inr (), w\<lparr>cw_endpoints := AList.update (endpointDoName (msg_tenant m) (msg_endpointId m))
     (scheduled_object P m d (endpoint_object w (msg_tenant m) (msg_endpointId m))) (cw_endpoints w)\<rparr>)"
  by (simp add: do_scheduleRetry_def endpointStub_def Let_def edo_scheduleRetry_run flip: endpoint_object_def)

lemma cf_scheduler:
  assumes "platform_ok P hq hp hok"
  shows "scheduler_port (DoScheduler P) (cf_view hq hp) (cf_sched P) (cf_ok P hok)"
proof -
  note nf = platform_number_format [OF assms]
  have store: "endpoint_store (snd (do_scheduleRetry P m d w)) t i
      = (if t = msg_tenant m \<and> i = msg_endpointId m
         then AList.update (schedKey (pl_num_str P) d (msg_messageId m)) (DoMessage m) (endpoint_store w t i) else endpoint_store w t i)" for m d w t i
    by (simp add: do_scheduleRetry_run scheduled_object_def)
  show ?thesis
  proof unfold_locales
    fix w m d assume ok: "cf_ok P hok w"
    show "fst (sch_scheduleRetry (DoScheduler P) m d w) = Inr ()" by (simp add: DoScheduler_def do_scheduleRetry_run)
    show "cf_view hq hp (snd (sch_scheduleRetry (DoScheduler P) m d w)) = cf_view hq hp w"
      unfolding DoScheduler_def scheduler.simps cf_view_def store
      by (auto simp: do_scheduleRetry_run fun_eq_iff intro!: Option.bind_cong)
    show "cf_ok P hok (snd (sch_scheduleRetry (DoScheduler P) m d w))"
      using ok scheduled_object_ok [OF nf] by (auto simp: DoScheduler_def do_scheduleRetry_run cf_ok_def)
    have "(m, d) \<in> sched_entries (pl_num_read P) (endpoint_store (snd (do_scheduleRetry P m d w)) (msg_tenant m) (msg_endpointId m))"
      unfolding store by (simp add: sched_entries_put [OF nf])
    then show "(m, d) \<in> cf_sched P (snd (sch_scheduleRetry (DoScheduler P) m d w))"
      unfolding DoScheduler_def scheduler.simps cf_sched_def by blast
    have "entries_but m (sched_entries (pl_num_read P) (endpoint_store (snd (do_scheduleRetry P m d w)) t i))
        = entries_but m (sched_entries (pl_num_read P) (endpoint_store w t i))" for t i
      unfolding store using entries_but_put [OF nf cf_okD(2) [OF ok]] by auto
    moreover have "entries_but m (\<Union>t i. f t i) = (\<Union>t i. entries_but m (f t i))" for f :: "string \<Rightarrow> string \<Rightarrow> (message \<times> millis) set"
      by (auto simp: entries_but_def)
    ultimately show "entries_but m (cf_sched P (snd (sch_scheduleRetry (DoScheduler P) m d w))) = entries_but m (cf_sched P w)"
      by (simp add: DoScheduler_def cf_sched_def)
  qed
qed

section \<open>The other ports and the engine\<close>

lemma in_host_calls:
  "cf_ok P hok w \<Longrightarrow> host_call hok hq hp f (cw_host w) r q p \<Longrightarrow>
   cf_calls P hq hp hok (in_host f) w r ((cf_view hq hp w)\<lparr>v_queue := q, v_posts := p\<rparr>)"
  by (auto simp: calls_def in_host_def host_call_def cf_ok_def cf_view_def cf_sched_def)

lemma cf_view_same [simp]:
  "(cf_view hq hp w)\<lparr>v_queue := hq (cw_host w), v_posts := hp (cw_host w)\<rparr> = cf_view hq hp w"
  by (simp add: cf_view_def)

lemma cf_clock: "platform_ok P hq hp hok \<Longrightarrow> clock_port (in_host (pl_date_now P)) (cf_view hq hp) (cf_sched P) (cf_ok P hok)"
  by unfold_locales (use platform_calls(1) cf_okD(5) in \<open>metis in_host_calls cf_view_same\<close>)

lemma cf_rng: "platform_ok P hq hp hok \<Longrightarrow> rng_port (in_host (pl_math_random P)) (cf_view hq hp) (cf_sched P) (cf_ok P hok)"
  by unfold_locales (use platform_calls(2) cf_okD(5) in \<open>metis in_host_calls cf_view_same\<close>)

lemma cf_policy: "policy_port (default_policy_port url_parse) (defaultUrlPolicy_check url_parse default_url_options) (cf_view hq hp) (cf_sched P) (cf_ok P hok)"
  by unfold_locales (simp add: calls_def default_policy_port_def)

lemma cf_telemetry: "telemetry_port noopTelemetry (cf_view hq hp) (cf_sched P) (cf_ok P hok)"
  by unfold_locales (simp add: calls_def noopTelemetry_def)

lemma cf_http:
  assumes "platform_ok P hq hp hok"
  shows "http_port (createFetchHttpClient (cf_fetch P) (Some (default_policy_port url_parse)) None)
    (defaultUrlPolicy_check url_parse default_url_options) (cf_view hq hp) (cf_sched P) (cf_ok P hok)"
proof unfold_locales
  fix w url body hs tmo assume ok: "cf_ok P hok w" and allowed: "pr_allowed (defaultUrlPolicy_check url_parse default_url_options url)"
  from platform_calls(5) [OF assms cf_okD(5) [OF ok]] obtain res where
    "host_call hok hq hp (pl_fetch P url body hs tmo) (cw_host w) (Inr res) (hq (cw_host w)) (hp (cw_host w) @ [(url, body, hs)])" by blast
  note call = in_host_calls [OF ok this]
  have v: "(cf_view hq hp w)\<lparr>v_queue := hq (cw_host w), v_posts := hp (cw_host w) @ [(url, body, hs)]\<rparr> = push_post (url, body, hs) (cf_view hq hp w)"
    by (simp add: cf_view_def push_post_def)
  show "\<exists>res. cf_calls P hq hp hok (http_post (createFetchHttpClient (cf_fetch P) (Some (default_policy_port url_parse)) None) url body hs tmo) w
      (Inr res) (push_post (url, body, hs) (cf_view hq hp w))"
    using call allowed unfolding v
    by (auto simp: createFetchHttpClient_def fetch_post_def cf_fetch_def Let_def default_policy_port_def calls_def bind_io_def)
qed

lemma cf_transport:
  assumes "platform_ok P hq hp hok"
  shows "transport_port (CfQueuesTransport P) (cf_view hq hp) (cf_sched P) (cf_ok P hok)"
proof unfold_locales
  fix w m assume ok: "cf_ok P hok w"
  have conn [simp]: "cf_ok P hok (w\<lparr>cw_producerConnected := b\<rparr>) = cf_ok P hok w" "cf_view hq hp (w\<lparr>cw_producerConnected := b\<rparr>) = cf_view hq hp w"
    "cf_sched P (w\<lparr>cw_producerConnected := b\<rparr>) = cf_sched P w" for w :: "'a cf_world" and b
    by (simp_all add: cf_ok_def cf_view_def cf_sched_def)
  have publish: "cf_calls P hq hp hok (in_host (pl_producer_publish P m)) u (Inr ()) (push_queue m (cf_view hq hp u))" if "cf_ok P hok u" for u
    using in_host_calls [OF that platform_calls(7) [OF assms cf_okD(5) [OF that]]] by (simp add: cf_view_def push_queue_def)
  have "cf_calls P hq hp hok (in_host (pl_producer_connect P)) w (Inr ()) (cf_view hq hp w)"
    using in_host_calls [OF ok platform_calls(6) [OF assms cf_okD(5) [OF ok]]] by simp
  with publish ok show "cf_calls P hq hp hok (tr_send (CfQueuesTransport P) m) w (Inr ()) (push_queue m (cf_view hq hp w))"
    by (auto simp: CfQueuesTransport_def cfq_send_def calls_def seq_io_def bind_io_def)
qed

lemma cf_engine_sel [simp]:
  "eng_transport (cf_engine P hmac url_parse sha) = CfQueuesTransport P" "eng_state (cf_engine P hmac url_parse sha) = DoStateStore P"
  "eng_scheduler (cf_engine P hmac url_parse sha) = DoScheduler P" "eng_clock (cf_engine P hmac url_parse sha) = in_host (pl_date_now P)"
  "eng_rng (cf_engine P hmac url_parse sha) = in_host (pl_math_random P)" "eng_telemetry (cf_engine P hmac url_parse sha) = noopTelemetry"
  "eng_retry (cf_engine P hmac url_parse sha) = \<lparr>scheduleMs = DEFAULT_SCHEDULE_MS\<rparr>"
  "eng_circuitCfg (cf_engine P hmac url_parse sha) = \<lparr>failureThreshold = DEFAULT_FAILURE_THRESHOLD, cooldownMs = DEFAULT_COOLDOWN_MS\<rparr>"
  "dp_http (eng_deliverPorts (cf_engine P hmac url_parse sha)) = createFetchHttpClient (cf_fetch P) (Some (default_policy_port url_parse)) None"
  "dp_signer (eng_deliverPorts (cf_engine P hmac url_parse sha)) = createSigner hmac"
  "dp_urlPolicy (eng_deliverPorts (cf_engine P hmac url_parse sha)) = default_policy_port url_parse"
  "dp_clock (eng_deliverPorts (cf_engine P hmac url_parse sha)) = in_host (pl_date_now P)"
  by (simp_all add: cf_engine_def WebhookEngine_def createAdapter_def cf_globals_def Let_def)

text \<open>The engine the Worker builds satisfies everything that is proved of the engine.\<close>

lemma cf_engine_ports:
  assumes "platform_ok P hq hp hok"
  shows "engine_ports (cf_engine P hmac url_parse sha) (defaultUrlPolicy_check url_parse default_url_options)
    (cf_view hq hp) (cf_sched P) (cf_ok P hok)"
  by (intro engine_ports.intro engine_ports_axioms.intro)
     (simp_all add: cf_clock cf_rng cf_http cf_policy cf_telemetry cf_transport cf_scheduler cf_state_store assms
        DEFAULT_SCHEDULE_MS_def DEFAULT_COOLDOWN_MS_def)

end
