(* ===== verification/Cf_Alarms.thy ===== *)
theory Cf_Alarms
  imports Cf_Contracts
begin

text \<open>
  The alarm of an endpoint's Durable Object: what \<open>processDueSchedules\<close> does to the scheduled retries, to
  the queue and to the alarm, on every path, a failing \<open>QUEUE.send\<close> included.
\<close>

section \<open>Splitting the schedule\<close>

lemma scan_due:
  "fst (foldl (scan_step num_read now) acc all) = fst acc @ filter (\<lambda>km. parseSchedAt num_read (fst km) \<le> now) all"
  by (induction all arbitrary: acc) (auto simp: scan_step_def Let_def)

text \<open>The earliest of the rest, or of what came before.\<close>

lemma scan_earliest:
  "(\<forall>a. snd acc = Some a \<longrightarrow> (\<exists>e. snd (foldl (scan_step num_read now) acc all) = Some e \<and> e \<le> a))
   \<and> (\<forall>km \<in> set all. now < parseSchedAt num_read (fst km) \<longrightarrow>
        (\<exists>e. snd (foldl (scan_step num_read now) acc all) = Some e \<and> e \<le> parseSchedAt num_read (fst km)))"
proof (induction all arbitrary: acc)
  case (Cons km all)
  let ?acc = "scan_step num_read now acc km" and ?t = "parseSchedAt num_read (fst km)"
  have "\<exists>a'. snd ?acc = Some a' \<and> a' \<le> a" if "snd acc = Some a" for a
    using that by (auto simp: scan_step_def Let_def)
  moreover have "\<exists>a'. snd ?acc = Some a' \<and> a' \<le> ?t" if "now < ?t"
    using that by (auto simp: scan_step_def Let_def split: option.splits)
  ultimately show ?case
    using Cons.IH [of ?acc] by (simp, meson order_trans)
qed simp

section \<open>Releasing the due ones\<close>

text \<open>The entries \<open>gone\<close> are queued and deleted, in this order; a throw leaves the others, the first of which
  may already be in the queue.\<close>

definition released ::
  "('h \<Rightarrow> message list) \<Rightarrow> 'h do_ctx \<Rightarrow> (string \<times> message) list \<Rightarrow> (string \<times> message) list \<Rightarrow> js_error + unit \<Rightarrow> 'h do_ctx \<Rightarrow> bool" where
  "released hq c gone rest r c' \<longleftrightarrow>
     dc_storage c' = fold (\<lambda>km. AList.delete (fst km)) gone (dc_storage c) \<and> dc_alarm c' = dc_alarm c
     \<and> (case r of Inr _ \<Rightarrow> rest = [] \<and> hq (dc_host c') = hq (dc_host c) @ map snd gone
        | Inl _ \<Rightarrow> rest \<noteq> [] \<and> (hq (dc_host c') = hq (dc_host c) @ map snd gone \<or> hq (dc_host c') = hq (dc_host c) @ map snd gone @ [snd (hd rest)]))"

lemma release_loop:
  assumes "platform_ok P hq hp hok" and "hok (dc_host c)"
  shows "\<exists>gone rest. due = gone @ rest \<and> released hq c gone rest (fst (for_io due (release_due P) c)) (snd (for_io due (release_due P) c))
    \<and> hok (dc_host (snd (for_io due (release_due P) c))) \<and> hp (dc_host (snd (for_io due (release_due P) c))) = hp (dc_host c)"
  using assms(2)
proof (induction due arbitrary: c)
  case Nil
  then show ?case by (simp add: released_def)
next
  case (Cons km due)
  let ?h = "dc_host c"
  from platform_calls(9) [OF assms(1) Cons.prems] obtain r q where
    send: "host_call hok hq hp (pl_queue_send P (snd km)) ?h r q (hp ?h)"
      "r = Inr () \<and> q = hq ?h @ [snd km] \<or> (\<exists>e. r = Inl e) \<and> (q = hq ?h \<or> q = hq ?h @ [snd km])" by blast
  let ?h1 = "snd (pl_queue_send P (snd km) ?h)"
  show ?case
  proof (cases r)
    case (Inl e)
    then have "for_io (km # due) (release_due P) c = (Inl e, c\<lparr>dc_host := ?h1\<rparr>)"
      using send(1) by (simp add: seq_io_def bind_io_def release_due_def on_host_def host_call_def)
    then show ?thesis
      using send Inl by (intro exI [of _ "[]"] exI [of _ "km # due"]) (auto simp: released_def host_call_def)
  next
    case (Inr u)
    let ?c = "c\<lparr>dc_host := ?h1, dc_storage := AList.delete (fst km) (dc_storage c)\<rparr>"
    have run: "for_io (km # due) (release_due P) c = for_io due (release_due P) ?c"
      using send(1) Inr by (simp add: seq_io_def bind_io_def release_due_def on_host_def storage_delete_def host_call_def)
    have h1: "hok ?h1" "hq ?h1 = hq ?h @ [snd km]" "hp ?h1 = hp ?h" using send Inr by (auto simp: host_call_def)
    from Cons.IH [of ?c] h1(1) obtain gone rest where IH: "due = gone @ rest"
      "released hq ?c gone rest (fst (for_io due (release_due P) ?c)) (snd (for_io due (release_due P) ?c))"
      "hok (dc_host (snd (for_io due (release_due P) ?c)))" "hp (dc_host (snd (for_io due (release_due P) ?c))) = hp (dc_host ?c)"
      by auto
    then show ?thesis
      unfolding run using h1
      by (intro exI [of _ "km # gone"] exI [of _ rest]) (auto simp: released_def split: sum.splits)
  qed
qed

lemma read_as_fold_delete:
  "read_as p (fold (\<lambda>km. AList.delete (fst km)) xs st) k = (if k \<in> fst ` set xs then None else read_as p st k)"
  by (induction xs arbitrary: st) auto

lemma fold_delete_ok:
  "endpoint_storage_ok num_str t i st \<Longrightarrow> DLQ_SEQ_KEY \<notin> fst ` set xs \<Longrightarrow>
   endpoint_storage_ok num_str t i (fold (\<lambda>km. AList.delete (fst km)) xs st)"
  by (induction xs arbitrary: st) (auto simp: endpoint_storage_ok_delete)

lemma map_of_fold_delete:
  "map_of (fold (\<lambda>km. AList.delete (fst km)) xs st) k = (if k \<in> fst ` set xs then None else map_of st k)"
  by (induction xs arbitrary: st) auto

lemma dlq_rows_fold_delete:
  "\<forall>km \<in> set xs. \<not> starts_with (fst km) DLQ_PREFIX \<Longrightarrow> dlq_rows (fold (\<lambda>km. AList.delete (fst km)) xs st) = dlq_rows st"
  by (induction xs arbitrary: st) auto

section \<open>What a run of the alarm does\<close>

lemma sched_entries_listing:
  assumes "distinct (map fst st)"
  shows "sched_entries num_read st = (\<lambda>km. (snd km, parseSchedAt num_read (fst km))) ` set (listing as_message SCHED_PREFIX st)"
  unfolding set_listing [OF assms] by (force simp: sched_entries_def)

lemma sched_entries_fold_delete:
  "sched_entries num_read (fold (\<lambda>km. AList.delete (fst km)) xs st)
   = {(m, t). \<exists>k. k \<notin> fst ` set xs \<and> starts_with k SCHED_PREFIX \<and> read_as as_message st k = Some m \<and> t = parseSchedAt num_read k}"
  by (auto simp: sched_entries_def read_as_fold_delete split: if_splits)

lemma processDueSchedules_effect:
  assumes "platform_ok P hq hp hok" and "hok (dc_host c)" and st: "endpoint_storage_ok num_str t i (dc_storage c)"
  obtains now gone rest where "fst (pl_date_now P (dc_host c)) = Inr now"
    and "gone @ rest = filter (\<lambda>km. parseSchedAt (pl_num_read P) (fst km) \<le> now) (listing as_message SCHED_PREFIX (dc_storage c))"
    and "dc_storage (snd (processDueSchedules P c)) = fold (\<lambda>km. AList.delete (fst km)) gone (dc_storage c)"
    and "hok (dc_host (snd (processDueSchedules P c)))" and "hp (dc_host (snd (processDueSchedules P c))) = hp (dc_host c)"
    and "case fst (processDueSchedules P c) of
        Inl _ \<Rightarrow> rest \<noteq> []
          \<and> (hq (dc_host (snd (processDueSchedules P c))) = hq (dc_host c) @ map snd gone
             \<or> hq (dc_host (snd (processDueSchedules P c))) = hq (dc_host c) @ map snd gone @ [snd (hd rest)])
      | Inr n \<Rightarrow> rest = [] \<and> hq (dc_host (snd (processDueSchedules P c))) = hq (dc_host c) @ map snd gone
          \<and> (\<forall>km \<in> set (listing as_message SCHED_PREFIX (dc_storage c)). now < parseSchedAt (pl_num_read P) (fst km) \<longrightarrow>
               (\<exists>e. dc_alarm (snd (processDueSchedules P c)) = Some e \<and> e \<le> parseSchedAt (pl_num_read P) (fst km)))"
proof -
  let ?h = "dc_host c" and ?all = "listing as_message SCHED_PREFIX (dc_storage c)"
  from platform_calls(1) [OF assms(1,2)] obtain now where now: "host_call hok hq hp (pl_date_now P) ?h (Inr now) (hq ?h) (hp ?h)" by blast
  let ?c = "c\<lparr>dc_host := snd (pl_date_now P ?h)\<rparr>"
  let ?split = "foldl (scan_step (pl_num_read P) now) ([], None) ?all"
  have h: "hok (dc_host ?c)" "hq (dc_host ?c) = hq ?h" "hp (dc_host ?c) = hp ?h" using now by (simp_all add: host_call_def)
  obtain gone rest where g: "fst ?split = gone @ rest"
    "released hq ?c gone rest (fst (for_io (fst ?split) (release_due P) ?c)) (snd (for_io (fst ?split) (release_due P) ?c))"
    "hok (dc_host (snd (for_io (fst ?split) (release_due P) ?c)))" "hp (dc_host (snd (for_io (fst ?split) (release_due P) ?c))) = hp (dc_host ?c)"
    using release_loop [OF assms(1) h(1), of "fst ?split"] by blast
  have run: "processDueSchedules P c = seq_io (for_io (fst ?split) (release_due P))
      (seq_io (case snd ?split of Some t \<Rightarrow> setAlarm t | None \<Rightarrow> return_io ()) (return_io (length (fst ?split)))) ?c"
    using now by (simp add: processDueSchedules_def bind_io_def on_host_def storage_list_def host_call_def Let_def)
  have due: "gone @ rest = filter (\<lambda>km. parseSchedAt (pl_num_read P) (fst km) \<le> now) ?all"
    using g(1) by (simp add: scan_due)
  note early = scan_earliest [of "([], None)" "pl_num_read P" now ?all, THEN conjunct2]
  show ?thesis
  proof (rule that [of now gone rest])
    show "fst (pl_date_now P ?h) = Inr now" using now by (simp add: host_call_def)
    show "gone @ rest = filter (\<lambda>km. parseSchedAt (pl_num_read P) (fst km) \<le> now) ?all" by (rule due)
  qed (use g h early in \<open>auto simp: run seq_io_def bind_io_def released_def setAlarm_def split: sum.splits option.splits\<close>)
qed

section \<open>The alarm in the world\<close>

text \<open>When an alarm fires, the platform clears it and calls \<open>alarm()\<close>; a throw makes it call again later.\<close>

definition fire_alarm :: "'h cf_platform \<Rightarrow> string \<Rightarrow> string \<Rightarrow> ('h cf_world, unit) io" where
  "fire_alarm P t i = endpointStub t i (\<lambda>c. alarm P (c\<lparr>dc_alarm := None\<rparr>))"

lemma listing_prefix: "distinct (map fst st) \<Longrightarrow> km \<in> set (listing p pre st) \<Longrightarrow> starts_with (fst km) pre"
  by (auto simp: set_listing)

lemma not_both_prefixes:
  "starts_with k SCHED_PREFIX \<Longrightarrow> \<not> starts_with k DLQ_PREFIX" "starts_with k SCHED_PREFIX \<Longrightarrow> k \<noteq> MESSAGE_PREFIX @ x"
  "starts_with k SCHED_PREFIX \<Longrightarrow> k \<noteq> ATTEMPT_PREFIX @ x" "starts_with k SCHED_PREFIX \<Longrightarrow> k \<noteq> CIRCUIT_KEY"
  "starts_with k SCHED_PREFIX \<Longrightarrow> k \<noteq> RATE_KEY" "starts_with k SCHED_PREFIX \<Longrightarrow> k \<noteq> DLQ_SEQ_KEY"
  by (auto simp: storage_keys starts_with_iff)

text \<open>Once all that is due is gone, an alarm that is no later than the rest covers the schedule.\<close>

lemma alarm_covers_rest:
  assumes "distinct (map fst st)" and "filter (\<lambda>km. parseSchedAt num_read (fst km) \<le> now) (listing as_message SCHED_PREFIX st) = gone"
    and "\<forall>km \<in> set (listing as_message SCHED_PREFIX st). now < parseSchedAt num_read (fst km) \<longrightarrow>
           (\<exists>a. al = Some a \<and> a \<le> parseSchedAt num_read (fst km))"
  shows "alarm_covers num_read \<lparr>ob_storage = fold (\<lambda>km. AList.delete (fst km)) gone st, ob_alarm = al\<rparr>"
proof -
  have "\<exists>a. al = Some a \<and> a \<le> parseSchedAt num_read k"
    if "k \<notin> fst ` set gone" "starts_with k SCHED_PREFIX" "read_as as_message st k = Some m" for k m
  proof -
    have k: "(k, m) \<in> set (listing as_message SCHED_PREFIX st)" using that(2,3) by (simp add: set_listing [OF assms(1)])
    have "(k, m) \<notin> set gone" using that(1) by force
    then have "now < parseSchedAt num_read k" using k unfolding assms(2) [symmetric] by simp
    with k assms(3) show ?thesis by fastforce
  qed
  then show ?thesis unfolding alarm_covers_def do_object.simps sched_entries_fold_delete by blast
qed

lemma fire_alarm_run:
  fixes w :: "'h cf_world" and t i :: string
  defines "c \<equiv> (ctx_of (endpoint_object w t i) (cw_host w))\<lparr>dc_alarm := None\<rparr>"
  shows "snd (fire_alarm P t i w) = w\<lparr>cw_endpoints := AList.update (endpointDoName t i) (object_in (snd (processDueSchedules P c))) (cw_endpoints w),
      cw_host := dc_host (snd (processDueSchedules P c))\<rparr>"
    and "fst (fire_alarm P t i w) = map_sum id (\<lambda>_. ()) (fst (processDueSchedules P c))"
  by (simp_all add: c_def fire_alarm_def endpointStub_def Let_def alarm_def bind_io_def split: sum.splits flip: endpoint_object_def)

lemma fire_alarm_effect:
  assumes "platform_ok P hq hp hok" and ok: "cf_stored P hok w"
  obtains now gone rest where "fst (pl_date_now P (cw_host w)) = Inr now"
    and "gone @ rest = filter (\<lambda>km. parseSchedAt (pl_num_read P) (fst km) \<le> now) (listing as_message SCHED_PREFIX (endpoint_store w t i))"
    and "\<And>t' i'. endpoint_store (snd (fire_alarm P t i w)) t' i'
           = (if t' = t \<and> i' = i then fold (\<lambda>km. AList.delete (fst km)) gone (endpoint_store w t i) else endpoint_store w t' i')"
    and "cw_tenants (snd (fire_alarm P t i w)) = cw_tenants w" and "hok (cw_host (snd (fire_alarm P t i w)))"
    and "hp (cw_host (snd (fire_alarm P t i w))) = hp (cw_host w)"
    and "case fst (fire_alarm P t i w) of
        Inl _ \<Rightarrow> rest \<noteq> [] \<and> (hq (cw_host (snd (fire_alarm P t i w))) = hq (cw_host w) @ map snd gone
             \<or> hq (cw_host (snd (fire_alarm P t i w))) = hq (cw_host w) @ map snd gone @ [snd (hd rest)])
      | Inr _ \<Rightarrow> rest = [] \<and> hq (cw_host (snd (fire_alarm P t i w))) = hq (cw_host w) @ map snd gone
          \<and> cf_stored P hok (snd (fire_alarm P t i w)) \<and> alarm_covers (pl_num_read P) (endpoint_object (snd (fire_alarm P t i w)) t i)"
proof -
  let ?c = "(ctx_of (endpoint_object w t i) (cw_host w))\<lparr>dc_alarm := None\<rparr>"
  note st = cf_storedD(2) [OF ok, of t i]
  have dist: "distinct (map fst (endpoint_store w t i))" using st by (simp add: endpoint_storage_ok_def)
  have c: "hok (dc_host ?c)" "endpoint_storage_ok (pl_num_str P) t i (dc_storage ?c)" using cf_storedD(3) [OF ok] st by simp_all
  have c_sel: "dc_host ?c = cw_host w" "dc_storage ?c = endpoint_store w t i" by simp_all
  obtain now gone rest where e:
    "fst (pl_date_now P (cw_host w)) = Inr now"
    "gone @ rest = filter (\<lambda>km. parseSchedAt (pl_num_read P) (fst km) \<le> now) (listing as_message SCHED_PREFIX (endpoint_store w t i))"
    "dc_storage (snd (processDueSchedules P ?c)) = fold (\<lambda>km. AList.delete (fst km)) gone (endpoint_store w t i)"
    "hok (dc_host (snd (processDueSchedules P ?c)))" "hp (dc_host (snd (processDueSchedules P ?c))) = hp (cw_host w)"
    "case fst (processDueSchedules P ?c) of
        Inl _ \<Rightarrow> rest \<noteq> [] \<and> (hq (dc_host (snd (processDueSchedules P ?c))) = hq (cw_host w) @ map snd gone
             \<or> hq (dc_host (snd (processDueSchedules P ?c))) = hq (cw_host w) @ map snd gone @ [snd (hd rest)])
      | Inr n \<Rightarrow> rest = [] \<and> hq (dc_host (snd (processDueSchedules P ?c))) = hq (cw_host w) @ map snd gone
          \<and> (\<forall>km \<in> set (listing as_message SCHED_PREFIX (endpoint_store w t i)). now < parseSchedAt (pl_num_read P) (fst km) \<longrightarrow>
               (\<exists>a. dc_alarm (snd (processDueSchedules P ?c)) = Some a \<and> a \<le> parseSchedAt (pl_num_read P) (fst km)))"
    by (rule processDueSchedules_effect [OF assms(1) c, unfolded c_sel])
  have "set gone \<subseteq> set (listing as_message SCHED_PREFIX (endpoint_store w t i))"
    using arg_cong [OF e(2), of set] by auto
  then have pre: "starts_with (fst km) SCHED_PREFIX" if "km \<in> set gone" for km using that listing_prefix [OF dist] by blast
  let ?x = "object_in (snd (processDueSchedules P ?c))"
  have "endpoint_storage_ok (pl_num_str P) t i (ob_storage ?x)"
    unfolding object_in_def do_object.simps e(3) by (rule fold_delete_ok [OF st]) (auto dest!: pre)
  then have "cf_stored P hok (snd (fire_alarm P t i w))"
    using ok e(4) unfolding fire_alarm_run by (auto simp: cf_stored_def)
  moreover have "alarm_covers (pl_num_read P) (endpoint_object (snd (fire_alarm P t i w)) t i)" if "fst (processDueSchedules P ?c) = Inr n" for n
    unfolding fire_alarm_run object_in_def e(3) by (simp, rule alarm_covers_rest [OF dist]) (use e(2,6) that in auto)
  ultimately show ?thesis
    by (intro that [of now gone rest]) (use e in \<open>auto simp: fire_alarm_run object_in_def split: sum.splits\<close>)
qed

lemma sched_owner:
  assumes "cf_stored P hok w" and "(m, d) \<in> sched_entries (pl_num_read P) (endpoint_store w t i)"
  shows "msg_tenant m = t \<and> msg_endpointId m = i"
  using assms(2) endpoint_message_read [OF cf_storedD(2) [OF assms(1)]] by (auto simp: sched_entries_def)

text \<open>What the alarm does on every path: entries are deleted, and their messages are among the queued ones.\<close>

lemma fire_alarm_released:
  assumes "platform_ok P hq hp hok" and ok: "cf_stored P hok w"
  obtains gone ms where "set gone \<subseteq> set (listing as_message SCHED_PREFIX (endpoint_store w t i))"
    and "\<And>t' i'. endpoint_store (snd (fire_alarm P t i w)) t' i'
           = (if t' = t \<and> i' = i then fold (\<lambda>km. AList.delete (fst km)) gone (endpoint_store w t i) else endpoint_store w t' i')"
    and "cw_tenants (snd (fire_alarm P t i w)) = cw_tenants w" and "hp (cw_host (snd (fire_alarm P t i w))) = hp (cw_host w)"
    and "hq (cw_host (snd (fire_alarm P t i w))) = hq (cw_host w) @ ms" and "snd ` set gone \<subseteq> set ms"
    and "set ms \<subseteq> snd ` set (listing as_message SCHED_PREFIX (endpoint_store w t i))"
proof (rule fire_alarm_effect [OF assms, where t = t and i = i])
  let ?w = "snd (fire_alarm P t i w)" and ?all = "listing as_message SCHED_PREFIX (endpoint_store w t i)"
  fix now gone rest
  assume due: "gone @ rest = filter (\<lambda>km. parseSchedAt (pl_num_read P) (fst km) \<le> now) ?all"
    and store: "\<And>t' i'. endpoint_store ?w t' i' = (if t' = t \<and> i' = i then fold (\<lambda>km. AList.delete (fst km)) gone (endpoint_store w t i) else endpoint_store w t' i')"
    and same: "cw_tenants ?w = cw_tenants w" "hp (cw_host ?w) = hp (cw_host w)"
    and q: "case fst (fire_alarm P t i w) of
        Inl _ \<Rightarrow> rest \<noteq> [] \<and> (hq (cw_host ?w) = hq (cw_host w) @ map snd gone \<or> hq (cw_host ?w) = hq (cw_host w) @ map snd gone @ [snd (hd rest)])
      | Inr _ \<Rightarrow> rest = [] \<and> hq (cw_host ?w) = hq (cw_host w) @ map snd gone \<and> cf_stored P hok ?w \<and> alarm_covers (pl_num_read P) (endpoint_object ?w t i)"
  have listed: "set gone \<subseteq> set ?all" "set rest \<subseteq> set ?all" using arg_cong [OF due, of set] by auto
  from q consider "hq (cw_host ?w) = hq (cw_host w) @ map snd gone"
    | "rest \<noteq> []" "hq (cw_host ?w) = hq (cw_host w) @ (map snd gone @ [snd (hd rest)])"
    by (auto split: sum.splits)
  then show ?thesis
  proof cases
    case 1
    then show ?thesis by (rule that [OF listed(1) store same]) (simp_all add: image_mono listed)
  next
    case 2
    then have "hd rest \<in> set ?all" using listed(2) by (meson hd_in_set subsetD)
    then show ?thesis by (intro that [OF listed(1) store same 2(2)]) (simp_all add: image_mono listed subset_insertI)
  qed
qed

lemma sched_entries_released:
  assumes "distinct (map fst st)" and "set gone \<subseteq> set (listing as_message SCHED_PREFIX st)" and "x \<in> sched_entries num_read st"
  shows "x \<in> sched_entries num_read (fold (\<lambda>km. AList.delete (fst km)) gone st) \<or> fst x \<in> snd ` set gone"
proof -
  from assms(3) obtain k where k: "starts_with k SCHED_PREFIX" "read_as as_message st k = Some (fst x)" "snd x = parseSchedAt num_read k"
    by (auto simp: sched_entries_def)
  show ?thesis
  proof (cases "k \<in> fst ` set gone")
    case True
    then obtain km where km: "km \<in> set gone" "fst km = k" by auto
    with assms(2) k(2) have "snd km = fst x" by (auto simp: set_listing [OF assms(1)])
    with km(1) show ?thesis by force
  qed (use k in \<open>auto simp: sched_entries_fold_delete prod_eq_iff split_beta\<close>)
qed

text \<open>What the alarm leaves of the schedule, and that it changes nothing else, on every path.\<close>

lemma fire_alarm_schedule:
  assumes "platform_ok P hq hp hok" and ok: "cf_stored P hok w"
  shows "x \<in> cf_sched P w \<Longrightarrow> x \<in> cf_sched P (snd (fire_alarm P t i w)) \<or> fst x \<in> set (hq (cw_host (snd (fire_alarm P t i w))))"
    and "cf_sched P (snd (fire_alarm P t i w)) \<subseteq> cf_sched P w"
    and "\<exists>ms. hq (cw_host (snd (fire_alarm P t i w))) = hq (cw_host w) @ ms \<and> set ms \<subseteq> fst ` cf_sched P w"
proof -
  let ?w = "snd (fire_alarm P t i w)" and ?st = "endpoint_store w t i"
  have dist: "distinct (map fst ?st)" using cf_storedD(2) [OF ok, of t i] by (simp add: endpoint_storage_ok_def)
  obtain gone ms where gone: "set gone \<subseteq> set (listing as_message SCHED_PREFIX ?st)"
    and store: "\<And>t' i'. endpoint_store ?w t' i' = (if t' = t \<and> i' = i then fold (\<lambda>km. AList.delete (fst km)) gone ?st else endpoint_store w t' i')"
    and q: "hq (cw_host ?w) = hq (cw_host w) @ ms" "snd ` set gone \<subseteq> set ms" "set ms \<subseteq> snd ` set (listing as_message SCHED_PREFIX ?st)"
    by (rule fire_alarm_released [OF assms, where t = t and i = i], rule that)
  have "snd ` set (listing as_message SCHED_PREFIX ?st) = fst ` sched_entries (pl_num_read P) ?st"
    unfolding sched_entries_listing [OF dist] image_image by simp
  moreover have "sched_entries (pl_num_read P) ?st \<subseteq> cf_sched P w" unfolding cf_sched_def by blast
  ultimately have "set ms \<subseteq> fst ` cf_sched P w" using q(3) by (metis image_mono order_trans)
  with q(1) show "\<exists>ms. hq (cw_host ?w) = hq (cw_host w) @ ms \<and> set ms \<subseteq> fst ` cf_sched P w" by blast
  have "sched_entries (pl_num_read P) (endpoint_store ?w t' i') \<subseteq> sched_entries (pl_num_read P) (endpoint_store w t' i')" for t' i'
    unfolding store by (fastforce simp: sched_entries_def read_as_fold_delete split: if_splits)
  then show "cf_sched P ?w \<subseteq> cf_sched P w" unfolding cf_sched_def by blast
  show "x \<in> cf_sched P ?w \<or> fst x \<in> set (hq (cw_host ?w))" if x: "x \<in> cf_sched P w"
  proof -
    from x obtain t' i' where "x \<in> sched_entries (pl_num_read P) (endpoint_store w t' i')" by (auto simp: cf_sched_def)
    then have "x \<in> sched_entries (pl_num_read P) (endpoint_store ?w t' i') \<or> fst x \<in> snd ` set gone"
      using sched_entries_released [OF dist gone, of x] unfolding store by presburger
    then have "x \<in> cf_sched P ?w \<or> fst x \<in> set ms" using q(2) unfolding cf_sched_def by blast
    then show ?thesis by (auto simp: q(1))
  qed
qed

lemma fire_alarm_view:
  assumes "platform_ok P hq hp hok" and ok: "cf_stored P hok w"
  shows "cf_view hq hp (snd (fire_alarm P t i w)) = (cf_view hq hp w)\<lparr>v_queue := hq (cw_host (snd (fire_alarm P t i w)))\<rparr>"
proof -
  let ?w = "snd (fire_alarm P t i w)" and ?st = "endpoint_store w t i"
  have dist: "distinct (map fst ?st)" using cf_storedD(2) [OF ok, of t i] by (simp add: endpoint_storage_ok_def)
  obtain gone where gone: "set gone \<subseteq> set (listing as_message SCHED_PREFIX ?st)"
    and store: "\<And>t' i'. endpoint_store ?w t' i' = (if t' = t \<and> i' = i then fold (\<lambda>km. AList.delete (fst km)) gone ?st else endpoint_store w t' i')"
    and same: "cw_tenants ?w = cw_tenants w" "hp (cw_host ?w) = hp (cw_host w)"
    by (rule fire_alarm_released [OF assms, where t = t and i = i], rule that)
  have pre: "starts_with (fst km) SCHED_PREFIX" if "km \<in> set gone" for km using that gone listing_prefix [OF dist] by blast
  have other: "read_as p (endpoint_store ?w t' i') k = read_as p (endpoint_store w t' i') k" if "\<not> starts_with k SCHED_PREFIX"
    for t' i' k and p :: "do_value \<Rightarrow> 'b option"
    using that pre unfolding store by (fastforce simp: read_as_fold_delete)
  have dlq: "dlq_rows (endpoint_store ?w t' i') = dlq_rows (endpoint_store w t' i')" for t' i'
    using dlq_rows_fold_delete [of gone ?st] not_both_prefixes(1) [OF pre] by (simp add: store)
  have keys: "\<not> starts_with (MESSAGE_PREFIX @ x) SCHED_PREFIX" "\<not> starts_with (ATTEMPT_PREFIX @ x) SCHED_PREFIX"
    "\<not> starts_with CIRCUIT_KEY SCHED_PREFIX" "\<not> starts_with RATE_KEY SCHED_PREFIX" for x
    using not_both_prefixes by blast+
  show ?thesis
    unfolding cf_view_def other [OF keys(1)] other [OF keys(2)] other [OF keys(3)] other [OF keys(4)] dlq
    by (simp add: same)
qed

end
