(* ===== verification/Cf_Interleaving.thy ===== *)
theory Cf_Interleaving
  imports Cf_Alarms
begin

text \<open>
  The alarm of an endpoint's object while other requests come in. A Durable Object runs one event at a time,
  except while one waits for something outside its storage: \<open>processDueSchedules\<close> waits for \<open>QUEUE.send\<close>, and
  meanwhile \<open>scheduleRetry\<close> and the other methods may run. The step relation has one step per stretch between
  two such waits.
\<close>

section \<open>The steps\<close>

text \<open>The object, the run of the alarm that is under way (the entries still to release and the earliest of the rest),
  and how many runs in a row have thrown.\<close>

record 'h alarm_state =
  al_ctx :: "'h do_ctx"
  al_run :: "((string \<times> message) list \<times> millis option) option"
  al_failed :: nat

text \<open>
  The keys that \<open>scheduleRetry\<close> may write meanwhile are \<open>K\<close>; the other methods write no key of the schedule.
  When the alarm fires, the platform clears it. When a run throws, the platform sets an alarm to run it again, but
  it may give up once \<open>retries\<close> runs in a row have thrown before (Cloudflare documents six); then no alarm is set
  but what \<open>scheduleRetry\<close> has set meanwhile.
\<close>

inductive alarm_step :: "'h cf_platform \<Rightarrow> nat \<Rightarrow> string set \<Rightarrow> 'h alarm_state \<Rightarrow> 'h alarm_state \<Rightarrow> bool" for P retries K where
  schedule:
    "schedKey (pl_num_str P) t (msg_messageId m) \<in> K \<Longrightarrow>
     alarm_step P retries K s (s\<lparr>al_ctx := snd (edo_scheduleRetry P m t (al_ctx s))\<rparr>)"
| other:
    "\<not> starts_with k SCHED_PREFIX \<Longrightarrow> alarm_step P retries K s (s\<lparr>al_ctx := snd (storage_put k v (al_ctx s))\<rparr>)"
| fire:
    "al_run s = None \<Longrightarrow> fst (pl_date_now P (dc_host (al_ctx s))) = Inr now \<Longrightarrow>
     alarm_step P retries K s
       (s\<lparr>al_ctx := (al_ctx s)\<lparr>dc_alarm := None, dc_host := snd (pl_date_now P (dc_host (al_ctx s)))\<rparr>,
          al_run := Some (foldl (scan_step (pl_num_read P) now) ([], None) (listing as_message SCHED_PREFIX (dc_storage (al_ctx s))))\<rparr>)"
| release:
    "al_run s = Some (km # due, e) \<Longrightarrow> fst (release_due P km (al_ctx s)) = Inr () \<Longrightarrow>
     alarm_step P retries K s (s\<lparr>al_ctx := snd (release_due P km (al_ctx s)), al_run := Some (due, e)\<rparr>)"
| throw:
    "al_run s = Some (km # due, e) \<Longrightarrow> fst (release_due P km (al_ctx s)) = Inl err \<Longrightarrow>
     alarm_step P retries K s \<lparr>al_ctx = (snd (release_due P km (al_ctx s)))\<lparr>dc_alarm := Some again\<rparr>, al_run = None, al_failed = al_failed s + 1\<rparr>"
| give_up:
    "al_run s = Some (km # due, e) \<Longrightarrow> fst (release_due P km (al_ctx s)) = Inl err \<Longrightarrow> retries \<le> al_failed s \<Longrightarrow>
     alarm_step P retries K s \<lparr>al_ctx = snd (release_due P km (al_ctx s)), al_run = None, al_failed = al_failed s + 1\<rparr>"
| finish:
    "al_run s = Some ([], e) \<Longrightarrow>
     alarm_step P retries K s
       \<lparr>al_ctx = snd ((case e of Some t \<Rightarrow> setAlarm t | None \<Rightarrow> return_io ()) (al_ctx s)), al_run = None, al_failed = 0\<rparr>"

text \<open>A run that nothing interrupts is \<open>processDueSchedules\<close>.\<close>

lemma release_steps:
  "fst (for_io due (release_due P) c) = Inr () \<Longrightarrow>
   (alarm_step P retries K)\<^sup>*\<^sup>* \<lparr>al_ctx = c, al_run = Some (due, e), al_failed = n\<rparr>
     \<lparr>al_ctx = snd (for_io due (release_due P) c), al_run = Some ([], e), al_failed = n\<rparr>"
proof (induction due arbitrary: c)
  case (Cons km due)
  let ?c = "snd (release_due P km c)"
  have ok: "fst (release_due P km c) = Inr ()" "for_io (km # due) (release_due P) c = for_io due (release_due P) ?c"
    using Cons.prems by (auto simp: seq_io_def bind_io_def split: sum.splits)
  have "alarm_step P retries K \<lparr>al_ctx = c, al_run = Some (km # due, e), al_failed = n\<rparr> \<lparr>al_ctx = ?c, al_run = Some (due, e), al_failed = n\<rparr>"
    using alarm_step.release [of "\<lparr>al_ctx = c, al_run = Some (km # due, e), al_failed = n\<rparr>" km due e P retries K] ok(1) by simp
  with Cons.IH [of ?c] Cons.prems ok(2) show ?case by (simp add: converse_rtranclp_into_rtranclp)
qed simp

lemma alarm_run_steps:
  assumes "fst (processDueSchedules P (c\<lparr>dc_alarm := None\<rparr>)) = Inr n"
  shows "(alarm_step P retries K)\<^sup>*\<^sup>* \<lparr>al_ctx = c, al_run = None, al_failed = f\<rparr>
    \<lparr>al_ctx = snd (processDueSchedules P (c\<lparr>dc_alarm := None\<rparr>)), al_run = None, al_failed = 0\<rparr>"
proof -
  let ?d = "pl_date_now P (dc_host c)"
  obtain now where now: "fst ?d = Inr now"
    using assms by (cases "fst ?d") (auto simp: processDueSchedules_def bind_io_def on_host_def)
  let ?split = "foldl (scan_step (pl_num_read P) now) ([], None) (listing as_message SCHED_PREFIX (dc_storage c))"
  let ?c = "c\<lparr>dc_alarm := None, dc_host := snd ?d\<rparr>"
  let ?loop = "for_io (fst ?split) (release_due P) ?c"
  have run: "processDueSchedules P (c\<lparr>dc_alarm := None\<rparr>) = seq_io (for_io (fst ?split) (release_due P))
      (seq_io (case snd ?split of Some t \<Rightarrow> setAlarm t | None \<Rightarrow> return_io ()) (return_io (length (fst ?split)))) ?c"
    using now by (simp add: processDueSchedules_def bind_io_def on_host_def storage_list_def Let_def)
  have ok: "fst ?loop = Inr ()" using assms unfolding run by (auto simp: seq_io_def bind_io_def split: sum.splits)
  have end_ctx: "snd (processDueSchedules P (c\<lparr>dc_alarm := None\<rparr>)) = snd ((case snd ?split of Some t \<Rightarrow> setAlarm t | None \<Rightarrow> return_io ()) (snd ?loop))"
    unfolding run using ok by (auto simp: seq_io_def bind_io_def setAlarm_def split: option.splits)
  have a: "alarm_step P retries K \<lparr>al_ctx = c, al_run = None, al_failed = f\<rparr> \<lparr>al_ctx = ?c, al_run = Some ?split, al_failed = f\<rparr>"
    using alarm_step.fire [of "\<lparr>al_ctx = c, al_run = None, al_failed = f\<rparr>" P now retries K] now by simp
  have b: "(alarm_step P retries K)\<^sup>*\<^sup>* \<lparr>al_ctx = ?c, al_run = Some ?split, al_failed = f\<rparr>
      \<lparr>al_ctx = snd ?loop, al_run = Some ([], snd ?split), al_failed = f\<rparr>"
    using release_steps [OF ok, of retries K "snd ?split"] by simp
  have c: "alarm_step P retries K \<lparr>al_ctx = snd ?loop, al_run = Some ([], snd ?split), al_failed = f\<rparr>
      \<lparr>al_ctx = snd (processDueSchedules P (c\<lparr>dc_alarm := None\<rparr>)), al_run = None, al_failed = 0\<rparr>"
    unfolding end_ctx
    using alarm_step.finish [of "\<lparr>al_ctx = snd ?loop, al_run = Some ([], snd ?split), al_failed = f\<rparr>" "snd ?split" P retries K] by simp
  show ?thesis by (rule converse_rtranclp_into_rtranclp [OF a rtranclp.rtrancl_into_rtrancl [OF b c]])
qed

section \<open>What every step keeps\<close>

abbreviation sched_at :: "storage \<Rightarrow> string \<Rightarrow> message option" where
  "sched_at st k \<equiv> (if starts_with k SCHED_PREFIX then read_as as_message st k else None)"

definition keyed :: "(rat \<Rightarrow> string) \<Rightarrow> storage \<Rightarrow> bool" where
  "keyed num_str st \<longleftrightarrow>
     distinct (map fst st) \<and> (\<forall>k m. sched_at st k = Some m \<longrightarrow> (\<exists>t. k = schedKey num_str t (msg_messageId m)))"

lemma schedKey_prefix [simp]: "starts_with (schedKey num_str t i) SCHED_PREFIX"
  by (simp add: schedKey_def starts_with_iff)

lemma keyed_put_sched: "keyed num_str st \<Longrightarrow> keyed num_str (AList.update (schedKey num_str t (msg_messageId m)) (DoMessage m) st)"
  by (auto simp: keyed_def)

lemma keyed_put_other: "keyed num_str st \<Longrightarrow> \<not> starts_with k SCHED_PREFIX \<Longrightarrow> keyed num_str (AList.update k v st)"
  by (auto simp: keyed_def)

lemma keyed_delete: "keyed num_str st \<Longrightarrow> keyed num_str (AList.delete k st)"
  by (auto simp: keyed_def)

lemma keyed_same_message:
  "number_format num_str num_read \<Longrightarrow> keyed num_str st \<Longrightarrow> sched_at st k = Some m \<Longrightarrow> keyed num_str st' \<Longrightarrow> sched_at st' k = Some m' \<Longrightarrow>
   msg_messageId m' = msg_messageId m"
  unfolding keyed_def by (metis schedKey_inj)

text \<open>As long as an alarm is missing, every entry is about to be released or the run is about to set one, unless
  the platform has given up.\<close>

definition armed :: "nat \<Rightarrow> 'h alarm_state \<Rightarrow> bool" where
  "armed retries s \<longleftrightarrow>
     (dc_alarm (al_ctx s) = None \<longrightarrow>
        (\<forall>k m. sched_at (dc_storage (al_ctx s)) k = Some m \<longrightarrow>
           (case al_run s of None \<Rightarrow> retries < al_failed s | Some (due, e) \<Rightarrow> k \<in> fst ` set due \<or> e \<noteq> None)))"

definition alarm_inv :: "'h cf_platform \<Rightarrow> nat \<Rightarrow> ('h \<Rightarrow> bool) \<Rightarrow> 'h alarm_state \<Rightarrow> bool" where
  "alarm_inv P retries hok s \<longleftrightarrow> hok (dc_host (al_ctx s)) \<and> keyed (pl_num_str P) (dc_storage (al_ctx s)) \<and> armed retries s"

lemma schedule_ctx:
  "snd (edo_scheduleRetry P m t c) = c\<lparr>dc_storage := AList.update (schedKey (pl_num_str P) t (msg_messageId m)) (DoMessage m) (dc_storage c),
     dc_alarm := Some (case dc_alarm c of None \<Rightarrow> t | Some a \<Rightarrow> if t < a then t else a)\<rparr>"
  by (cases c) (auto simp: edo_scheduleRetry_def seq_io_def bind_io_def storage_put_def getAlarm_def setAlarm_def split: option.splits)

text \<open>Releasing an entry: it is queued and deleted, or the send throws, with the message queued or not, and it stays.\<close>

definition release_effect ::
  "('h \<Rightarrow> message list) \<Rightarrow> ('h \<Rightarrow> bool) \<Rightarrow> string \<times> message \<Rightarrow> 'h do_ctx \<Rightarrow> js_error + unit \<Rightarrow> 'h do_ctx \<Rightarrow> bool" where
  "release_effect hq hok km c r c' \<longleftrightarrow>
     (\<exists>h. hok h
        \<and> (r = Inr () \<and> c' = c\<lparr>dc_storage := AList.delete (fst km) (dc_storage c), dc_host := h\<rparr> \<and> hq h = hq (dc_host c) @ [snd km]
           \<or> (\<exists>e. r = Inl e) \<and> c' = c\<lparr>dc_host := h\<rparr> \<and> (hq h = hq (dc_host c) \<or> hq h = hq (dc_host c) @ [snd km])))"

lemma release_ctx:
  assumes "platform_ok P hq hp hok" and "hok (dc_host c)"
  shows "release_effect hq hok km c (fst (release_due P km c)) (snd (release_due P km c))"
proof -
  let ?s = "pl_queue_send P (snd km) (dc_host c)"
  from platform_calls(9) [OF assms, of "snd km"] obtain q where
    q: "host_call hok hq hp (pl_queue_send P (snd km)) (dc_host c) (fst ?s) q (hp (dc_host c))"
      "fst ?s = Inr () \<and> q = hq (dc_host c) @ [snd km] \<or> (\<exists>e. fst ?s = Inl e) \<and> (q = hq (dc_host c) \<or> q = hq (dc_host c) @ [snd km])"
    by (auto simp: host_call_def)
  then have h: "hok (snd ?s)" "hq (snd ?s) = q" by (auto simp: host_call_def)
  show ?thesis
    unfolding release_effect_def
    by (rule exI [of _ "snd ?s"]) (use q(2) h in \<open>auto simp: release_due_def seq_io_def bind_io_def on_host_def storage_delete_def\<close>)
qed

lemma alarm_inv_step:
  assumes "platform_ok P hq hp hok" and "alarm_step P retries K s s'" and "alarm_inv P retries hok s"
  shows "alarm_inv P retries hok s'"
  using assms(2)
proof cases
  case (fire now)
  let ?st = "dc_storage (al_ctx s)"
  let ?all = "listing as_message SCHED_PREFIX ?st"
  have d: "hok (snd (pl_date_now P (dc_host (al_ctx s))))"
    using platform_calls(1) [OF assms(1), of "dc_host (al_ctx s)"] assms(3) by (auto simp: alarm_inv_def host_call_def)
  have dist: "distinct (map fst ?st)" using assms(3) by (simp add: alarm_inv_def keyed_def)
  have "armed retries s'"
    unfolding armed_def
  proof (intro impI allI)
    fix k m assume "sched_at (dc_storage (al_ctx s')) k = Some m"
    then have k: "(k, m) \<in> set ?all" using fire(1) by (simp add: set_listing [OF dist] split: if_splits)
    note early = scan_earliest [of "([], None)" "pl_num_read P" now ?all, THEN conjunct2]
    show "case al_run s' of None \<Rightarrow> retries < al_failed s' | Some (due, e) \<Rightarrow> k \<in> fst ` set due \<or> e \<noteq> None"
    proof (cases "parseSchedAt (pl_num_read P) k \<le> now")
      case True
      then have "(k, m) \<in> set (fst (foldl (scan_step (pl_num_read P) now) ([], None) ?all))" using k by (simp add: scan_due)
      then show ?thesis using fire(1) by (force split: prod.splits)
    next
      case False
      then show ?thesis using early k fire(1) by (fastforce split: prod.splits)
    qed
  qed
  with d assms(3) fire(1) show ?thesis by (simp add: alarm_inv_def)
next
  case (release km due e)
  note inv = assms(3) [unfolded alarm_inv_def]
  show ?thesis
    using release_ctx [OF assms(1), of "al_ctx s" km] release inv
    by (auto simp: release_effect_def alarm_inv_def armed_def keyed_delete split: if_splits)
next
  case (throw km due e err again)
  note inv = assms(3) [unfolded alarm_inv_def]
  show ?thesis
    using release_ctx [OF assms(1), of "al_ctx s" km] throw inv by (auto simp: release_effect_def alarm_inv_def armed_def)
next
  case (give_up km due e err)
  note inv = assms(3) [unfolded alarm_inv_def]
  show ?thesis
    using release_ctx [OF assms(1), of "al_ctx s" km] give_up inv by (auto simp: release_effect_def alarm_inv_def armed_def)
qed (use assms(3) in \<open>auto simp: alarm_inv_def armed_def schedule_ctx storage_put_def keyed_put_sched keyed_put_other setAlarm_def split: option.splits if_splits\<close>)

text \<open>
  Where an entry is: still scheduled under its key, and what the run holds of it is the same message, or
  handed to the queue. A key that is not written again stands for the very message.
\<close>

definition same_entry :: "string set \<Rightarrow> string \<Rightarrow> message \<Rightarrow> message \<Rightarrow> bool" where
  "same_entry K k m m1 \<longleftrightarrow> msg_messageId m1 = msg_messageId m \<and> (k \<notin> K \<longrightarrow> m1 = m)"

definition entry_kept :: "string set \<Rightarrow> ('h \<Rightarrow> message list) \<Rightarrow> message list \<Rightarrow> string \<Rightarrow> message \<Rightarrow> 'h alarm_state \<Rightarrow> bool" where
  "entry_kept K hq q0 k m s \<longleftrightarrow>
     (\<exists>ms. hq (dc_host (al_ctx s)) = q0 @ ms
        \<and> ((\<exists>m1. sched_at (dc_storage (al_ctx s)) k = Some m1 \<and> same_entry K k m m1)
             \<and> (\<forall>due e m1. al_run s = Some (due, e) \<longrightarrow> (k, m1) \<in> set due \<longrightarrow> same_entry K k m m1)
           \<or> (\<exists>m1 \<in> set ms. same_entry K k m m1)))"

lemma entry_kept_schedule:
  assumes "number_format (pl_num_str P) num_read" and "keyed (pl_num_str P) (dc_storage (al_ctx s))"
    and "schedKey (pl_num_str P) t (msg_messageId m') \<in> K" and "entry_kept K hq q0 k m s"
  shows "entry_kept K hq q0 k m (s\<lparr>al_ctx := snd (edo_scheduleRetry P m' t (al_ctx s))\<rparr>)"
proof (cases "k = schedKey (pl_num_str P) t (msg_messageId m')")
  case True
  have "msg_messageId m' = msg_messageId m1" if at_k: "sched_at (dc_storage (al_ctx s)) k = Some m1" for m1
  proof -
    obtain t1 where "k = schedKey (pl_num_str P) t1 (msg_messageId m1)" using assms(2) at_k unfolding keyed_def by blast
    with True show ?thesis by (simp add: schedKey_inj [OF assms(1)])
  qed
  with True assms(3) have "same_entry K k m m'" if "sched_at (dc_storage (al_ctx s)) k = Some m1" "same_entry K k m m1" for m1
    using that unfolding same_entry_def by metis
  with True assms(4) show ?thesis unfolding entry_kept_def by (fastforce simp: schedule_ctx)
qed (use assms(4) in \<open>auto simp: entry_kept_def schedule_ctx\<close>)

lemma entry_kept_step:
  assumes "platform_ok P hq hp hok" and "alarm_step P retries K s s'" and "alarm_inv P retries hok s" and "entry_kept K hq q0 k m s"
  shows "entry_kept K hq q0 k m s'"
proof -
  note inv = assms(3) [unfolded alarm_inv_def] and fmt = platform_number_format [OF assms(1)]
  from assms(2) show ?thesis
  proof cases
    case (schedule t m')
    then show ?thesis using entry_kept_schedule [OF fmt _ schedule(2) assms(4)] inv by simp
  next
    case (other k' v)
    then show ?thesis using assms(4) by (auto simp: entry_kept_def storage_put_def split: if_splits)
  next
    case (fire now)
    let ?all = "listing as_message SCHED_PREFIX (dc_storage (al_ctx s))"
    have dist: "distinct (map fst (dc_storage (al_ctx s)))" using inv by (simp add: keyed_def)
    have listed: "sched_at (dc_storage (al_ctx s)) k = Some m1"
      if "(k, m1) \<in> set (fst (foldl (scan_step (pl_num_read P) now) ([], None) ?all))" for m1
      using that by (simp add: scan_due set_listing [OF dist])
    have same: "hq (snd (pl_date_now P (dc_host (al_ctx s)))) = hq (dc_host (al_ctx s))"
      using platform_calls(1) [OF assms(1), of "dc_host (al_ctx s)"] inv by (auto simp: host_call_def)
    show ?thesis using assms(4) fire(1) same listed by (fastforce simp: entry_kept_def split: if_splits)
  next
    case (release km due e)
    show ?thesis
    proof (cases "fst km = k")
      case True
      then have "same_entry K k m (snd km)" if "\<forall>due e m1. al_run s = Some (due, e) \<longrightarrow> (k, m1) \<in> set due \<longrightarrow> same_entry K k m m1"
        using that release(2) by (cases km) auto
      then show ?thesis using release_ctx [OF assms(1), of "al_ctx s" km] release inv assms(4)
        by (auto simp: release_effect_def entry_kept_def)
    qed (use release_ctx [OF assms(1), of "al_ctx s" km] release inv assms(4) in \<open>auto simp: release_effect_def entry_kept_def\<close>)
  next
    case (throw km due e err again)
    then show ?thesis using release_ctx [OF assms(1), of "al_ctx s" km] inv assms(4) by (auto simp: release_effect_def entry_kept_def)
  next
    case (give_up km due e err)
    then show ?thesis using release_ctx [OF assms(1), of "al_ctx s" km] inv assms(4) by (auto simp: release_effect_def entry_kept_def)
  next
    case (finish e)
    then show ?thesis using assms(4) by (auto simp: entry_kept_def setAlarm_def split: option.splits)
  qed
qed

lemma alarm_steps_keep:
  assumes "platform_ok P hq hp hok" and "(alarm_step P retries K)\<^sup>*\<^sup>* s s'" and "alarm_inv P retries hok s" and "entry_kept K hq q0 k m s"
  shows "alarm_inv P retries hok s' \<and> entry_kept K hq q0 k m s'"
  using assms(2-4) by (induction rule: rtranclp_induct) (auto intro: alarm_inv_step [OF assms(1)] entry_kept_step [OF assms(1)])

end
