(* ===== verification/Cf_Properties.thy ===== *)
theory Cf_Properties
  imports Cf_Interleaving
begin

text \<open>
  What the Cloudflare adapter guarantees: the types of what it stores, the order of its dead letters, that
  its alarms lose no scheduled retry and release each one when it is due, and the engine on top of it.
\<close>

section \<open>An example platform\<close>

text \<open>
  A host that is its queue, the requests sent and its clock; every \<open>QUEUE.send\<close> fails when its flag is off.
  Numbers are written as fractions.
\<close>

definition fraction_str :: "rat \<Rightarrow> string" where
  "fraction_str q = int_str (fst (quotient_of q)) @ ''/'' @ nat_str (nat (snd (quotient_of q)))"

definition int_read :: "string \<Rightarrow> int" where
  "int_read s = (case s of [] \<Rightarrow> 0 | c # r \<Rightarrow> if c = CHR ''-'' then - int (of_digits 10 r) else int (of_digits 10 s))"

definition fraction_read :: "string \<Rightarrow> rat" where
  "fraction_read s =
     of_int (int_read (takeWhile (\<lambda>c. c \<noteq> CHR ''/'') s)) / of_nat (of_digits 10 (drop 1 (dropWhile (\<lambda>c. c \<noteq> CHR ''/'') s)))"

lemma int_read_str: "int_read (int_str i) = i"
proof (cases "i < 0")
  case False
  then have "int_str i = nat_str (nat i)" by (simp add: int_str_def)
  moreover have "CHR ''-'' \<notin> set (nat_str (nat i))"
    by (rule nat_str_no_char) (simp add: is_digit_in_def digit_val_def)
  ultimately show ?thesis
    using False of_digits_nat_str [of "nat i"] by (cases "nat_str (nat i)") (auto simp: int_read_def)
qed (simp add: int_read_def int_str_def)

lemma int_str_no_char: "\<not> is_digit_in 10 c \<Longrightarrow> c \<noteq> CHR ''-'' \<Longrightarrow> c \<notin> set (int_str i)"
  using nat_str_no_char by (auto simp: int_str_def)

lemma fraction_format: "number_format fraction_str fraction_read"
proof -
  have slash: "CHR ''/'' \<notin> set (int_str i)" and colon: "CHR '':'' \<notin> set (int_str i)" for i
    by (rule int_str_no_char; simp add: is_digit_in_def digit_val_def)+
  have "fraction_read (fraction_str q) = q" for q
  proof -
    have "takeWhile (\<lambda>c. c \<noteq> CHR ''/'') (fraction_str q) = int_str (fst (quotient_of q))"
      "dropWhile (\<lambda>c. c \<noteq> CHR ''/'') (fraction_str q) = CHR ''/'' # nat_str (nat (snd (quotient_of q)))"
      using slash [of "fst (quotient_of q)"] by (auto simp: fraction_str_def takeWhile_append dropWhile_append)
    then have "fraction_read (fraction_str q) = of_int (fst (quotient_of q)) / of_nat (nat (snd (quotient_of q)))"
      by (simp add: fraction_read_def int_read_str)
    also have "\<dots> = of_int (fst (quotient_of q)) / of_int (snd (quotient_of q))"
      using quotient_of_denom_pos' [of q] by simp
    finally show ?thesis using quotient_of_div [of q] by (simp add: prod_eq_iff)
  qed
  moreover have "CHR '':'' \<notin> set (fraction_str q)" for q
    using colon nat_str_no_colon by (simp add: fraction_str_def)
  ultimately show ?thesis by (simp add: number_format_def)
qed

type_synonym example_host = "message list \<times> posts \<times> millis \<times> bool"

definition example_fetch :: "string \<Rightarrow> string \<Rightarrow> (string \<times> string) list \<Rightarrow> millis \<Rightarrow> (example_host, fetch_result) io" where
  "example_fetch url body hs tmo h =
     (Inr (FetchOk \<lparr>fr_type = ''basic'', fr_status = 500, fr_text = None, fr_headers = []\<rparr>),
      (fst h, fst (snd h) @ [(url, body, hs)], snd (snd h)))"

definition example_enqueue :: "message \<Rightarrow> (example_host, unit) io" where
  "example_enqueue m h = (Inr (), (fst h @ [m], snd h))"

definition example_queue_send :: "message \<Rightarrow> (example_host, unit) io" where
  "example_queue_send m h = (if snd (snd (snd h)) then example_enqueue m h else (Inl (Error ''queue unavailable''), h))"

definition example_platform :: "example_host cf_platform" where
  "example_platform =
     \<lparr>pl_date_now = (\<lambda>h. (Inr (fst (snd (snd h))), h)), pl_math_random = return_io (1/2), pl_randomUUID = return_io ''uuid'',
      pl_randomValues = return_io [1, 2, 3], pl_fetch = example_fetch, pl_queue_send = example_queue_send,
      pl_producer_connect = return_io (), pl_producer_publish = example_enqueue, pl_consumer_connect = return_io (),
      pl_num_str = fraction_str, pl_num_read = fraction_read\<rparr>"

definition host_posts :: "example_host \<Rightarrow> posts" where
  "host_posts h = fst (snd h)"

text \<open>The hosts whose queue is up.\<close>

definition host_up :: "example_host \<Rightarrow> bool" where
  "host_up h = snd (snd (snd h))"

lemma example_platform_ok: "platform_ok example_platform fst host_posts (\<lambda>_. True)"
  unfolding platform_ok_def host_call_def
  by (simp add: example_platform_def fraction_format example_fetch_def example_enqueue_def example_queue_send_def host_posts_def)
     (rule exI [of _ "1/2"], simp)

lemma example_platform_up: "platform_ok example_platform fst host_posts host_up"
  unfolding platform_ok_def host_call_def
  by (simp add: example_platform_def fraction_format example_fetch_def example_enqueue_def example_queue_send_def host_posts_def host_up_def)
     (rule impI, rule exI [of _ "1/2"], simp)

definition example_retry :: message where
  "example_retry =
     \<lparr>msg_messageId = ''msg_1'', msg_tenant = ''acme'', msg_endpointId = ''ep_1'', msg_eventId = ''evt_1'',
      msg_eventType = ''order.paid'', msg_payload = Some (JNum ''1''), msg_attemptNo = 1, msg_status = Retrying,
      msg_nextAttemptAt = Some 5000, msg_createdAt = 0\<rparr>"

text \<open>An empty world at time \<open>t\<close>, and one whose only entry is the retry, due at 5000.\<close>

definition empty_world :: "millis \<Rightarrow> bool \<Rightarrow> example_host cf_world" where
  "empty_world t up = \<lparr>cw_tenants = [], cw_endpoints = [], cw_producerConnected = False, cw_host = ([], [], t, up)\<rparr>"

definition retry_world :: "millis \<Rightarrow> bool \<Rightarrow> example_host cf_world" where
  "retry_world t up = snd (do_scheduleRetry example_platform example_retry 5000 (empty_world t up))"

lemma empty_world_ok: "hok ([], [], t, up) \<Longrightarrow> cf_ok example_platform hok (empty_world t up)"
  by (simp add: cf_ok_def empty_world_def endpoint_object_def object_of_def endpoint_object_ok_def alarm_covers_def sched_entries_def)

lemma retry_world:
  assumes "hok ([], [], t, up)" and "platform_ok example_platform fst host_posts hok"
  shows "cf_ok example_platform hok (retry_world t up)" and "(example_retry, 5000) \<in> cf_sched example_platform (retry_world t up)"
proof -
  note law = cf_scheduler [OF assms(2)] empty_world_ok [of hok, OF assms(1)]
  show "cf_ok example_platform hok (retry_world t up)"
    using scheduler_port.schedule_inv [OF law] by (simp add: retry_world_def DoScheduler_def)
  show "(example_retry, 5000) \<in> cf_sched example_platform (retry_world t up)"
    using scheduler_port.schedule_in [OF law] by (simp add: retry_world_def DoScheduler_def)
qed

section \<open>The alarms\<close>

lemma scheduled_alarm:
  assumes "cf_ok P hok w" and "(m, d) \<in> cf_sched P w"
  shows "\<exists>a. ob_alarm (endpoint_object w (msg_tenant m) (msg_endpointId m)) = Some a \<and> a \<le> d"
proof -
  from assms(2) obtain t i where m: "(m, d) \<in> sched_entries (pl_num_read P) (endpoint_store w t i)" unfolding cf_sched_def by blast
  then have "t = msg_tenant m \<and> i = msg_endpointId m" using sched_owner assms(1) cf_ok_stored by blast
  with m cf_okD(3) [OF assms(1), of t i] show ?thesis unfolding alarm_covers_def by blast
qed

text \<open>
  C17: an alarm loses nothing, on any path: when the alarm of an endpoint's object fires, also when a
  \<open>QUEUE.send\<close> throws in the middle of the loop, every scheduled retry is still scheduled or is in the queue
  afterwards; nothing is scheduled that was not, the queue grows only by scheduled messages, and nothing
  else that is stored changes.
\<close>

theorem cf_alarm_loses_nothing:
  assumes "platform_ok P hq hp hok" and "cf_ok P hok w"
  shows "let w' = snd (fire_alarm P t i w) in
      (\<forall>(m, d) \<in> cf_sched P w. (m, d) \<in> cf_sched P w' \<or> m \<in> set (hq (cw_host w')))
    \<and> cf_sched P w' \<subseteq> cf_sched P w
    \<and> (\<exists>ms. hq (cw_host w') = hq (cw_host w) @ ms \<and> set ms \<subseteq> fst ` cf_sched P w)
    \<and> cf_view hq hp w' = (cf_view hq hp w)\<lparr>v_queue := hq (cw_host w')\<rparr>"
proof -
  have "cf_stored P hok w" using assms(2) by (simp add: cf_ok_stored)
  from fire_alarm_schedule [OF assms(1) this, where t = t and i = i] fire_alarm_view [OF assms(1) this, of t i]
  show ?thesis by (simp add: split_beta)
qed

theorem cf_alarm_loses_nothing_witness:
  "(example_retry, 5000) \<in> cf_sched example_platform (retry_world 6000 False)
   \<and> (let w' = snd (fire_alarm example_platform ''acme'' ''ep_1'' (retry_world 6000 False))
      in (example_retry, 5000) \<in> cf_sched example_platform w' \<or> example_retry \<in> set (fst (cw_host w')))"
proof -
  note w = retry_world [of "\<lambda>_. True" 6000 False, OF TrueI example_platform_ok]
  show ?thesis
    using cf_alarm_loses_nothing [OF example_platform_ok w(1), of "''acme''" "''ep_1''"] w(2) by (auto simp: Let_def)
qed

text \<open>A run whose sends succeed returns.\<close>

lemma release_loop_returns:
  assumes "platform_ok P hq hp hok" and "\<And>h m. hok h \<Longrightarrow> fst (pl_queue_send P m h) = Inr ()"
  shows "hok (dc_host c) \<Longrightarrow> fst (for_io due (release_due P) c) = Inr ()"
proof (induction due arbitrary: c)
  case (Cons km due)
  have "hok (snd (pl_queue_send P (snd km) (dc_host c)))"
    using platform_calls(9) [OF assms(1) Cons.prems, of "snd km"] by (auto simp: host_call_def)
  with Cons assms(2) [OF Cons.prems] show ?case
    by (simp add: seq_io_def bind_io_def release_due_def on_host_def storage_delete_def)
qed simp

lemma fire_alarm_returns:
  assumes "platform_ok P hq hp hok" and "\<And>h m. hok h \<Longrightarrow> fst (pl_queue_send P m h) = Inr ()" and "cf_stored P hok w"
  shows "fst (fire_alarm P t i w) = Inr ()"
proof -
  from platform_calls(1) [OF assms(1) cf_storedD(3) [OF assms(3)]] obtain now where
    now: "fst (pl_date_now P (cw_host w)) = Inr now" "hok (snd (pl_date_now P (cw_host w)))" by (auto simp: host_call_def)
  note loop = release_loop_returns [OF assms(1,2)]
  show ?thesis
    using now loop
    by (simp add: fire_alarm_def endpointStub_def Let_def alarm_def processDueSchedules_def bind_io_def seq_io_def
        on_host_def storage_list_def setAlarm_def ctx_of_def split: option.splits sum.splits)
qed

text \<open>
  C16: a retry that is due is released: when the alarm of its endpoint's object fires at or after its due time,
  with a queue that accepts, the run returns, the retry is in the queue and scheduled no more; and whatever
  the alarm was set to before, also when it was set too late for some retry, it is afterwards set no later
  than every retry the object still holds.
\<close>

theorem cf_retry_released:
  assumes "platform_ok P hq hp hok" and "cf_stored P hok w" and "(m, d) \<in> cf_sched P w"
    and "\<And>h m. hok h \<Longrightarrow> fst (pl_queue_send P m h) = Inr ()"
    and "fst (pl_date_now P (cw_host w)) = Inr now" and "d \<le> now"
  shows "let (r, w') = fire_alarm P (msg_tenant m) (msg_endpointId m) w
    in r = Inr () \<and> m \<in> set (hq (cw_host w')) \<and> (m, d) \<notin> cf_sched P w' \<and> cf_stored P hok w'
      \<and> alarm_covers (pl_num_read P) (endpoint_object w' (msg_tenant m) (msg_endpointId m))"
proof -
  let ?t = "msg_tenant m" and ?i = "msg_endpointId m"
  let ?w = "snd (fire_alarm P ?t ?i w)" and ?st = "endpoint_store w ?t ?i"
  have own: "(m, d) \<in> sched_entries (pl_num_read P) (endpoint_store w t i) \<longleftrightarrow>
      t = ?t \<and> i = ?i \<and> (m, d) \<in> sched_entries (pl_num_read P) ?st" for t i
    using sched_owner [OF assms(2)] by blast
  have m: "(m, d) \<in> sched_entries (pl_num_read P) ?st" using assms(3) own unfolding cf_sched_def by blast
  have r: "fst (fire_alarm P ?t ?i w) = Inr ()" by (rule fire_alarm_returns [OF assms(1,4,2)])
  have dist: "distinct (map fst ?st)" using cf_storedD(2) [OF assms(2), of ?t ?i] by (simp add: endpoint_storage_ok_def)
  obtain gone where
    gone: "gone = filter (\<lambda>km. parseSchedAt (pl_num_read P) (fst km) \<le> now) (listing as_message SCHED_PREFIX ?st)"
    and store: "\<And>t i. endpoint_store ?w t i = (if t = ?t \<and> i = ?i then fold (\<lambda>km. AList.delete (fst km)) gone ?st else endpoint_store w t i)"
    and q: "hq (cw_host ?w) = hq (cw_host w) @ map snd gone"
    and ok: "cf_stored P hok ?w" "alarm_covers (pl_num_read P) (endpoint_object ?w ?t ?i)"
    by (rule fire_alarm_effect [OF assms(1,2), where t = ?t and i = ?i], rule that) (use r assms(5) in auto)
  from m obtain k where k: "(k, m) \<in> set (listing as_message SCHED_PREFIX ?st)" "d = parseSchedAt (pl_num_read P) k"
    unfolding sched_entries_listing [OF dist] by auto
  then have "(k, m) \<in> set gone" using assms(6) by (simp add: gone)
  then have queued: "m \<in> set (hq (cw_host ?w))" unfolding q by force
  have "(m, d) \<notin> sched_entries (pl_num_read P) (fold (\<lambda>km. AList.delete (fst km)) gone ?st)"
  proof
    assume "(m, d) \<in> sched_entries (pl_num_read P) (fold (\<lambda>km. AList.delete (fst km)) gone ?st)"
    then obtain k' where "k' \<notin> fst ` set gone" "(k', m) \<in> set (listing as_message SCHED_PREFIX ?st)" "d = parseSchedAt (pl_num_read P) k'"
      unfolding sched_entries_fold_delete set_listing [OF dist] by auto
    with assms(6) show False unfolding gone by force
  qed
  then have "(m, d) \<notin> sched_entries (pl_num_read P) (endpoint_store ?w t i)" for t i
    using own [of t i] by (auto simp: store)
  then have "(m, d) \<notin> cf_sched P ?w" by (simp add: cf_sched_def)
  with r queued ok show ?thesis by (simp add: split_beta)
qed

theorem cf_retry_released_witness:
  "let (r, w') = fire_alarm example_platform ''acme'' ''ep_1'' (retry_world 6000 True)
   in r = Inr () \<and> example_retry \<in> set (fst (cw_host w')) \<and> (example_retry, 5000) \<notin> cf_sched example_platform w'"
proof -
  have "host_up ([], [], 6000, True)" by (simp add: host_up_def)
  note w = retry_world [of host_up, OF this example_platform_up]
  have up: "fst (pl_queue_send example_platform m h) = Inr ()" if "host_up h" for m h
    using that by (simp add: example_platform_def example_queue_send_def example_enqueue_def host_up_def)
  have now: "fst (pl_date_now example_platform (cw_host (retry_world 6000 True))) = Inr 6000"
    by (simp add: retry_world_def do_scheduleRetry_run empty_world_def example_platform_def)
  have "cf_stored example_platform host_up (retry_world 6000 True)" using w(1) by (simp add: cf_ok_stored)
  from cf_retry_released [OF example_platform_up this w(2) up now] show ?thesis
    by (simp add: example_retry_def split_beta)
qed

section \<open>The alarm and other requests\<close>

lemma endpoint_storage_keyed: "endpoint_storage_ok num_str t i st \<Longrightarrow> keyed num_str st"
proof -
  assume ok: "endpoint_storage_ok num_str t i st"
  have "\<exists>due. k = schedKey num_str due (msg_messageId m)" if "starts_with k SCHED_PREFIX" "read_as as_message st k = Some m" for k m
  proof -
    from that(2) obtain v where v: "map_of st k = Some v" "as_message v = Some m" by (auto simp: read_as_def bind_eq_Some_conv)
    then have "endpoint_entry num_str t i (dlq_seq st) k v" using ok by (auto simp: endpoint_storage_ok_def dest: map_of_SomeD)
    then show ?thesis using that(1) v(2) by cases (auto simp: storage_keys starts_with_iff)
  qed
  with ok show ?thesis by (simp add: keyed_def endpoint_storage_ok_def)
qed

text \<open>
  C18: no retry is lost while other requests come in: in every interleaving of runs of the alarm, of calls of
  \<open>scheduleRetry\<close> and of the other methods of an endpoint's object, with sends that fail and runs that the
  platform runs again a bounded number of times, every retry that was scheduled has been handed to the
  queue, or is still scheduled, and then an alarm is set, or a run is under way, or the platform has given
  up after more failing runs in a row than it retries. It is the very message unless its key was written again.
\<close>

theorem cf_interleaving_loses_nothing:
  assumes "platform_ok P hq hp hok" and "hok (dc_host c)" and "endpoint_storage_ok (pl_num_str P) t i (dc_storage c)" and "dc_alarm c \<noteq> None"
    and "(alarm_step P retries K)\<^sup>*\<^sup>* \<lparr>al_ctx = c, al_run = None, al_failed = 0\<rparr> s'"
    and "starts_with k SCHED_PREFIX" and "read_as as_message (dc_storage c) k = Some m"
  shows "\<exists>m1. msg_messageId m1 = msg_messageId m \<and> (k \<notin> K \<longrightarrow> m1 = m)
    \<and> (m1 \<in> set (drop (length (hq (dc_host c))) (hq (dc_host (al_ctx s'))))
       \<or> read_as as_message (dc_storage (al_ctx s')) k = Some m1
         \<and> (dc_alarm (al_ctx s') \<noteq> None \<or> al_run s' \<noteq> None \<or> retries < al_failed s'))"
proof -
  have inv: "alarm_inv P retries hok \<lparr>al_ctx = c, al_run = None, al_failed = 0\<rparr>"
    using assms(2,4) endpoint_storage_keyed [OF assms(3)] by (auto simp: alarm_inv_def armed_def)
  have kept: "entry_kept K hq (hq (dc_host c)) k m \<lparr>al_ctx = c, al_run = None, al_failed = 0\<rparr>"
    using assms(6,7) by (simp add: entry_kept_def same_entry_def)
  from alarm_steps_keep [OF assms(1,5) inv kept] have
    armed: "armed retries s'" and kept': "entry_kept K hq (hq (dc_host c)) k m s'" by (simp_all add: alarm_inv_def)
  have "dc_alarm (al_ctx s') \<noteq> None \<or> al_run s' \<noteq> None \<or> retries < al_failed s'"
    if "read_as as_message (dc_storage (al_ctx s')) k = Some m1" for m1
    using armed that assms(6) armed_def [of retries s'] by (metis (no_types, lifting) option.simps(4))
  then show ?thesis
    using kept' assms(6) unfolding entry_kept_def same_entry_def by auto
qed

definition later_retry :: message where
  "later_retry = example_retry\<lparr>msg_messageId := ''msg_2'', msg_nextAttemptAt := Some 20000\<rparr>"

definition new_retry :: message where
  "new_retry = example_retry\<lparr>msg_messageId := ''msg_3'', msg_nextAttemptAt := Some 7000\<rparr>"

text \<open>An object with one retry that is due at 5000 and one that is due at 20000, at time 6000.\<close>

definition busy_ctx :: "example_host do_ctx" where
  "busy_ctx =
     \<lparr>dc_storage = [(schedKey fraction_str 5000 ''msg_1'', DoMessage example_retry), (schedKey fraction_str 20000 ''msg_2'', DoMessage later_retry)],
      dc_alarm = Some 5000, dc_host = ([], [], 6000, True)\<rparr>"

lemma busy_scan:
  "foldl (scan_step fraction_read 6000) ([], None) (listing as_message SCHED_PREFIX (dc_storage busy_ctx))
   = ([(schedKey fraction_str 5000 ''msg_1'', example_retry)], Some 20000)"
  by (simp add: busy_ctx_def listing_def List.map_filter_def scan_step_def parse_schedKey [OF fraction_format])

lemma busy_ok: "endpoint_storage_ok fraction_str ''acme'' ''ep_1'' (dc_storage busy_ctx)"
proof -
  have "schedKey fraction_str 5000 ''msg_1'' \<noteq> schedKey fraction_str 20000 ''msg_2''" by (simp add: schedKey_inj [OF fraction_format])
  moreover have "endpoint_entry fraction_str ''acme'' ''ep_1'' n (schedKey fraction_str 5000 (msg_messageId example_retry)) (DoMessage example_retry)"
    "endpoint_entry fraction_str ''acme'' ''ep_1'' n (schedKey fraction_str 20000 (msg_messageId later_retry)) (DoMessage later_retry)" for n
    by (rule endpoint_entry.sched; simp add: example_retry_def later_retry_def)+
  ultimately show ?thesis by (simp add: endpoint_storage_ok_def busy_ctx_def) (simp add: example_retry_def later_retry_def)
qed

text \<open>The run starts, a retry due at 7000 is scheduled during its send, the run goes on and ends.\<close>

lemma busy_run:
  "\<exists>s'. (alarm_step example_platform 6 {schedKey fraction_str 7000 ''msg_3''})\<^sup>*\<^sup>* \<lparr>al_ctx = busy_ctx, al_run = None, al_failed = 0\<rparr> s'
     \<and> al_run s' = None \<and> dc_alarm (al_ctx s') = Some 20000
     \<and> read_as as_message (dc_storage (al_ctx s')) (schedKey fraction_str 7000 ''msg_3'') = Some new_retry"
proof -
  let ?P = example_platform and ?K = "{schedKey fraction_str 7000 ''msg_3''}" and ?k = "schedKey fraction_str 5000 ''msg_1''"
  let ?c = "busy_ctx\<lparr>dc_alarm := None\<rparr>" and ?due = "[(?k, example_retry)]"
  have str: "pl_num_str ?P = fraction_str" "pl_num_read ?P = fraction_read" by (simp_all add: example_platform_def)
  have host: "dc_host busy_ctx = ([], [], 6000, True)" by (simp add: busy_ctx_def)
  have keys: "schedKey fraction_str 7000 ''msg_3'' \<noteq> ?k" by (simp add: schedKey_inj [OF fraction_format])
  have "alarm_step ?P 6 ?K \<lparr>al_ctx = busy_ctx, al_run = None, al_failed = 0\<rparr> \<lparr>al_ctx = ?c, al_run = Some (?due, Some 20000), al_failed = 0\<rparr>"
    using alarm_step.fire [of "\<lparr>al_ctx = busy_ctx, al_run = None, al_failed = 0\<rparr>" ?P 6000 6 ?K] busy_scan host unfolding str
    by (simp add: example_platform_def busy_ctx_def)
  moreover let ?c1 = "snd (edo_scheduleRetry ?P new_retry 7000 ?c)"
  have "alarm_step ?P 6 ?K \<lparr>al_ctx = ?c, al_run = Some (?due, Some 20000), al_failed = 0\<rparr> \<lparr>al_ctx = ?c1, al_run = Some (?due, Some 20000), al_failed = 0\<rparr>"
    using alarm_step.schedule [of ?P 7000 new_retry ?K 6 "\<lparr>al_ctx = ?c, al_run = Some (?due, Some 20000), al_failed = 0\<rparr>"] unfolding str
    by (simp add: new_retry_def)
  moreover let ?c2 = "snd (release_due ?P (?k, example_retry) ?c1)"
  have sent: "fst (release_due ?P (?k, example_retry) ?c1) = Inr ()"
    by (simp add: release_due_def seq_io_def bind_io_def on_host_def storage_delete_def schedule_ctx host example_platform_def
        example_queue_send_def example_enqueue_def)
  then have "alarm_step ?P 6 ?K \<lparr>al_ctx = ?c1, al_run = Some (?due, Some 20000), al_failed = 0\<rparr> \<lparr>al_ctx = ?c2, al_run = Some ([], Some 20000), al_failed = 0\<rparr>"
    using alarm_step.release [of "\<lparr>al_ctx = ?c1, al_run = Some (?due, Some 20000), al_failed = 0\<rparr>" "(?k, example_retry)" "[]" "Some 20000" ?P 6 ?K] by simp
  moreover have "alarm_step ?P 6 ?K \<lparr>al_ctx = ?c2, al_run = Some ([], Some 20000), al_failed = 0\<rparr> \<lparr>al_ctx = ?c2\<lparr>dc_alarm := Some 20000\<rparr>, al_run = None, al_failed = 0\<rparr>"
    using alarm_step.finish [of "\<lparr>al_ctx = ?c2, al_run = Some ([], Some 20000), al_failed = 0\<rparr>" "Some 20000" ?P 6 ?K] by (simp add: setAlarm_def)
  ultimately have "(alarm_step ?P 6 ?K)\<^sup>*\<^sup>* \<lparr>al_ctx = busy_ctx, al_run = None, al_failed = 0\<rparr> \<lparr>al_ctx = ?c2\<lparr>dc_alarm := Some 20000\<rparr>, al_run = None, al_failed = 0\<rparr>"
    by (meson converse_rtranclp_into_rtranclp rtranclp.rtrancl_refl)
  moreover have "read_as as_message (dc_storage ?c2) (schedKey fraction_str 7000 ''msg_3'') = Some new_retry"
    using sent keys
    by (simp add: release_due_def seq_io_def bind_io_def on_host_def storage_delete_def schedule_ctx host example_platform_def
        example_queue_send_def example_enqueue_def) (simp add: new_retry_def)
  ultimately show ?thesis by (intro exI conjI) (assumption | simp)+
qed

theorem cf_interleaving_loses_nothing_witness:
  "\<exists>s'. (alarm_step example_platform 6 {schedKey fraction_str 7000 ''msg_3''})\<^sup>*\<^sup>* \<lparr>al_ctx = busy_ctx, al_run = None, al_failed = 0\<rparr> s'
     \<and> al_run s' = None \<and> (example_retry \<in> set (fst (dc_host (al_ctx s')))
        \<or> read_as as_message (dc_storage (al_ctx s')) (schedKey fraction_str 5000 ''msg_1'') = Some example_retry)"
proof -
  obtain s' where s': "(alarm_step example_platform 6 {schedKey fraction_str 7000 ''msg_3''})\<^sup>*\<^sup>* \<lparr>al_ctx = busy_ctx, al_run = None, al_failed = 0\<rparr> s'" "al_run s' = None"
    using busy_run by blast
  have str: "pl_num_str example_platform = fraction_str" by (simp add: example_platform_def)
  have c: "dc_alarm busy_ctx \<noteq> None" "read_as as_message (dc_storage busy_ctx) (schedKey fraction_str 5000 ''msg_1'') = Some example_retry"
    "schedKey fraction_str 5000 ''msg_1'' \<notin> {schedKey fraction_str 7000 ''msg_3''}"
    by (simp_all add: busy_ctx_def read_as_def schedKey_inj [OF fraction_format])
  show ?thesis
    using cf_interleaving_loses_nothing [OF example_platform_ok TrueI busy_ok [folded str] c(1) s'(1) schedKey_prefix c(2)] c(3) s'
    by (auto dest: in_set_dropD)
qed

text \<open>
  C19: a run of the alarm can overwrite an earlier alarm: a retry that is scheduled while the run waits for
  \<open>QUEUE.send\<close> sets the alarm to its time; the run then sets it to the earliest of the entries it had read,
  which may be later, so the retry waits beyond its time. The alarm is meant to cover the earliest due time.
\<close>

theorem cf_alarm_overwritten:
  "\<exists>s'. (alarm_step example_platform 6 {schedKey fraction_str 7000 ''msg_3''})\<^sup>*\<^sup>* \<lparr>al_ctx = busy_ctx, al_run = None, al_failed = 0\<rparr> s'
     \<and> al_run s' = None \<and> (new_retry, 7000) \<in> sched_entries (pl_num_read example_platform) (dc_storage (al_ctx s'))
     \<and> dc_alarm (al_ctx s') = Some 20000"
proof -
  have read: "parseSchedAt (pl_num_read example_platform) (schedKey fraction_str 7000 ''msg_3'') = 7000"
    using parse_schedKey [OF fraction_format] by (simp add: example_platform_def)
  show ?thesis using busy_run read unfolding sched_entries_def by (fastforce intro: schedKey_prefix)
qed

text \<open>The same object while the queue is down.\<close>

definition outage_ctx :: "example_host do_ctx" where
  "outage_ctx = busy_ctx\<lparr>dc_host := ([], [], 6000, False)\<rparr>"

lemma outage_run:
  "(alarm_step example_platform retries K)\<^sup>*\<^sup>* \<lparr>al_ctx = outage_ctx\<lparr>dc_alarm := Some a\<rparr>, al_run = None, al_failed = n\<rparr>
     \<lparr>al_ctx = outage_ctx\<lparr>dc_alarm := Some again\<rparr>, al_run = None, al_failed = n + 1\<rparr>"
  "retries \<le> n \<Longrightarrow> (alarm_step example_platform retries K)\<^sup>*\<^sup>* \<lparr>al_ctx = outage_ctx\<lparr>dc_alarm := Some a\<rparr>, al_run = None, al_failed = n\<rparr>
     \<lparr>al_ctx = outage_ctx\<lparr>dc_alarm := None\<rparr>, al_run = None, al_failed = n + 1\<rparr>"
proof -
  let ?P = example_platform and ?km = "(schedKey fraction_str 5000 ''msg_1'', example_retry)"
  let ?s = "\<lparr>al_ctx = outage_ctx\<lparr>dc_alarm := Some a\<rparr>, al_run = None, al_failed = n\<rparr>"
  let ?s1 = "\<lparr>al_ctx = outage_ctx\<lparr>dc_alarm := None\<rparr>, al_run = Some ([?km], Some 20000), al_failed = n\<rparr>"
  have read: "pl_num_read ?P = fraction_read" and now: "pl_date_now ?P ([], [], 6000, False) = (Inr 6000, ([], [], 6000, False))"
    by (simp_all add: example_platform_def)
  have ctx: "dc_host outage_ctx = ([], [], 6000, False)" "dc_storage outage_ctx = dc_storage busy_ctx"
    "outage_ctx\<lparr>dc_alarm := None, dc_host := ([], [], 6000, False)\<rparr> = outage_ctx\<lparr>dc_alarm := None\<rparr>"
    by (simp_all add: outage_ctx_def busy_ctx_def)
  have fire: "alarm_step ?P retries K ?s ?s1"
    using alarm_step.fire [of ?s ?P 6000 retries K] busy_scan now unfolding read by (simp add: ctx)
  have down: "release_due ?P ?km (outage_ctx\<lparr>dc_alarm := None\<rparr>) = (Inl (Error ''queue unavailable''), outage_ctx\<lparr>dc_alarm := None\<rparr>)"
    by (simp add: release_due_def seq_io_def bind_io_def on_host_def outage_ctx_def example_platform_def example_queue_send_def)
  show "(alarm_step ?P retries K)\<^sup>*\<^sup>* ?s \<lparr>al_ctx = outage_ctx\<lparr>dc_alarm := Some again\<rparr>, al_run = None, al_failed = n + 1\<rparr>"
    using fire alarm_step.throw [of ?s1 ?km "[]" "Some 20000" ?P "Error ''queue unavailable''" retries K again] down
    by (simp add: rtranclp.rtrancl_into_rtrancl [OF r_into_rtranclp])
  show "(alarm_step ?P retries K)\<^sup>*\<^sup>* ?s \<lparr>al_ctx = outage_ctx\<lparr>dc_alarm := None\<rparr>, al_run = None, al_failed = n + 1\<rparr>" if "retries \<le> n"
    using fire alarm_step.give_up [of ?s1 ?km "[]" "Some 20000" ?P "Error ''queue unavailable''" retries K] down that
    by (simp add: rtranclp.rtrancl_into_rtrancl [OF r_into_rtranclp])
qed

lemma outage_runs:
  "(alarm_step example_platform retries K)\<^sup>*\<^sup>* \<lparr>al_ctx = outage_ctx\<lparr>dc_alarm := Some a\<rparr>, al_run = None, al_failed = 0\<rparr>
     \<lparr>al_ctx = outage_ctx\<lparr>dc_alarm := Some a\<rparr>, al_run = None, al_failed = n\<rparr>"
proof (induction n)
  case (Suc n)
  from rtranclp_trans [OF this outage_run(1) [of retries K a n a]] show ?case by simp
qed simp

text \<open>
  C20: an outage of the queue that outlasts the platform's retries leaves a retry behind: however often the
  platform runs a throwing alarm again, there is a run in which each of these runs fails at \<open>QUEUE.send\<close>, the
  platform gives up, and the retry is still scheduled, past its time, with no alarm set and no run under way.
\<close>

theorem cf_alarm_given_up:
  "\<exists>s'. (alarm_step example_platform retries {})\<^sup>*\<^sup>* \<lparr>al_ctx = outage_ctx, al_run = None, al_failed = 0\<rparr> s'
     \<and> al_failed s' = retries + 1 \<and> al_run s' = None \<and> dc_alarm (al_ctx s') = None
     \<and> (example_retry, 5000) \<in> sched_entries (pl_num_read example_platform) (dc_storage (al_ctx s'))"
proof -
  let ?k = "schedKey fraction_str 5000 ''msg_1''" and ?s = "\<lparr>al_ctx = outage_ctx\<lparr>dc_alarm := None\<rparr>, al_run = None, al_failed = retries + 1\<rparr>"
  have start: "outage_ctx\<lparr>dc_alarm := Some 5000\<rparr> = outage_ctx" by (simp add: outage_ctx_def busy_ctx_def)
  from rtranclp_trans [OF outage_runs outage_run(2) [OF order.refl]]
  have run: "(alarm_step example_platform retries {})\<^sup>*\<^sup>* \<lparr>al_ctx = outage_ctx, al_run = None, al_failed = 0\<rparr> ?s"
    using start by metis
  have "parseSchedAt (pl_num_read example_platform) ?k = 5000"
    using parse_schedKey [OF fraction_format] by (simp add: example_platform_def)
  moreover have "read_as as_message (dc_storage (al_ctx ?s)) ?k = Some example_retry"
    by (simp add: outage_ctx_def busy_ctx_def read_as_def)
  ultimately have "(example_retry, 5000) \<in> sched_entries (pl_num_read example_platform) (dc_storage (al_ctx ?s))"
    unfolding sched_entries_def by (fastforce intro: schedKey_prefix)
  with run show ?thesis by (intro exI [of _ ?s]) simp
qed

section \<open>The order of the dead letters\<close>

lemma filter_update_other:
  "\<not> f (k, v) \<Longrightarrow> (\<And>x. f (k, x) = f (k, v)) \<Longrightarrow> filter f (AList.update k v st) = filter f st"
  by (induction st) auto

lemma dlqKey_order:
  assumes "endpoint_entry num_str t i seq k v" and "starts_with k DLQ_PREFIX" and "seq < n" and "n < 10 ^ 16"
  shows "k < dlqKey n j"
  using assms(1)
proof cases
  case (dlq m n' r)
  then show ?thesis
    unfolding dlqKey_def using assms(3,4) by (simp del: append_less_same add: append_less_same [of DLQ_PREFIX] pad_zeros_less)
qed (use assms(2) in \<open>auto simp: storage_keys starts_with_iff\<close>)

lemma listing_dlq_snoc:
  assumes "endpoint_storage_ok num_str t i st" and "dlq_seq st + 1 < 10 ^ 16"
  shows "listing as_dlq DLQ_PREFIX (AList.update (dlqKey (dlq_seq st + 1) j) (DoDlq row) (AList.update DLQ_SEQ_KEY x st))
    = listing as_dlq DLQ_PREFIX st @ [(dlqKey (dlq_seq st + 1) j, row)]"
proof -
  let ?k = "dlqKey (dlq_seq st + 1) j" and ?f = "\<lambda>kv :: string \<times> do_value. starts_with (fst kv) DLQ_PREFIX"
  have pre: "starts_with ?k DLQ_PREFIX" "\<not> starts_with DLQ_SEQ_KEY DLQ_PREFIX" by (auto simp: storage_keys starts_with_iff)
  have "map_of st ?k = None" by (rule dlq_key_fresh [OF assms(1)]) simp
  then have "map_of (AList.update DLQ_SEQ_KEY x st) ?k = None" by (simp add: storage_keys)
  then have "filter ?f (AList.update ?k (DoDlq row) (AList.update DLQ_SEQ_KEY x st)) = filter ?f st @ [(?k, DoDlq row)]"
    using pre by (simp add: alist_update_new filter_update_other)
  moreover have "\<forall>kv \<in> set (filter ?f st). fst kv < fst (?k, DoDlq row)"
    using assms by (auto simp: endpoint_storage_ok_def intro!: dlqKey_order)
  ultimately show ?thesis
    using sort_key_greatest [of "filter ?f st" fst "(?k, DoDlq row)"] by (simp add: listing_def List.map_filter_def)
qed

text \<open>
  C23: dead letters keep their order: listing the dead letters of an endpoint after one more was added gives
  the earlier list with the new row at its end, for the first \<open>10^16 - 1\<close> dead letters of an endpoint: the
  storage lists keys in their lexicographic order, and the padded sequence number makes that the order of
  insertion.
\<close>

theorem cf_dlq_in_order:
  assumes "cf_ok P hok w" and "msg_endpointId m \<noteq> []"
    and "dlq_seq (endpoint_store w (msg_tenant m) (msg_endpointId m)) + 1 < 10 ^ 16"
  shows "\<exists>rows. fst (do_listDlq (msg_tenant m) (Some (msg_endpointId m)) w) = Inr rows
    \<and> fst (do_listDlq (msg_tenant m) (Some (msg_endpointId m)) (snd (do_addToDlq m reason w))) = Inr (rows @ [(m, reason)])"
proof -
  let ?st = "endpoint_store w (msg_tenant m) (msg_endpointId m)"
  have list: "fst (do_listDlq (msg_tenant m) (Some (msg_endpointId m)) u)
      = Inr (map snd (listing as_dlq DLQ_PREFIX (endpoint_store u (msg_tenant m) (msg_endpointId m))))" for u :: "'a cf_world"
    using assms(2) by (simp add: do_listDlq_def endpointStub_def Let_def edo_listDlq_def bind_io_def storage_list_def ctx_of_def endpoint_object_def)
  have "endpoint_store (snd (do_addToDlq m reason w)) (msg_tenant m) (msg_endpointId m)
      = AList.update (dlqKey (dlq_seq ?st + 1) (msg_messageId m)) (DoDlq (m, reason)) (AList.update DLQ_SEQ_KEY (DoNum (dlq_seq ?st + 1)) ?st)"
    by (simp add: do_addToDlq_def endpointStub_def edo_addToDlq_def Let_def bind_io_def seq_io_def storage_get_def storage_put_def
        ctx_of_def object_in_def dlq_seq_def flip: endpoint_object_def)
  then show ?thesis
    unfolding list using listing_dlq_snoc [OF cf_okD(2) [OF assms(1)] assms(3)] by simp
qed

theorem cf_dlq_in_order_witness:
  "\<exists>rows. fst (do_listDlq ''acme'' (Some ''ep_1'') (empty_world 0 True)) = Inr rows
    \<and> fst (do_listDlq ''acme'' (Some ''ep_1'') (snd (do_addToDlq example_retry ExhaustedRetries (empty_world 0 True)))) = Inr (rows @ [(example_retry, ExhaustedRetries)])"
proof -
  have "dlq_seq (endpoint_store (empty_world 0 True) (msg_tenant example_retry) (msg_endpointId example_retry)) + 1 < 10 ^ 16"
    by (simp add: empty_world_def endpoint_object_def object_of_def dlq_seq_def)
  from cf_dlq_in_order [OF empty_world_ok [of "\<lambda>_. True", OF TrueI] _ this, of ExhaustedRetries] show ?thesis
    by (simp add: example_retry_def)
qed

section \<open>The Worker\<close>

lemma worker_handle:
  assumes "platform_ok P hq hp hok" and "cf_ok P hok w"
  shows "(\<exists>r. fst (worker_fetch P hmac url_parse sha frac_str req w) = Inr r)
    \<and> cf_ok P hok (snd (worker_fetch P hmac url_parse sha frac_str req w))
    \<and> cf_sched P (snd (worker_fetch P hmac url_parse sha frac_str req w)) = cf_sched P w"
proof -
  let ?w = "w\<lparr>cw_producerConnected := False\<rparr>"
  have w: "cf_ok P hok ?w" "cf_sched P ?w = cf_sched P w" using assms(2) by (simp_all add: cf_ok_def cf_sched_def)
  have "worker_fetch P hmac url_parse sha frac_str req w
      = handle frac_str (cf_engine P hmac url_parse sha) \<lparr>ro_basePath = None, ro_resolveTenant = None\<rparr> req ?w"
    by (simp add: worker_fetch_def new_transport_def seq_io_def bind_io_def)
  then show ?thesis
    using engine_ports.wp_handle_ok [OF cf_engine_ports [OF assms(1)] w(1)] w(2) by (simp add: wp_def)
qed

text \<open>
  C21: the storage stays well typed: whatever request the Worker answers and whatever message it processes,
  it returns, and afterwards every entry of every Durable Object has the type its key announces; endpoints,
  messages, attempts and dead letters carry the tenant, and the endpoint, of the object they are in, and the
  identifier their key names; no key occurs twice.
\<close>

theorem cf_storage_typed:
  assumes "platform_ok P hq hp hok" and "cf_ok P hok w"
    and "w' = snd (worker_fetch P hmac url_parse sha frac_str req w) \<or> w' = snd (processMessage (cf_engine P hmac url_parse sha) m w)"
  shows "(\<exists>r. fst (worker_fetch P hmac url_parse sha frac_str req w) = Inr r)
    \<and> fst (processMessage (cf_engine P hmac url_parse sha) m w) = Inr ()
    \<and> (\<forall>t. distinct (map fst (tenant_store w' t)) \<and> (\<forall>(k, v) \<in> set (tenant_store w' t). tenant_entry t k v))
    \<and> (\<forall>t i. distinct (map fst (endpoint_store w' t i))
         \<and> (\<forall>(k, v) \<in> set (endpoint_store w' t i). endpoint_entry (pl_num_str P) t i (dlq_seq (endpoint_store w' t i)) k v))"
proof -
  have "wp (processMessage (cf_engine P hmac url_parse sha) m) (\<lambda>r w'. r = Inr () \<and> cf_ok P hok w') w"
    by (rule engine_ports.wp_processMessage [OF cf_engine_ports [OF assms(1)] assms(2)]) simp
  then have msg: "fst (processMessage (cf_engine P hmac url_parse sha) m w) = Inr ()" "cf_ok P hok (snd (processMessage (cf_engine P hmac url_parse sha) m w))"
    by (simp_all add: wp_def)
  note req = worker_handle [OF assms(1,2), of hmac url_parse sha frac_str req]
  have ok: "cf_ok P hok w'" using assms(3) msg(2) req by blast
  show ?thesis
    using msg(1) req cf_okD(1,2) [OF ok] by (simp add: tenant_object_ok_def endpoint_storage_ok_def)
qed

text \<open>The attempts of a message whose endpoint is gone.\<close>

lemma gone_logged:
  "v_attempts (cf_view fst host_posts (snd (processMessage (cf_engine example_platform example_hmac example_url_parse id) example_retry
     (empty_world 0 True)))) ''acme'' (''ep_1'', ''msg_1'') \<noteq> []"
proof -
  let ?w = "empty_world 0 True"
  have none: "v_endpoints (cf_view fst host_posts ?w) t i = None" for t i
    by (simp add: cf_view_def empty_world_def object_of_def read_as_def)
  have "wp (processMessage (cf_engine example_platform example_hmac example_url_parse id) example_retry)
      (\<lambda>r w'. v_attempts (cf_view fst host_posts w') ''acme'' (''ep_1'', ''msg_1'') \<noteq> []) ?w"
    by (rule engine_ports.wp_processMessage [OF cf_engine_ports [OF example_platform_ok] empty_world_ok [of "\<lambda>_. True", OF TrueI]])
       (use none in \<open>auto elim!: delivery_step_onE simp: live_def step_effects example_retry_def\<close>)
  then show ?thesis by (simp add: wp_def)
qed

theorem cf_storage_typed_witness:
  "\<exists>l. l \<noteq> [] \<and> (ATTEMPT_PREFIX @ ''msg_1'', DoAttempts l) \<in> set (endpoint_store (snd (processMessage
        (cf_engine example_platform example_hmac example_url_parse id) example_retry (empty_world 0 True))) ''acme'' ''ep_1'')
      \<and> list_all (\<lambda>a. att_tenant a = ''acme'' \<and> att_endpointId a = ''ep_1'' \<and> att_messageId a = ''msg_1'') l"
proof -
  let ?w' = "snd (processMessage (cf_engine example_platform example_hmac example_url_parse id) example_retry (empty_world 0 True))"
  obtain l where l: "read_as as_attempts (endpoint_store ?w' ''acme'' ''ep_1'') (ATTEMPT_PREFIX @ ''msg_1'') = Some l" "l \<noteq> []"
    using gone_logged by (fastforce simp: cf_view_def split: option.splits)
  from read_as_in [OF l(1)] obtain v where v: "(ATTEMPT_PREFIX @ ''msg_1'', v) \<in> set (endpoint_store ?w' ''acme'' ''ep_1'')" "as_attempts v = Some l"
    by blast
  with cf_storage_typed [OF example_platform_ok empty_world_ok [of "\<lambda>_. True", OF TrueI] disjI2 [OF refl],
      where m = example_retry and hmac = example_hmac and url_parse = example_url_parse and sha = id and frac_str = "\<lambda>_. []"]
  have "endpoint_entry (pl_num_str example_platform) ''acme'' ''ep_1'' (dlq_seq (endpoint_store ?w' ''acme'' ''ep_1'')) (ATTEMPT_PREFIX @ ''msg_1'') v"
    by blast
  then have "v = DoAttempts l \<and> list_all (\<lambda>a. att_tenant a = ''acme'' \<and> att_endpointId a = ''ep_1'' \<and> att_messageId a = ''msg_1'') l"
    using v(2) by cases (auto simp: list_all_iff)
  with l(2) v(1) show ?thesis by blast
qed

text \<open>
  C22: from a failed delivery to the next one on Cloudflare: after the Worker has processed a message, the
  message is delivered, or it is in the dead-letter queue, or it is scheduled and the alarm of its endpoint
  is set no later than its due time, so that it comes back to the queue.
\<close>

theorem cf_delivery_or_alarm:
  assumes "platform_ok P hq hp hok" and "cf_ok P hok w"
  shows "let w' = snd (processMessage (cf_engine P hmac url_parse sha) m w) in
    \<exists>s. accounted m (cf_view hq hp w') s
      \<and> (\<forall>m' d. s = Some (m', d) \<longrightarrow> (m', d) \<in> cf_sched P w'
           \<and> (\<exists>a. ob_alarm (endpoint_object w' (msg_tenant m') (msg_endpointId m')) = Some a \<and> a \<le> d))"
proof -
  have "wp (processMessage (cf_engine P hmac url_parse sha) m)
      (\<lambda>r w'. cf_ok P hok w' \<and> (\<exists>s. accounted m (cf_view hq hp w') s \<and> (\<forall>x. s = Some x \<longrightarrow> x \<in> cf_sched P w'))) w"
    by (rule engine_ports.wp_processMessage [OF cf_engine_ports [OF assms(1)] assms(2)])
       (auto simp: sched_effect_def intro: delivery_step_accounted)
  then obtain s where ok: "cf_ok P hok (snd (processMessage (cf_engine P hmac url_parse sha) m w))"
    and s: "accounted m (cf_view hq hp (snd (processMessage (cf_engine P hmac url_parse sha) m w))) s"
      "\<And>x. s = Some x \<Longrightarrow> x \<in> cf_sched P (snd (processMessage (cf_engine P hmac url_parse sha) m w))"
    by (auto simp: wp_def)
  show ?thesis
    unfolding Let_def by (rule exI [of _ s]) (use s scheduled_alarm [OF ok] in blast)
qed

theorem cf_delivery_or_alarm_witness:
  "\<exists>s. accounted example_retry (cf_view fst host_posts (snd (processMessage (cf_engine example_platform example_hmac example_url_parse id) example_retry (empty_world 0 True)))) s"
  using cf_delivery_or_alarm [OF example_platform_ok empty_world_ok [of "\<lambda>_. True", OF TrueI], where m = example_retry] unfolding Let_def by blast

end
