(* ===== verification/Aws_Table.thy ===== *)
theory Aws_Table
  imports Core_Router Signing Key_Order Fetch_Client
begin

text \<open>
  The state store of \<open>packages/aws/src\<close> (\<open>config.ts\<close>, \<open>state-dynamo.ts\<close>): one DynamoDB table whose items
  are keyed by tenant partition and a typed sort key. DynamoDB and SQS are services: what a command does
  is a member of the record \<open>aws_platform\<close>, an argument of every definition that uses it, and the
  conditions and update expressions of the commands are values the member receives.
\<close>

section \<open>Configuration (config.ts)\<close>

definition DEFAULT_DUE_AT_INDEX_NAME :: string where "DEFAULT_DUE_AT_INDEX_NAME = ''due_at-index''"
definition SCHED_GSI_PK :: string where "SCHED_GSI_PK = ''SCHED''"
definition SQS_MAX_DELAY_MS :: millis where "SQS_MAX_DELAY_MS = 900000"
definition SCHED_TTL_GRACE_SECONDS :: int where "SCHED_TTL_GRACE_SECONDS = 7 * 24 * 60 * 60"
definition SWEEPER_LEASE_SECONDS :: int where "SWEEPER_LEASE_SECONDS = 300"
definition AWS_MAX_PAYLOAD_BYTES :: nat where "AWS_MAX_PAYLOAD_BYTES = 200 * 1024"

record aws_config =
  cg_tableName :: string
  cg_queueUrl :: string
  cg_dueAtIndexName :: "string option"
  cg_region :: "string option"
  cg_endpoint :: "string option"

text \<open>The clients of the environment are the ones built here: their region and endpoint.\<close>

record aws_env =
  en_tableName :: string
  en_queueUrl :: string
  en_dueAtIndexName :: string
  en_clientRegion :: string
  en_clientEndpoint :: "string option"

definition resolveEnv :: "(string \<Rightarrow> string option) \<Rightarrow> aws_config \<Rightarrow> aws_env" where
  "resolveEnv process_env config =
     (let region = (case cg_region config of Some r \<Rightarrow> r
                    | None \<Rightarrow> (case process_env ''AWS_REGION'' of Some r \<Rightarrow> r | None \<Rightarrow> ''us-east-1''))
      in \<lparr>en_tableName = cg_tableName config, en_queueUrl = cg_queueUrl config,
          en_dueAtIndexName = (case cg_dueAtIndexName config of Some n \<Rightarrow> n | None \<Rightarrow> DEFAULT_DUE_AT_INDEX_NAME),
          en_clientRegion = region, en_clientEndpoint = cg_endpoint config\<rparr>)"

definition configFromEnv :: "(string \<Rightarrow> string option) \<Rightarrow> js_error + aws_config" where
  "configFromEnv env =
     (case env ''ANYHOOK_TABLE_NAME'' of
        None \<Rightarrow> Inl (Error ''configFromEnv: ANYHOOK_TABLE_NAME is required'')
      | Some tableName \<Rightarrow>
          if tableName = [] then Inl (Error ''configFromEnv: ANYHOOK_TABLE_NAME is required'')
          else (case env ''ANYHOOK_QUEUE_URL'' of
              None \<Rightarrow> Inl (Error ''configFromEnv: ANYHOOK_QUEUE_URL is required'')
            | Some queueUrl \<Rightarrow>
                if queueUrl = [] then Inl (Error ''configFromEnv: ANYHOOK_QUEUE_URL is required'')
                else Inr \<lparr>cg_tableName = tableName, cg_queueUrl = queueUrl,
                          cg_dueAtIndexName = env ''ANYHOOK_DUE_AT_INDEX_NAME'', cg_region = env ''AWS_REGION'',
                          cg_endpoint = None\<rparr>))"

definition tenantPk :: "string \<Rightarrow> string" where "tenantPk tenant = ''TENANT#'' @ tenant"
definition endpointSk :: "string \<Rightarrow> string" where "endpointSk endpointId = ''EP#'' @ endpointId"
definition messageSk :: "string \<Rightarrow> string" where "messageSk messageId = ''MSG#'' @ messageId"
definition messageIndexSk :: "string \<Rightarrow> string" where "messageIndexSk messageId = ''MIDX#'' @ messageId"
definition attemptSk :: "string \<Rightarrow> nat \<Rightarrow> string" where
  "attemptSk messageId seq = ''ATT#'' @ messageId @ ''#'' @ pad_zeros 10 (nat_str seq)"
definition attemptSkPrefix :: "string \<Rightarrow> string" where "attemptSkPrefix messageId = ''ATT#'' @ messageId @ ''#''"
definition attemptCounterSk :: "string \<Rightarrow> string" where "attemptCounterSk messageId = ''ATTCOUNT#'' @ messageId"
definition circuitSk :: "string \<Rightarrow> string" where "circuitSk endpointId = ''CIRCUIT#'' @ endpointId"
definition rateSk :: "string \<Rightarrow> string" where "rateSk endpointId = ''RATE#'' @ endpointId"
definition dlqSk :: "nat \<Rightarrow> string" where "dlqSk seq = ''DLQ#'' @ pad_zeros 16 (nat_str seq)"
definition dlqCounterSk :: string where "dlqCounterSk = ''DLQSEQ''"
definition idemSk :: "string \<Rightarrow> string" where "idemSk idemKey = ''IDEM#'' @ idemKey"
definition schedSk :: "string \<Rightarrow> string" where "schedSk messageId = ''SCHED#'' @ messageId"

section \<open>Items and commands\<close>

type_synonym ddb_key = "string \<times> string"

text \<open>A scheduled retry: \<open>gsi1pk\<close> and \<open>gsi1sk\<close> put it into the index, a claim stamps \<open>claimed_at\<close>.\<close>

record sched_row =
  sr_message :: message
  sr_due_at :: int
  sr_ttl :: int
  sr_gsi1pk :: string
  sr_gsi1sk :: int
  sr_claimed_at :: "int option"

datatype aws_item =
    ItEvent string nat
  | ItEndpoint endpoint
  | ItMessage message
  | ItIndex string
  | ItAttempt attempt
  | ItSeq nat
  | ItCircuit circuit_record nat
  | ItRate rate_bucket
  | ItDlq message dlq_reason
  | ItSched sched_row

text \<open>\<open>stripKeys<T>\<close>, at the types the store reads: the domain object without keys and version.\<close>

fun item_event :: "aws_item \<Rightarrow> (string \<times> nat) option" where
  "item_event (ItEvent e n) = Some (e, n)"
| "item_event _ = None"

fun item_endpoint :: "aws_item \<Rightarrow> endpoint option" where
  "item_endpoint (ItEndpoint e) = Some e"
| "item_endpoint _ = None"

fun item_message :: "aws_item \<Rightarrow> message option" where
  "item_message (ItMessage m) = Some m"
| "item_message _ = None"

fun item_attempt :: "aws_item \<Rightarrow> attempt option" where
  "item_attempt (ItAttempt a) = Some a"
| "item_attempt _ = None"

fun item_circuit :: "aws_item \<Rightarrow> circuit_record option" where
  "item_circuit (ItCircuit c _) = Some c"
| "item_circuit _ = None"

fun item_version :: "aws_item \<Rightarrow> nat option" where
  "item_version (ItCircuit _ v) = Some v"
| "item_version _ = None"

fun item_rate :: "aws_item \<Rightarrow> rate_bucket option" where
  "item_rate (ItRate b) = Some b"
| "item_rate _ = None"

fun item_dlq :: "aws_item \<Rightarrow> dlq_row option" where
  "item_dlq (ItDlq m r) = Some (m, r)"
| "item_dlq _ = None"

fun item_sched :: "aws_item \<Rightarrow> sched_row option" where
  "item_sched (ItSched r) = Some r"
| "item_sched _ = None"

text \<open>The \<open>ConditionExpression\<close> of a put.\<close>

datatype put_condition = Unconditional | NotExists | VersionMissing | VersionIs nat

definition condition_holds :: "put_condition \<Rightarrow> aws_item option \<Rightarrow> bool" where
  "condition_holds c item =
     (case c of Unconditional \<Rightarrow> True
      | NotExists \<Rightarrow> item = None
      | VersionMissing \<Rightarrow> Option.bind item item_version = None
      | VersionIs v \<Rightarrow> Option.bind item item_version = Some v)"

type_synonym ddb_page = "(ddb_key \<times> aws_item) list \<times> ddb_key option"

text \<open>
  The commands the code sends. \<open>ap_get\<close> is told whether the read is consistent, \<open>ap_claim\<close> the time to stamp
  and the lease floor of its condition; \<open>ap_query\<close> and \<open>ap_queryDue\<close> return one page and the key to go on
  from. The text of a number is left to the platform, as the rationals are more than the doubles.
\<close>

record 'h aws_platform =
  ap_date_now :: "('h, millis) io"
  ap_math_random :: "('h, rat) io"
  ap_randomUUID :: "('h, string) io"
  ap_randomBytes :: "('h, byte list) io"
  ap_put :: "string \<Rightarrow> ddb_key \<Rightarrow> aws_item \<Rightarrow> put_condition \<Rightarrow> ('h, unit) io"
  ap_get :: "string \<Rightarrow> ddb_key \<Rightarrow> bool \<Rightarrow> ('h, aws_item option) io"
  ap_delete :: "string \<Rightarrow> ddb_key \<Rightarrow> ('h, unit) io"
  ap_addSeq :: "string \<Rightarrow> ddb_key \<Rightarrow> ('h, nat) io"
  ap_claim :: "string \<Rightarrow> ddb_key \<Rightarrow> int \<Rightarrow> int \<Rightarrow> ('h, unit) io"
  ap_query :: "string \<Rightarrow> string \<Rightarrow> string \<Rightarrow> ddb_key option \<Rightarrow> ('h, ddb_page) io"
  ap_queryDue :: "string \<Rightarrow> string \<Rightarrow> string \<Rightarrow> int \<Rightarrow> ddb_key option \<Rightarrow> ('h, ddb_page) io"
  ap_sqs_send :: "string \<Rightarrow> string \<Rightarrow> nat \<Rightarrow> ('h, unit) io"
  ap_producer_connect :: "('h, unit) io"
  ap_producer_publish :: "message \<Rightarrow> ('h, unit) io"
  ap_fetch :: "string \<Rightarrow> string \<Rightarrow> (string \<times> string) list \<Rightarrow> millis \<Rightarrow> ('h, fetch_result) io"
  ap_frac_str :: "rat \<Rightarrow> string"
  ap_message_parse :: "string \<Rightarrow> js_error + message"

fun isConditionalCheckFailed :: "js_error \<Rightarrow> bool" where
  "isConditionalCheckFailed (ServiceError name) = (name = ''ConditionalCheckFailedException'')"
| "isConditionalCheckFailed _ = False"

text \<open>The host and what an instance of \<open>SqsTransport\<close> holds.\<close>

record 'h aws_world =
  aw_host :: 'h
  aw_connected :: bool

definition aws_call :: "('h, 'a) io \<Rightarrow> ('h aws_world, 'a) io" where
  "aws_call f w = (fst (f (aw_host w)), w\<lparr>aw_host := snd (f (aw_host w))\<rparr>)"

section \<open>Queries\<close>

text \<open>
  \<open>queryAll\<close> (state-dynamo.ts): page after page until the service returns no key to go on from. A query that
  never ends would be an endless loop, so the pages read are bounded by \<open>fuel\<close>; \<open>queryAll_complete\<close> in
  \<open>Aws_Contracts\<close> shows that one page more than there are items is enough.
\<close>

fun queryAll_from ::
  "'h aws_platform \<Rightarrow> aws_env \<Rightarrow> string \<Rightarrow> string \<Rightarrow> nat \<Rightarrow> ddb_key option \<Rightarrow> (ddb_key \<times> aws_item) list \<Rightarrow>
   ('h aws_world, (ddb_key \<times> aws_item) list) io" where
  "queryAll_from P env pk skPrefix 0 from_key items = throw_io (Error ''queryAll: out of fuel'')"
| "queryAll_from P env pk skPrefix (Suc fuel) from_key items =
     bind_io (aws_call (ap_query P (en_tableName env) pk skPrefix from_key)) (\<lambda>res.
     case snd res of
       None \<Rightarrow> return_io (items @ fst res)
     | Some k \<Rightarrow> queryAll_from P env pk skPrefix fuel (Some k) (items @ fst res))"

definition queryAll ::
  "'h aws_platform \<Rightarrow> nat \<Rightarrow> aws_env \<Rightarrow> string \<Rightarrow> string \<Rightarrow> ('h aws_world, (ddb_key \<times> aws_item) list) io" where
  "queryAll P fuel env pk skPrefix = queryAll_from P env pk skPrefix fuel None []"

section \<open>The state store (state-dynamo.ts)\<close>

definition dy_recordEvent :: "'h aws_platform \<Rightarrow> aws_env \<Rightarrow> string \<Rightarrow> string \<Rightarrow> string \<Rightarrow> ('h aws_world, record_result) io" where
  "dy_recordEvent P env tenant eventId idemKey =
     (let key = (tenantPk tenant, idemSk idemKey) in
      catch_io
        (seq_io (aws_call (ap_put P (en_tableName env) key (ItEvent eventId 0) NotExists))
           (return_io \<lparr>rr_isNew = True, rr_eventId = eventId, rr_messageCount = 0\<rparr>))
        (\<lambda>e. if \<not> isConditionalCheckFailed e then throw_io e
             else bind_io (aws_call (ap_get P (en_tableName env) key True)) (\<lambda>existing.
               case Option.bind existing item_event of
                 None \<Rightarrow> return_io \<lparr>rr_isNew = True, rr_eventId = eventId, rr_messageCount = 0\<rparr>
               | Some item \<Rightarrow> return_io \<lparr>rr_isNew = False, rr_eventId = fst item, rr_messageCount = snd item\<rparr>)))"

definition dy_finalizeEvent :: "'h aws_platform \<Rightarrow> aws_env \<Rightarrow> string \<Rightarrow> string \<Rightarrow> string \<Rightarrow> nat \<Rightarrow> ('h aws_world, unit) io" where
  "dy_finalizeEvent P env tenant idemKey eventId messageCount =
     aws_call (ap_put P (en_tableName env) (tenantPk tenant, idemSk idemKey) (ItEvent eventId messageCount) Unconditional)"

definition putEndpointItem :: "'h aws_platform \<Rightarrow> aws_env \<Rightarrow> endpoint \<Rightarrow> ('h aws_world, unit) io" where
  "putEndpointItem P env endpoint =
     aws_call (ap_put P (en_tableName env) (tenantPk (ep_tenant endpoint), endpointSk (ep_endpointId endpoint))
       (ItEndpoint endpoint) Unconditional)"

definition dy_createEndpoint :: "'h aws_platform \<Rightarrow> aws_env \<Rightarrow> new_endpoint \<Rightarrow> ('h aws_world, endpoint \<times> string) io" where
  "dy_createEndpoint P env e =
     bind_io (aws_call (ap_randomBytes P)) (\<lambda>random.
     let secret = generateSecret random
     in bind_io (aws_call (ap_randomUUID P)) (\<lambda>uuid.
        bind_io (aws_call (ap_date_now P)) (\<lambda>now.
        let endpoint =
              \<lparr>ep_endpointId = uuid, ep_tenant = ne_tenant e, ep_url = ne_url e, ep_eventTypes = ne_eventTypes e,
               ep_description = ne_description e, ep_disabled = False, ep_rateLimit = ne_rateLimit e,
               ep_createdAt = now, ep_secrets = [secret]\<rparr>
        in seq_io (putEndpointItem P env endpoint) (return_io (endpoint, secret)))))"

definition dy_getEndpoint :: "'h aws_platform \<Rightarrow> aws_env \<Rightarrow> string \<Rightarrow> string \<Rightarrow> ('h aws_world, endpoint option) io" where
  "dy_getEndpoint P env tenant endpointId =
     bind_io (aws_call (ap_get P (en_tableName env) (tenantPk tenant, endpointSk endpointId) False)) (\<lambda>item.
     return_io (Option.bind item item_endpoint))"

definition dy_listEndpoints :: "'h aws_platform \<Rightarrow> nat \<Rightarrow> aws_env \<Rightarrow> string \<Rightarrow> ('h aws_world, endpoint list) io" where
  "dy_listEndpoints P fuel env tenant =
     bind_io (queryAll P fuel env (tenantPk tenant) (endpointSk [])) (\<lambda>items.
     return_io (List.map_filter (\<lambda>i. item_endpoint (snd i)) items))"

definition dy_matchEndpoints :: "'h aws_platform \<Rightarrow> nat \<Rightarrow> aws_env \<Rightarrow> string \<Rightarrow> string \<Rightarrow> ('h aws_world, endpoint list) io" where
  "dy_matchEndpoints P fuel env tenant eventType =
     bind_io (dy_listEndpoints P fuel env tenant) (\<lambda>all. return_io (filter (\<lambda>e. subscribes e eventType) all))"

definition dy_updateEndpoint :: "'h aws_platform \<Rightarrow> aws_env \<Rightarrow> string \<Rightarrow> string \<Rightarrow> endpoint_patch \<Rightarrow> ('h aws_world, endpoint) io" where
  "dy_updateEndpoint P env tenant endpointId patch = bind_io (dy_getEndpoint P env tenant endpointId) (\<lambda>found.
     case found of
       None \<Rightarrow> throw_io (Error (''endpoint not found: '' @ endpointId))
     | Some existing \<Rightarrow>
         (let updated = existing\<lparr>
                ep_url := (case pa_url patch of Some u \<Rightarrow> u | None \<Rightarrow> ep_url existing),
                ep_eventTypes := (case pa_eventTypes patch of Some ts \<Rightarrow> ts | None \<Rightarrow> ep_eventTypes existing),
                ep_disabled := (case pa_disabled patch of Some x \<Rightarrow> x | None \<Rightarrow> ep_disabled existing)\<rparr>
          in seq_io (putEndpointItem P env updated) (return_io updated)))"

definition dy_rotateSecret :: "'h aws_platform \<Rightarrow> aws_env \<Rightarrow> string \<Rightarrow> string \<Rightarrow> ('h aws_world, string) io" where
  "dy_rotateSecret P env tenant endpointId = bind_io (dy_getEndpoint P env tenant endpointId) (\<lambda>found.
     case found of
       None \<Rightarrow> throw_io (Error (''endpoint not found: '' @ endpointId))
     | Some existing \<Rightarrow>
         bind_io (aws_call (ap_randomBytes P)) (\<lambda>random.
         let secret = generateSecret random
         in seq_io (putEndpointItem P env (existing\<lparr>ep_secrets := [secret, hd (ep_secrets existing)]\<rparr>)) (return_io secret)))"

definition dy_deleteEndpoint :: "'h aws_platform \<Rightarrow> aws_env \<Rightarrow> string \<Rightarrow> string \<Rightarrow> ('h aws_world, unit) io" where
  "dy_deleteEndpoint P env tenant endpointId =
     aws_call (ap_delete P (en_tableName env) (tenantPk tenant, endpointSk endpointId))"

definition dy_putMessage :: "'h aws_platform \<Rightarrow> aws_env \<Rightarrow> message \<Rightarrow> ('h aws_world, unit) io" where
  "dy_putMessage P env m =
     seq_io (aws_call (ap_put P (en_tableName env) (tenantPk (msg_tenant m), messageSk (msg_messageId m)) (ItMessage m) Unconditional))
       (aws_call (ap_put P (en_tableName env) (tenantPk (msg_tenant m), messageIndexSk (msg_messageId m))
          (ItIndex (msg_endpointId m)) Unconditional))"

definition dy_getMessage :: "'h aws_platform \<Rightarrow> aws_env \<Rightarrow> string \<Rightarrow> string \<Rightarrow> ('h aws_world, message option) io" where
  "dy_getMessage P env tenant messageId =
     bind_io (aws_call (ap_get P (en_tableName env) (tenantPk tenant, messageSk messageId) False)) (\<lambda>item.
     return_io (Option.bind item item_message))"

definition nextSeq :: "'h aws_platform \<Rightarrow> aws_env \<Rightarrow> string \<Rightarrow> string \<Rightarrow> ('h aws_world, nat) io" where
  "nextSeq P env tenant sk = aws_call (ap_addSeq P (en_tableName env) (tenantPk tenant, sk))"

definition dy_appendAttempt :: "'h aws_platform \<Rightarrow> aws_env \<Rightarrow> attempt \<Rightarrow> ('h aws_world, unit) io" where
  "dy_appendAttempt P env a =
     bind_io (nextSeq P env (att_tenant a) (attemptCounterSk (att_messageId a))) (\<lambda>seq.
     aws_call (ap_put P (en_tableName env) (tenantPk (att_tenant a), attemptSk (att_messageId a) seq) (ItAttempt a) Unconditional))"

definition listAttempts :: "'h aws_platform \<Rightarrow> nat \<Rightarrow> aws_env \<Rightarrow> string \<Rightarrow> string \<Rightarrow> ('h aws_world, attempt list) io" where
  "listAttempts P fuel env tenant messageId =
     bind_io (queryAll P fuel env (tenantPk tenant) (attemptSkPrefix messageId)) (\<lambda>items.
     return_io (List.map_filter (\<lambda>i. item_attempt (snd i)) items))"

text \<open>\<open>if (q.endpointId)\<close> and the like skip an empty string.\<close>

definition row_filter :: "string option \<Rightarrow> (message \<Rightarrow> string) \<Rightarrow> message list \<Rightarrow> message list" where
  "row_filter want field rows =
     (case want of None \<Rightarrow> rows | Some x \<Rightarrow> if x = [] then rows else filter (\<lambda>m. field m = x) rows)"

definition dy_select :: "delivery_query \<Rightarrow> message list \<Rightarrow> message list" where
  "dy_select q rows =
     (let r1 = row_filter (dq_endpointId q) msg_endpointId rows;
          r2 = row_filter (dq_eventType q) msg_eventType r1;
          r3 = row_filter (dq_status q) (\<lambda>m. status_text (msg_status m)) r2;
          r4 = (case dq_before q of None \<Rightarrow> r3 | Some b \<Rightarrow> filter (\<lambda>m. msg_createdAt m < b) r3);
          r5 = (case dq_after q of None \<Rightarrow> r4 | Some a \<Rightarrow> filter (\<lambda>m. msg_createdAt m > a) r4);
          r6 = sort_desc msg_createdAt r5
      in case dq_limit q of None \<Rightarrow> r6 | Some n \<Rightarrow> take n r6)"

definition dy_listDeliveries :: "'h aws_platform \<Rightarrow> nat \<Rightarrow> aws_env \<Rightarrow> delivery_query \<Rightarrow> ('h aws_world, delivery_record list) io" where
  "dy_listDeliveries P fuel env q =
     bind_io (queryAll P fuel env (tenantPk (dq_tenant q)) (messageSk [])) (\<lambda>items.
     map_io (\<lambda>m. bind_io (listAttempts P fuel env (dq_tenant q) (msg_messageId m)) (\<lambda>attempts. return_io (m, attempts)))
       (dy_select q (List.map_filter (\<lambda>i. item_message (snd i)) items)))"

definition dy_getCircuit :: "'h aws_platform \<Rightarrow> aws_env \<Rightarrow> string \<Rightarrow> string \<Rightarrow> ('h aws_world, circuit_record) io" where
  "dy_getCircuit P env tenant endpointId =
     bind_io (aws_call (ap_get P (en_tableName env) (tenantPk tenant, circuitSk endpointId) True)) (\<lambda>item.
     return_io (case Option.bind item item_circuit of None \<Rightarrow> initialCircuit DEFAULT_COOLDOWN_MS | Some c \<Rightarrow> c))"

text \<open>The write half of \<open>putCircuit\<close>, given the version that its read half saw.\<close>

definition writeCircuit :: "'h aws_platform \<Rightarrow> aws_env \<Rightarrow> string \<Rightarrow> string \<Rightarrow> circuit_record \<Rightarrow> nat option \<Rightarrow> ('h aws_world, unit) io" where
  "writeCircuit P env tenant endpointId rec expectedVersion =
     (let nextVersion = (case expectedVersion of Some v \<Rightarrow> v | None \<Rightarrow> 0) + 1 in
      catch_io
        (aws_call (ap_put P (en_tableName env) (tenantPk tenant, circuitSk endpointId) (ItCircuit rec nextVersion)
           (case expectedVersion of None \<Rightarrow> VersionMissing | Some v \<Rightarrow> VersionIs v)))
        (\<lambda>e. if isConditionalCheckFailed e then throw_io (CircuitWriteConflictError tenant endpointId) else throw_io e))"

definition dy_putCircuit :: "'h aws_platform \<Rightarrow> aws_env \<Rightarrow> string \<Rightarrow> string \<Rightarrow> circuit_record \<Rightarrow> ('h aws_world, unit) io" where
  "dy_putCircuit P env tenant endpointId rec =
     bind_io (aws_call (ap_get P (en_tableName env) (tenantPk tenant, circuitSk endpointId) True)) (\<lambda>current.
     writeCircuit P env tenant endpointId rec (Option.bind current item_version))"

definition dy_getRateBucket :: "'h aws_platform \<Rightarrow> aws_env \<Rightarrow> string \<Rightarrow> string \<Rightarrow> ('h aws_world, rate_bucket option) io" where
  "dy_getRateBucket P env tenant endpointId =
     bind_io (aws_call (ap_get P (en_tableName env) (tenantPk tenant, rateSk endpointId) False)) (\<lambda>item.
     return_io (Option.bind item item_rate))"

definition dy_putRateBucket :: "'h aws_platform \<Rightarrow> aws_env \<Rightarrow> string \<Rightarrow> string \<Rightarrow> rate_bucket \<Rightarrow> ('h aws_world, unit) io" where
  "dy_putRateBucket P env tenant endpointId bucket =
     aws_call (ap_put P (en_tableName env) (tenantPk tenant, rateSk endpointId) (ItRate bucket) Unconditional)"

definition dy_addToDlq :: "'h aws_platform \<Rightarrow> aws_env \<Rightarrow> message \<Rightarrow> dlq_reason \<Rightarrow> ('h aws_world, unit) io" where
  "dy_addToDlq P env m reason =
     bind_io (nextSeq P env (msg_tenant m) dlqCounterSk) (\<lambda>seq.
     aws_call (ap_put P (en_tableName env) (tenantPk (msg_tenant m), dlqSk seq) (ItDlq m reason) Unconditional))"

definition dy_listDlq :: "'h aws_platform \<Rightarrow> nat \<Rightarrow> aws_env \<Rightarrow> string \<Rightarrow> string option \<Rightarrow> ('h aws_world, dlq_row list) io" where
  "dy_listDlq P fuel env tenant endpointId =
     bind_io (queryAll P fuel env (tenantPk tenant) ''DLQ#'') (\<lambda>items.
     let rows = List.map_filter (\<lambda>i. item_dlq (snd i)) items
     in return_io (case endpointId of None \<Rightarrow> rows
          | Some i \<Rightarrow> if i = [] then rows else filter (\<lambda>r. msg_endpointId (fst r) = i) rows))"

definition DynamoStateStore :: "'h aws_platform \<Rightarrow> nat \<Rightarrow> aws_env \<Rightarrow> 'h aws_world state_store" where
  "DynamoStateStore P fuel env =
     \<lparr>ss_recordEvent = dy_recordEvent P env, ss_finalizeEvent = dy_finalizeEvent P env,
      ss_createEndpoint = dy_createEndpoint P env, ss_getEndpoint = dy_getEndpoint P env,
      ss_listEndpoints = dy_listEndpoints P fuel env, ss_matchEndpoints = dy_matchEndpoints P fuel env,
      ss_updateEndpoint = dy_updateEndpoint P env, ss_rotateSecret = dy_rotateSecret P env,
      ss_deleteEndpoint = dy_deleteEndpoint P env, ss_putMessage = dy_putMessage P env, ss_getMessage = dy_getMessage P env,
      ss_appendAttempt = dy_appendAttempt P env, ss_listDeliveries = dy_listDeliveries P fuel env,
      ss_getCircuit = dy_getCircuit P env, ss_putCircuit = dy_putCircuit P env, ss_getRateBucket = dy_getRateBucket P env,
      ss_putRateBucket = dy_putRateBucket P env, ss_addToDlq = dy_addToDlq P env, ss_listDlq = dy_listDlq P fuel env\<rparr>"

end
