(* ===== verification/Aws_Runtime.thy ===== *)
theory Aws_Runtime
  imports Aws_Table
begin

text \<open>
  The rest of \<open>packages/aws/src\<close>: the scheduler that splits retries between SQS delays and table rows, the
  sweeper that releases the rows when they are due, the SQS transport, the adapter and the Lambda
  handlers.
\<close>

section \<open>Scheduler (scheduler.ts)\<close>

text \<open>\<open>JSON.stringify(m)\<close>, the body of every queue message.\<close>

definition message_body :: "'h aws_platform \<Rightarrow> message \<Rightarrow> string" where
  "message_body P m = stringify (message_json (ap_frac_str P) m)"

definition delay_seconds :: "millis \<Rightarrow> nat" where
  "delay_seconds delayMs = nat (min 900 (max 0 \<lceil>delayMs / 1000\<rceil>))"

definition sched_row_for :: "message \<Rightarrow> millis \<Rightarrow> sched_row" where
  "sched_row_for m t =
     (let dueAtSec = \<lfloor>t / 1000\<rfloor>
      in \<lparr>sr_message = m, sr_due_at = dueAtSec, sr_ttl = dueAtSec + SCHED_TTL_GRACE_SECONDS, sr_gsi1pk = SCHED_GSI_PK,
          sr_gsi1sk = dueAtSec, sr_claimed_at = None\<rparr>)"

definition dy_scheduleRetry :: "'h aws_platform \<Rightarrow> aws_env \<Rightarrow> message \<Rightarrow> millis \<Rightarrow> ('h aws_world, unit) io" where
  "dy_scheduleRetry P env m t =
     bind_io (aws_call (ap_date_now P)) (\<lambda>now.
     let delayMs = t - now
     in if delayMs \<le> SQS_MAX_DELAY_MS
        then aws_call (ap_sqs_send P (en_queueUrl env) (message_body P m) (delay_seconds delayMs))
        else aws_call (ap_put P (en_tableName env) (tenantPk (msg_tenant m), schedSk (msg_messageId m))
               (ItSched (sched_row_for m t)) Unconditional))"

definition DynamoScheduler :: "'h aws_platform \<Rightarrow> aws_env \<Rightarrow> 'h aws_world scheduler" where
  "DynamoScheduler P env = \<lparr>sch_scheduleRetry = dy_scheduleRetry P env\<rparr>"

section \<open>Sweeper (sweeper.ts)\<close>

record sweeper_result =
  sw_due :: nat
  sw_claimed :: nat
  sw_sent :: nat

text \<open>The lease as the page shows it, and the condition under which the table grants a claim.\<close>

definition lease_held :: "int \<Rightarrow> sched_row \<Rightarrow> bool" where
  "lease_held leaseFloorSec row = (case sr_claimed_at row of None \<Rightarrow> False | Some c \<Rightarrow> c \<ge> leaseFloorSec)"

definition claimable :: "int \<Rightarrow> sched_row option \<Rightarrow> bool" where
  "claimable leaseFloor item =
     (case item of None \<Rightarrow> False
      | Some row \<Rightarrow> (case sr_claimed_at row of None \<Rightarrow> True | Some c \<Rightarrow> c < leaseFloor))"

definition sweep_claim :: "'h aws_platform \<Rightarrow> aws_env \<Rightarrow> int \<Rightarrow> int \<Rightarrow> ddb_key \<Rightarrow> ('h aws_world, bool) io" where
  "sweep_claim P env nowSec leaseFloorSec key =
     catch_io (seq_io (aws_call (ap_claim P (en_tableName env) key nowSec leaseFloorSec)) (return_io True))
       (\<lambda>e. if isConditionalCheckFailed e then return_io False else throw_io e)"

definition sweep_item ::
  "'h aws_platform \<Rightarrow> aws_env \<Rightarrow> int \<Rightarrow> int \<Rightarrow> ddb_key \<times> sched_row \<Rightarrow> sweeper_result \<Rightarrow> ('h aws_world, sweeper_result) io" where
  "sweep_item P env nowSec leaseFloorSec item result =
     (if lease_held leaseFloorSec (snd item) then return_io result
      else let result1 = result\<lparr>sw_due := sw_due result + 1\<rparr>
           in bind_io (sweep_claim P env nowSec leaseFloorSec (fst item)) (\<lambda>won.
              if \<not> won then return_io result1
              else let result2 = result1\<lparr>sw_claimed := sw_claimed result1 + 1\<rparr>
                   in seq_io (aws_call (ap_sqs_send P (en_queueUrl env) (message_body P (sr_message (snd item))) 0))
                      (seq_io (aws_call (ap_delete P (en_tableName env) (fst item)))
                      (return_io (result2\<lparr>sw_sent := sw_sent result2 + 1\<rparr>)))))"

fun sweep_items ::
  "'h aws_platform \<Rightarrow> aws_env \<Rightarrow> int \<Rightarrow> int \<Rightarrow> (ddb_key \<times> sched_row) list \<Rightarrow> sweeper_result \<Rightarrow> ('h aws_world, sweeper_result) io" where
  "sweep_items P env nowSec leaseFloorSec [] result = return_io result"
| "sweep_items P env nowSec leaseFloorSec (item # items) result =
     bind_io (sweep_item P env nowSec leaseFloorSec item result) (sweep_items P env nowSec leaseFloorSec items)"

definition sched_items :: "(ddb_key \<times> aws_item) list \<Rightarrow> (ddb_key \<times> sched_row) list" where
  "sched_items items = List.map_filter (\<lambda>(k, i). map_option (Pair k) (item_sched i)) items"

text \<open>The loop over the pages, with at most \<open>fuel\<close> of them.\<close>

fun sweep_pages ::
  "'h aws_platform \<Rightarrow> aws_env \<Rightarrow> int \<Rightarrow> int \<Rightarrow> nat \<Rightarrow> ddb_key option \<Rightarrow> sweeper_result \<Rightarrow> ('h aws_world, sweeper_result) io" where
  "sweep_pages P env nowSec leaseFloorSec 0 from_key result = throw_io (Error ''runSweeper: out of fuel'')"
| "sweep_pages P env nowSec leaseFloorSec (Suc fuel) from_key result =
     bind_io (aws_call (ap_queryDue P (en_tableName env) (en_dueAtIndexName env) SCHED_GSI_PK nowSec from_key)) (\<lambda>page.
     bind_io (sweep_items P env nowSec leaseFloorSec (sched_items (fst page)) result) (\<lambda>result'.
     case snd page of
       None \<Rightarrow> return_io result'
     | Some k \<Rightarrow> sweep_pages P env nowSec leaseFloorSec fuel (Some k) result'))"

definition runSweeper :: "'h aws_platform \<Rightarrow> nat \<Rightarrow> aws_env \<Rightarrow> millis \<Rightarrow> ('h aws_world, sweeper_result) io" where
  "runSweeper P fuel env now =
     (let nowSec = \<lfloor>now / 1000\<rfloor>
      in sweep_pages P env nowSec (nowSec - SWEEPER_LEASE_SECONDS) fuel None \<lparr>sw_due = 0, sw_claimed = 0, sw_sent = 0\<rparr>)"

section \<open>Transport (transport-sqs.ts)\<close>

definition ensureConnected :: "'h aws_platform \<Rightarrow> ('h aws_world, unit) io" where
  "ensureConnected P w =
     (if \<not> aw_connected w
      then seq_io (aws_call (ap_producer_connect P)) (\<lambda>w'. (Inr (), w'\<lparr>aw_connected := True\<rparr>)) w
      else (Inr (), w))"

definition sqs_send :: "'h aws_platform \<Rightarrow> message \<Rightarrow> ('h aws_world, unit) io" where
  "sqs_send P m = seq_io (ensureConnected P) (aws_call (ap_producer_publish P m))"

text \<open>\<open>subscribe\<close> only keeps the handler, which \<open>dispatchRecords\<close> is given below as \<open>subscribed\<close>.\<close>

definition sqs_subscribe :: "(message \<Rightarrow> ('h aws_world, unit) io) \<Rightarrow> ('h aws_world, unit) io" where
  "sqs_subscribe handler = return_io ()"

definition SqsTransport :: "'h aws_platform \<Rightarrow> 'h aws_world transport" where
  "SqsTransport P = \<lparr>tr_send = sqs_send P, tr_subscribe = sqs_subscribe\<rparr>"

record sqs_record =
  sq_messageId :: string
  sq_body :: string

definition dispatch_one ::
  "'h aws_platform \<Rightarrow> (message \<Rightarrow> ('h aws_world, unit) io) \<Rightarrow> sqs_record \<Rightarrow> ('h aws_world, string list) io" where
  "dispatch_one P h r =
     catch_io (seq_io (case ap_message_parse P (sq_body r) of Inl e \<Rightarrow> throw_io e | Inr m \<Rightarrow> h m) (return_io []))
       (\<lambda>_. return_io [sq_messageId r])"

definition dispatchRecords ::
  "'h aws_platform \<Rightarrow> (message \<Rightarrow> ('h aws_world, unit) io) option \<Rightarrow> sqs_record list \<Rightarrow>
   (message \<Rightarrow> ('h aws_world, unit) io) option \<Rightarrow> ('h aws_world, string list) io" where
  "dispatchRecords P subscribed records handler =
     (case (case handler of Some h \<Rightarrow> Some h | None \<Rightarrow> subscribed) of
        None \<Rightarrow> throw_io (Error ''SqsTransport.dispatchRecords called before subscribe() (and no handler was passed)'')
      | Some h \<Rightarrow> bind_io (map_io (dispatch_one P h) records) (\<lambda>failures. return_io (concat failures)))"

section \<open>Adapter and engine (adapter.ts, http-fetch.ts)\<close>

definition aws_http_client :: "'h aws_platform \<Rightarrow> 'h aws_world url_policy option \<Rightarrow> 'h aws_world http_client" where
  "aws_http_client P policy =
     createFetchHttpClient (\<lambda>url body headers timeoutMs. aws_call (ap_fetch P url body headers timeoutMs)) policy None"

record 'h aws_adapter =
  aa_transport :: "'h aws_world transport"
  aa_state :: "'h aws_world state_store"
  aa_scheduler :: "'h aws_world scheduler"
  aa_http :: "'h aws_world http_client"
  aa_env :: aws_env

definition aws_createAdapter ::
  "'h aws_platform \<Rightarrow> nat \<Rightarrow> (string \<Rightarrow> string option) \<Rightarrow> (string \<Rightarrow> url_parts option) \<Rightarrow> aws_config \<Rightarrow>
   'h aws_world url_policy option \<Rightarrow> 'h aws_adapter" where
  "aws_createAdapter P fuel process_env url_parse config policy =
     (let env = resolveEnv process_env config;
          urlPolicy = (case policy of Some p \<Rightarrow> p | None \<Rightarrow> default_policy_port url_parse)
      in \<lparr>aa_transport = SqsTransport P, aa_state = DynamoStateStore P fuel env, aa_scheduler = DynamoScheduler P env,
          aa_http = aws_http_client P (Some urlPolicy), aa_env = env\<rparr>)"

definition aws_globals :: "'h aws_platform \<Rightarrow> (string \<Rightarrow> url_parts option) \<Rightarrow> (string \<Rightarrow> string) \<Rightarrow> 'h aws_world platform" where
  "aws_globals P url_parse sha256_hex =
     \<lparr>pf_date_now = aws_call (ap_date_now P), pf_math_random = aws_call (ap_math_random P),
      pf_url_parse = url_parse, pf_sha256_hex = sha256_hex\<rparr>"

definition aws_engine ::
  "'h aws_platform \<Rightarrow> nat \<Rightarrow> hmac_sha256 \<Rightarrow> (string \<Rightarrow> string option) \<Rightarrow> (string \<Rightarrow> url_parts option) \<Rightarrow> (string \<Rightarrow> string) \<Rightarrow>
   aws_config \<Rightarrow> 'h aws_world engine" where
  "aws_engine P fuel hmac process_env url_parse sha256_hex config =
     (let adapter = aws_createAdapter P fuel process_env url_parse config None
      in WebhookEngine (aws_globals P url_parse sha256_hex)
           \<lparr>eo_transport = aa_transport adapter, eo_state = aa_state adapter, eo_scheduler = aa_scheduler adapter,
            eo_http = aa_http adapter, eo_signer = createSigner hmac, eo_telemetry = None, eo_urlPolicy = None,
            eo_clock = None, eo_rng = None, eo_scheduleMs = None, eo_failureThreshold = None, eo_cooldownMs = None,
            eo_maxPayloadBytes = Some AWS_MAX_PAYLOAD_BYTES, eo_timeoutMs = None\<rparr>)"

section \<open>Lambda handlers (handlers.ts)\<close>

record api_event =
  ev2_headers :: "(string \<times> string option) list option"
  ev2_domainName :: "string option"
  ev2_rawPath :: string
  ev2_rawQueryString :: string
  ev2_method :: string
  ev2_body :: "string option"
  ev2_isBase64Encoded :: bool

datatype web_body = TextBody string | BytesBody "byte list"

definition event_header :: "api_event \<Rightarrow> string \<Rightarrow> string option" where
  "event_header event name = (case ev2_headers event of None \<Rightarrow> None | Some hs \<Rightarrow> Option.bind (map_of hs name) id)"

text \<open>The arguments of \<open>new Request\<close>; the constructor \<open>web_request\<close>, which parses the URL, is the runtime's.\<close>

definition toWebRequest ::
  "(string \<Rightarrow> string \<Rightarrow> (string \<times> string) list \<Rightarrow> web_body option \<Rightarrow> request) \<Rightarrow> api_event \<Rightarrow> request" where
  "toWebRequest web_request event =
     (let proto = (case event_header event ''x-forwarded-proto'' of Some p \<Rightarrow> p | None \<Rightarrow> ''https'');
          host = (case event_header event ''host'' of Some h \<Rightarrow> h
                  | None \<Rightarrow> (case ev2_domainName event of Some d \<Rightarrow> d | None \<Rightarrow> ''localhost''));
          qs = (if ev2_rawQueryString event \<noteq> [] then ''?'' @ ev2_rawQueryString event else []);
          url = proto @ ''://'' @ host @ ev2_rawPath event @ qs;
          headers = foldl (\<lambda>acc (k, v). case v of None \<Rightarrow> acc | Some x \<Rightarrow> AList.update (to_lower k) x acc) []
                      (case ev2_headers event of None \<Rightarrow> [] | Some hs \<Rightarrow> hs);
          http_method = ev2_method event;
          hasBody = (http_method \<noteq> ''GET'' \<and> http_method \<noteq> ''HEAD'' \<and> ev2_body event \<noteq> None);
          body = (if hasBody
                  then map_option (\<lambda>b. if ev2_isBase64Encoded event then BytesBody (base64_decode b) else TextBody b) (ev2_body event)
                  else None)
      in web_request url http_method headers body)"

record api_result =
  re_statusCode :: int
  re_headers :: "(string \<times> string) list"
  re_body :: string

text \<open>Every response of the router carries the content type of \<open>jsonRes\<close>; an empty body reads as the empty text.\<close>

definition toApiGatewayResult :: "response \<Rightarrow> api_result" where
  "toApiGatewayResult res =
     \<lparr>re_statusCode = rs_status res, re_headers = [(''content-type'', ''application/json'')],
      re_body = (case rs_body res of Some b \<Rightarrow> b | None \<Rightarrow> [])\<rparr>"

definition fresh_transport :: "('h aws_world, unit) io" where
  "fresh_transport w = (Inr (), w\<lparr>aw_connected := False\<rparr>)"

definition ingestHandler ::
  "'h aws_platform \<Rightarrow> nat \<Rightarrow> hmac_sha256 \<Rightarrow> (string \<Rightarrow> string option) \<Rightarrow> (string \<Rightarrow> url_parts option) \<Rightarrow> (string \<Rightarrow> string) \<Rightarrow>
   (string \<Rightarrow> string \<Rightarrow> (string \<times> string) list \<Rightarrow> web_body option \<Rightarrow> request) \<Rightarrow> aws_config \<Rightarrow> api_event \<Rightarrow> ('h aws_world, api_result) io" where
  "ingestHandler P fuel hmac process_env url_parse sha256_hex web_request config event =
     seq_io fresh_transport
     (bind_io (handle (ap_frac_str P) (aws_engine P fuel hmac process_env url_parse sha256_hex config)
        \<lparr>ro_basePath = None, ro_resolveTenant = None\<rparr> (toWebRequest web_request event)) (\<lambda>res.
      return_io (toApiGatewayResult res)))"

definition deliverHandler ::
  "'h aws_platform \<Rightarrow> nat \<Rightarrow> hmac_sha256 \<Rightarrow> (string \<Rightarrow> string option) \<Rightarrow> (string \<Rightarrow> url_parts option) \<Rightarrow> (string \<Rightarrow> string) \<Rightarrow>
   aws_config \<Rightarrow> sqs_record list \<Rightarrow> ('h aws_world, string list) io" where
  "deliverHandler P fuel hmac process_env url_parse sha256_hex config records =
     (let engine = aws_engine P fuel hmac process_env url_parse sha256_hex config
      in seq_io fresh_transport
         (seq_io (sqs_subscribe (processMessage engine))
         (dispatchRecords P (Some (processMessage engine)) records None)))"

definition sweeperHandler ::
  "'h aws_platform \<Rightarrow> nat \<Rightarrow> (string \<Rightarrow> string option) \<Rightarrow> aws_config \<Rightarrow> ('h aws_world, unit) io" where
  "sweeperHandler P fuel process_env config =
     bind_io (aws_call (ap_date_now P)) (\<lambda>now.
     seq_io (runSweeper P fuel (resolveEnv process_env config) now) (return_io ()))"

end
