(* ===== verification/Aws_Sweep.thy ===== *)
theory Aws_Sweep
  imports Aws_Runtime
begin

text \<open>
  Sweepers that run at the same time. The commands of \<open>runSweeper\<close> are the steps of an interleaving: any
  number of invocations share the table and the queue, each may stop at any point (a throw, a time-out),
  and the scheduler may write rows in between. The claim is the only step that is atomic on a row.
\<close>

section \<open>Steps\<close>

definition sched_key :: "message \<Rightarrow> ddb_key" where
  "sched_key m = (tenantPk (msg_tenant m), schedSk (msg_messageId m))"

lemma sched_key_eq [simp]: "sched_key m = sched_key m' \<longleftrightarrow> msg_tenant m = msg_tenant m' \<and> msg_messageId m = msg_messageId m'"
  by (auto simp: sched_key_def tenantPk_def schedSk_def)

type_synonym sched_entry = "ddb_key \<times> sched_row"

definition own_key :: "sched_entry \<Rightarrow> bool" where
  "own_key it \<longleftrightarrow> fst it = sched_key (sr_message (snd it))"

text \<open>Where an invocation is: between two items, or with an item it has claimed or sent.\<close>

datatype sweep_phase = Ready | Claimed sched_entry | Released sched_entry

record sweeper =
  sp_now :: int
  sp_todo :: "sched_entry list"
  sp_phase :: sweep_phase

definition idle :: "int \<Rightarrow> sweeper" where
  "idle now = \<lparr>sp_now = now, sp_todo = [], sp_phase = Ready\<rparr>"

record sweep_state =
  sy_rows :: "ddb_key \<Rightarrow> sched_row option"
  sy_sent :: "message list"
  sy_procs :: "nat \<Rightarrow> sweeper"

definition set_proc :: "nat \<Rightarrow> sweeper \<Rightarrow> sweep_state \<Rightarrow> sweep_state" where
  "set_proc i p s = s\<lparr>sy_procs := (sy_procs s)(i := p)\<rparr>"

lemma set_proc_sel [simp]:
  "sy_rows (set_proc i p s) = sy_rows s" "sy_sent (set_proc i p s) = sy_sent s"
  "sy_procs (set_proc i p s) j = (if j = i then p else sy_procs s j)"
  by (simp_all add: set_proc_def)

definition lease_floor :: "sweeper \<Rightarrow> int" where
  "lease_floor p = sp_now p - SWEEPER_LEASE_SECONDS"

text \<open>
  The invocations run at times of \<open>N\<close>; a page shows rows as they are or once were; the scheduler writes rows
  with keys in \<open>K\<close>.
\<close>

inductive sweep_step :: "int set \<Rightarrow> ddb_key set \<Rightarrow> sweep_state \<Rightarrow> sweep_state \<Rightarrow> bool" for N K where
  page: "sp_phase (sy_procs s i) = Ready \<Longrightarrow> sp_todo (sy_procs s i) = [] \<Longrightarrow> now \<in> N \<Longrightarrow> list_all own_key items \<Longrightarrow>
    sweep_step N K s (set_proc i \<lparr>sp_now = now, sp_todo = items, sp_phase = Ready\<rparr> s)"
| skip: "sy_procs s i = p \<Longrightarrow> sp_phase p = Ready \<Longrightarrow> sp_todo p = it # rest \<Longrightarrow> lease_held (lease_floor p) (snd it) \<Longrightarrow>
    sweep_step N K s (set_proc i (p\<lparr>sp_todo := rest\<rparr>) s)"
| claim: "sy_procs s i = p \<Longrightarrow> sp_phase p = Ready \<Longrightarrow> sp_todo p = it # rest \<Longrightarrow> \<not> lease_held (lease_floor p) (snd it) \<Longrightarrow>
    sy_rows s (fst it) = Some row \<Longrightarrow> claimable (lease_floor p) (Some row) \<Longrightarrow>
    sweep_step N K s (set_proc i (p\<lparr>sp_todo := rest, sp_phase := Claimed it\<rparr>)
      (s\<lparr>sy_rows := (sy_rows s)(fst it \<mapsto> row\<lparr>sr_claimed_at := Some (sp_now p)\<rparr>)\<rparr>))"
| lose: "sy_procs s i = p \<Longrightarrow> sp_phase p = Ready \<Longrightarrow> sp_todo p = it # rest \<Longrightarrow> \<not> lease_held (lease_floor p) (snd it) \<Longrightarrow>
    \<not> claimable (lease_floor p) (sy_rows s (fst it)) \<Longrightarrow> sweep_step N K s (set_proc i (p\<lparr>sp_todo := rest\<rparr>) s)"
| send: "sy_procs s i = p \<Longrightarrow> sp_phase p = Claimed it \<Longrightarrow>
    sweep_step N K s (set_proc i (p\<lparr>sp_phase := Released it\<rparr>) (s\<lparr>sy_sent := sy_sent s @ [sr_message (snd it)]\<rparr>))"
| remove: "sy_procs s i = p \<Longrightarrow> sp_phase p = Released it \<Longrightarrow>
    sweep_step N K s (set_proc i (p\<lparr>sp_phase := Ready\<rparr>) (s\<lparr>sy_rows := (sy_rows s)(fst it := None)\<rparr>))"
| crash: "sweep_step N K s (set_proc i (idle (sp_now (sy_procs s i))) s)"
| schedule: "sched_key m \<in> K \<Longrightarrow>
    sweep_step N K s (s\<lparr>sy_rows := (sy_rows s)(sched_key m \<mapsto> sched_row_for m t)\<rparr>)"

text \<open>An invocation that gets through an item: it claims the row, sends the message of its page and removes the row.\<close>

lemma sweep_handles:
  assumes "sy_procs s i = p" and "sp_phase p = Ready" and "sp_todo p = it # rest" and "\<not> lease_held (lease_floor p) (snd it)"
    and "sy_rows s (fst it) = Some row" and "claimable (lease_floor p) (Some row)"
  shows "(sweep_step N K)\<^sup>*\<^sup>* s
    (set_proc i (p\<lparr>sp_todo := rest\<rparr>) (s\<lparr>sy_rows := (sy_rows s)(fst it := None), sy_sent := sy_sent s @ [sr_message (snd it)]\<rparr>))"
proof -
  let ?a = "set_proc i (p\<lparr>sp_todo := rest, sp_phase := Claimed it\<rparr>)
      (s\<lparr>sy_rows := (sy_rows s)(fst it \<mapsto> row\<lparr>sr_claimed_at := Some (sp_now p)\<rparr>)\<rparr>)"
  let ?b = "set_proc i (p\<lparr>sp_todo := rest, sp_phase := Released it\<rparr>) (?a\<lparr>sy_sent := sy_sent s @ [sr_message (snd it)]\<rparr>)"
  let ?c = "set_proc i (p\<lparr>sp_todo := rest\<rparr>) (s\<lparr>sy_rows := (sy_rows s)(fst it := None), sy_sent := sy_sent s @ [sr_message (snd it)]\<rparr>)"
  have a: "sweep_step N K s ?a" by (rule sweep_step.claim [OF assms])
  have b: "sweep_step N K ?a ?b" using sweep_step.send [OF refl, of ?a i it N K] by simp
  have "set_proc i (p\<lparr>sp_todo := rest, sp_phase := Ready\<rparr>) (?b\<lparr>sy_rows := (sy_rows ?b)(fst it := None)\<rparr>) = ?c"
    using assms(2) by (cases p) (simp add: set_proc_def)
  with sweep_step.remove [OF refl, of ?b i it N K] have c: "sweep_step N K ?b ?c" by simp
  show ?thesis by (rule rtranclp.rtrancl_into_rtrancl [OF rtranclp.rtrancl_into_rtrancl [OF r_into_rtranclp [of "sweep_step N K", OF a] b] c])
qed

definition all_idle :: "sweep_state \<Rightarrow> bool" where
  "all_idle s \<longleftrightarrow> (\<forall>i. sp_phase (sy_procs s i) = Ready \<and> sp_todo (sy_procs s i) = [])"

section \<open>No retry is lost\<close>

text \<open>Every invocation works on items under their own keys.\<close>

definition phase_item :: "sweep_phase \<Rightarrow> sched_entry option" where
  "phase_item ph = (case ph of Ready \<Rightarrow> None | Claimed it \<Rightarrow> Some it | Released it \<Rightarrow> Some it)"

lemma phase_item_simps [simp]:
  "phase_item Ready = None" "phase_item (Claimed it) = Some it" "phase_item (Released it) = Some it"
  by (simp_all add: phase_item_def)

definition proc_owns :: "sweeper \<Rightarrow> bool" where
  "proc_owns p \<longleftrightarrow> list_all own_key (sp_todo p) \<and> pred_option own_key (phase_item (sp_phase p))"

lemma owns_step:
  assumes "sweep_step N K s s'" and "\<And>i. proc_owns (sy_procs s i)"
  shows "proc_owns (sy_procs s' j)"
  using assms(1)
proof cases
  case (skip i p it rest)
  then show ?thesis using assms(2) [of i] assms(2) [of j] by (auto simp: proc_owns_def)
next
  case (claim i p it rest row)
  then show ?thesis using assms(2) [of i] assms(2) [of j] by (auto simp: proc_owns_def)
next
  case (lose i p it rest)
  then show ?thesis using assms(2) [of i] assms(2) [of j] by (auto simp: proc_owns_def)
next
  case (send i p it)
  then show ?thesis using assms(2) [of i] assms(2) [of j] by (auto simp: proc_owns_def)
next
  case (remove i p it)
  then show ?thesis using assms(2) [of i] assms(2) [of j] by (auto simp: proc_owns_def)
qed (use assms(2) [of j] in \<open>auto simp: proc_owns_def idle_def\<close>)

text \<open>A row that was there is there, or a message of its key was sent; whoever may delete has sent.\<close>

definition may_delete :: "ddb_key \<Rightarrow> sweeper \<Rightarrow> bool" where
  "may_delete k p \<longleftrightarrow> (case sp_phase p of Released it \<Rightarrow> fst it = k | _ \<Rightarrow> False)"

lemma may_delete_simps [simp]:
  "\<not> may_delete k \<lparr>sp_now = now, sp_todo = items, sp_phase = Ready\<rparr>" "may_delete k (p\<lparr>sp_todo := items\<rparr>) = may_delete k p"
  "\<not> may_delete k (p\<lparr>sp_phase := Ready\<rparr>)" "\<not> may_delete k (p\<lparr>sp_todo := items, sp_phase := Claimed it\<rparr>)"
  "may_delete k (p\<lparr>sp_phase := Released it\<rparr>) = (fst it = k)" "\<not> may_delete k (idle now)"
  by (simp_all add: may_delete_def idle_def)

definition kept :: "ddb_key \<Rightarrow> message list \<Rightarrow> sweep_state \<Rightarrow> bool" where
  "kept k sent0 s \<longleftrightarrow>
     (\<exists>ms. sy_sent s = sent0 @ ms
        \<and> (sy_rows s k \<noteq> None \<or> (\<exists>m \<in> set ms. sched_key m = k))
        \<and> (\<forall>i. may_delete k (sy_procs s i) \<longrightarrow> (\<exists>m \<in> set ms. sched_key m = k)))"

lemma kept_step:
  assumes "sweep_step N K s s'" and "kept k sent0 s" and "\<And>i. proc_owns (sy_procs s i)"
  shows "kept k sent0 s'"
proof -
  from assms(2) obtain ms where ms: "sy_sent s = sent0 @ ms" "sy_rows s k \<noteq> None \<or> (\<exists>m \<in> set ms. sched_key m = k)"
    "\<And>i. may_delete k (sy_procs s i) \<Longrightarrow> \<exists>m \<in> set ms. sched_key m = k"
    unfolding kept_def by blast
  have here: "kept k sent0 s'" if "sy_sent s' = sy_sent s" "sy_rows s k \<noteq> None \<Longrightarrow> sy_rows s' k \<noteq> None"
    "\<And>i. may_delete k (sy_procs s' i) \<Longrightarrow> may_delete k (sy_procs s i)"
    unfolding kept_def using ms that by (intro exI [of _ ms] conjI) (simp, blast, blast)
  from assms(1) show ?thesis
  proof cases
    case (send i p it)
    then have "sched_key (sr_message (snd it)) = fst it" using assms(3) [of i] by (simp add: proc_owns_def own_key_def)
    then show ?thesis
      unfolding kept_def using send ms by (intro exI [of _ "ms @ [sr_message (snd it)]"]) auto
  next
    case (remove i p it)
    have "\<exists>m \<in> set ms. sched_key m = k" if "fst it = k"
      by (rule ms(3) [of i]) (use that remove in \<open>simp add: may_delete_def\<close>)
    then show ?thesis
      unfolding kept_def using remove ms by (intro exI [of _ ms]) auto
  qed (rule here; auto split: if_splits)+
qed

lemma sweeps_keep:
  assumes "(sweep_step N K)\<^sup>*\<^sup>* s s'" and "all_idle s" and "sy_rows s k \<noteq> None"
  shows "kept k (sy_sent s) s'"
proof -
  have "kept k (sy_sent s) s' \<and> (\<forall>i. proc_owns (sy_procs s' i))"
    using assms(1)
  proof (induction rule: rtranclp_induct)
    case base
    show ?case using assms(2,3) by (simp add: kept_def all_idle_def proc_owns_def may_delete_def)
  next
    case (step u v)
    then show ?case using kept_step owns_step by blast
  qed
  then show ?thesis ..
qed

section \<open>No retry is released twice under one lease\<close>

text \<open>A row that is gone, or leased since \<open>T\<close>, grants no claim to an invocation that started within the lease.\<close>

definition locked :: "int \<Rightarrow> ddb_key \<Rightarrow> sweep_state \<Rightarrow> bool" where
  "locked T k s \<longleftrightarrow> (case sy_rows s k of None \<Rightarrow> True | Some row \<Rightarrow> (\<exists>c. sr_claimed_at row = Some c \<and> T \<le> c))"

definition holds :: "ddb_key \<Rightarrow> sweeper \<Rightarrow> bool" where
  "holds k p \<longleftrightarrow> (case sp_phase p of Claimed it \<Rightarrow> fst it = k | _ \<Rightarrow> False)"

definition sent_of :: "ddb_key \<Rightarrow> message list \<Rightarrow> nat" where
  "sent_of k ms = length (filter (\<lambda>m. sched_key m = k) ms)"

lemma holds_simps [simp]:
  "\<not> holds k \<lparr>sp_now = now, sp_todo = items, sp_phase = Ready\<rparr>" "holds k (p\<lparr>sp_todo := items\<rparr>) = holds k p"
  "\<not> holds k (p\<lparr>sp_phase := Ready\<rparr>)" "holds k (p\<lparr>sp_todo := items, sp_phase := Claimed it\<rparr>) = (fst it = k)"
  "\<not> holds k (p\<lparr>sp_phase := Released it\<rparr>)" "\<not> holds k (idle now)"
  by (simp_all add: holds_def idle_def)

lemma sent_of_simps [simp]:
  "sent_of k [] = 0" "sent_of k (ms @ [m]) = sent_of k ms + (if sched_key m = k then 1 else 0)"
  by (simp_all add: sent_of_def)

text \<open>Every invocation that is at work runs within one lease of \<open>T\<close>.\<close>

definition timely :: "int \<Rightarrow> sweeper \<Rightarrow> bool" where
  "timely T p \<longleftrightarrow> (sp_todo p \<noteq> [] \<longrightarrow> T \<le> sp_now p \<and> sp_now p \<le> T + SWEEPER_LEASE_SECONDS)"

lemma timely_step:
  assumes "sweep_step N K s s'" and "N \<subseteq> {T..T + SWEEPER_LEASE_SECONDS}" and "\<And>i. timely T (sy_procs s i)"
  shows "timely T (sy_procs s' j)"
  using assms(1)
proof cases
  case (skip i p it rest)
  then show ?thesis using assms(3) [of i] assms(3) [of j] by (auto simp: timely_def)
next
  case (claim i p it rest row)
  then show ?thesis using assms(3) [of i] assms(3) [of j] by (auto simp: timely_def)
next
  case (lose i p it rest)
  then show ?thesis using assms(3) [of i] assms(3) [of j] by (auto simp: timely_def)
next
  case (send i p it)
  then show ?thesis using assms(3) [of i] assms(3) [of j] by (auto simp: timely_def)
next
  case (remove i p it)
  then show ?thesis using assms(3) [of i] assms(3) [of j] by (auto simp: timely_def)
qed (use assms(2,3) in \<open>auto simp: timely_def idle_def\<close>)

text \<open>Who holds the claim has not sent yet, nobody else holds it, and nobody can claim it again.\<close>

definition once :: "int \<Rightarrow> ddb_key \<Rightarrow> sweep_state \<Rightarrow> bool" where
  "once T k s \<longleftrightarrow>
     (\<forall>i j. holds k (sy_procs s i) \<longrightarrow> holds k (sy_procs s j) \<longrightarrow> i = j)
     \<and> (\<forall>i. holds k (sy_procs s i) \<longrightarrow> sent_of k (sy_sent s) = 0)
     \<and> sent_of k (sy_sent s) \<le> 1
     \<and> ((\<exists>i. holds k (sy_procs s i)) \<or> sent_of k (sy_sent s) = 1 \<longrightarrow> locked T k s)"

lemma once_step:
  assumes "sweep_step N K s s'" and "once T k s" and "k \<notin> K"
    and own: "\<And>i. proc_owns (sy_procs s i)" and time: "\<And>i. timely T (sy_procs s i)"
  shows "once T k s'"
proof -
  note o = assms(2) [unfolded once_def]
  have here: "once T k s'" if "sy_sent s' = sy_sent s" "sy_rows s' k = sy_rows s k \<or> sy_rows s' k = None"
    "\<And>i. holds k (sy_procs s' i) \<Longrightarrow> holds k (sy_procs s i)"
  proof -
    have "locked T k s \<Longrightarrow> locked T k s'" using that(2) by (auto simp: locked_def)
    then show ?thesis unfolding once_def that(1) using o that(3) by blast
  qed
  from assms(1) show ?thesis
  proof cases
    case (claim i p it rest row)
    show ?thesis
    proof (cases "fst it = k")
      case True
      have now: "T \<le> sp_now p" "lease_floor p \<le> T" using time [of i] claim by (auto simp: timely_def lease_floor_def)
      have "\<not> locked T k s" using claim True now by (auto simp: locked_def claimable_def split: option.splits)
      with o have "\<And>j. \<not> holds k (sy_procs s j)" "sent_of k (sy_sent s) = 0" by auto
      then show ?thesis using claim(1) True now unfolding once_def by (auto simp: locked_def split: if_splits)
    next
      case False
      then show ?thesis using claim by (intro here) (auto split: if_splits)
    qed
  next
    case (send i p it)
    show ?thesis
    proof (cases "fst it = k")
      case True
      then have h: "holds k (sy_procs s i)" using send by (simp add: holds_def)
      with o have "sent_of k (sy_sent s) = 0" "locked T k s" "\<And>j. holds k (sy_procs s j) \<Longrightarrow> j = i" by blast+
      moreover have "sched_key (sr_message (snd it)) = k" using own [of i] send True by (simp add: proc_owns_def own_key_def)
      ultimately show ?thesis using send(1) unfolding once_def by (auto simp: locked_def split: if_splits)
    next
      case False
      then have "sched_key (sr_message (snd it)) \<noteq> k" using own [of i] send by (auto simp: proc_owns_def own_key_def)
      then show ?thesis using send(1) o unfolding once_def by (auto simp: locked_def split: if_splits)
    qed
  qed (rule here; use assms(3) in \<open>auto split: if_splits\<close>)+
qed

lemma sweeps_once:
  assumes "(sweep_step N K)\<^sup>*\<^sup>* s s'" and "all_idle s" and "N \<subseteq> {T..T + SWEEPER_LEASE_SECONDS}" and "k \<notin> K" and "sy_sent s = []"
  shows "sent_of k (sy_sent s') \<le> 1"
proof -
  have "once T k s' \<and> (\<forall>i. proc_owns (sy_procs s' i)) \<and> (\<forall>i. timely T (sy_procs s' i))"
    using assms(1)
  proof (induction rule: rtranclp_induct)
    case base
    show ?case using assms(2,5) by (simp add: once_def all_idle_def proc_owns_def timely_def holds_def)
  next
    case (step u v)
    then show ?case using once_step [OF step.hyps(2) _ assms(4)] owns_step timely_step [OF step.hyps(2) assms(3)] by blast
  qed
  then show ?thesis by (simp add: once_def)
qed

end
