(* ===== verification/Aws_Contracts.thy ===== *)
theory Aws_Contracts
  imports Aws_Sweep
begin

text \<open>
  What the services promise, and what the code makes of it: a run of \<open>runSweeper\<close> is a sequence of the steps
  of \<open>Aws_Sweep\<close>, whatever the services answer.
\<close>

section \<open>The services as documented\<close>

text \<open>
  A write that is made under a condition: it succeeds, it is refused because the condition is false, or the
  call fails for another reason and the write may or may not have happened.
\<close>

definition attempted :: "bool \<Rightarrow> 's \<Rightarrow> 's \<Rightarrow> js_error + unit \<Rightarrow> 's \<Rightarrow> bool" where
  "attempted cond old new r s' \<longleftrightarrow>
     (case r of Inr _ \<Rightarrow> cond \<and> s' = new
      | Inl e \<Rightarrow> if isConditionalCheckFailed e then \<not> cond \<and> s' = old else s' = old \<or> cond \<and> s' = new)"

fun stamp :: "int \<Rightarrow> aws_item \<Rightarrow> aws_item" where
  "stamp now (ItSched row) = ItSched (row\<lparr>sr_claimed_at := Some now\<rparr>)"
| "stamp now x = x"

type_synonym 'h table_view = "'h \<Rightarrow> ddb_key \<Rightarrow> aws_item option"
type_synonym 'h queue_view = "'h \<Rightarrow> (string \<times> nat) list"

definition writes_documented :: "'h aws_platform \<Rightarrow> string \<Rightarrow> 'h table_view \<Rightarrow> 'h queue_view \<Rightarrow> bool" where
  "writes_documented P T tbl sq \<longleftrightarrow>
     (\<forall>h k x c. sq (snd (ap_put P T k x c h)) = sq h
        \<and> attempted (condition_holds c (tbl h k)) (tbl h) ((tbl h)(k \<mapsto> x)) (fst (ap_put P T k x c h)) (tbl (snd (ap_put P T k x c h))))
   \<and> (\<forall>h k. sq (snd (ap_delete P T k h)) = sq h
        \<and> attempted True (tbl h) ((tbl h)(k := None)) (fst (ap_delete P T k h)) (tbl (snd (ap_delete P T k h))))
   \<and> (\<forall>h k now floor. (\<forall>x. tbl h k = Some x \<longrightarrow> item_sched x \<noteq> None) \<longrightarrow>
        sq (snd (ap_claim P T k now floor h)) = sq h
        \<and> attempted (claimable floor (Option.bind (tbl h k) item_sched)) (tbl h) ((tbl h)(k := map_option (stamp now) (tbl h k)))
            (fst (ap_claim P T k now floor h)) (tbl (snd (ap_claim P T k now floor h))))"

text \<open>A consistent read shows the item; another read may show an older one, or none.\<close>

definition reads_documented :: "'h aws_platform \<Rightarrow> string \<Rightarrow> 'h table_view \<Rightarrow> 'h queue_view \<Rightarrow> bool" where
  "reads_documented P T tbl sq \<longleftrightarrow>
     (\<forall>h k c. tbl (snd (ap_get P T k c h)) = tbl h \<and> sq (snd (ap_get P T k c h)) = sq h
        \<and> (case fst (ap_get P T k c h) of Inl e \<Rightarrow> \<not> isConditionalCheckFailed e | Inr x \<Rightarrow> c \<longrightarrow> x = tbl h k))
   \<and> (\<forall>h. tbl (snd (ap_date_now P h)) = tbl h \<and> sq (snd (ap_date_now P h)) = sq h \<and> (\<exists>t. fst (ap_date_now P h) = Inr t))"

definition queue_documented :: "'h aws_platform \<Rightarrow> string \<Rightarrow> 'h table_view \<Rightarrow> 'h queue_view \<Rightarrow> bool" where
  "queue_documented P Q tbl sq \<longleftrightarrow>
     (\<forall>h b d. tbl (snd (ap_sqs_send P Q b d h)) = tbl h
        \<and> attempted True (sq h) (sq h @ [(b, d)]) (fst (ap_sqs_send P Q b d h)) (sq (snd (ap_sqs_send P Q b d h))))"

text \<open>Every item the table holds or has held so far; a call adds no item to them that the table does not hold afterwards.\<close>

type_synonym 'h history = "'h \<Rightarrow> (ddb_key \<times> aws_item) set"

definition grown :: "'h table_view \<Rightarrow> 'h history \<Rightarrow> 'h \<Rightarrow> 'h \<Rightarrow> bool" where
  "grown tbl past h h' \<longleftrightarrow> past h' \<subseteq> past h \<union> {(k, x). tbl h' k = Some x}"

text \<open>The index is eventually consistent: it shows items of the table, as they are or once were, whatever they are.\<close>

definition index_documented :: "'h aws_platform \<Rightarrow> aws_env \<Rightarrow> 'h table_view \<Rightarrow> 'h queue_view \<Rightarrow> 'h history \<Rightarrow> bool" where
  "index_documented P env tbl sq past \<longleftrightarrow>
     (\<forall>h k x. tbl h k = Some x \<longrightarrow> (k, x) \<in> past h)
   \<and> (\<forall>h now k. let r = ap_queryDue P (en_tableName env) (en_dueAtIndexName env) SCHED_GSI_PK now k h in
        tbl (snd r) = tbl h \<and> sq (snd r) = sq h \<and> grown tbl past h (snd r)
        \<and> (case fst r of Inl _ \<Rightarrow> True | Inr page \<Rightarrow> set (fst page) \<subseteq> past h))
   \<and> (\<forall>h k x c. grown tbl past h (snd (ap_put P (en_tableName env) k x c h)))
   \<and> (\<forall>h k now floor. grown tbl past h (snd (ap_claim P (en_tableName env) k now floor h)))
   \<and> (\<forall>h k. grown tbl past h (snd (ap_delete P (en_tableName env) k h)))
   \<and> (\<forall>h b d. grown tbl past h (snd (ap_sqs_send P (en_queueUrl env) b d h)))
   \<and> (\<forall>h. grown tbl past h (snd (ap_date_now P h)))"

definition aws_documented :: "'h aws_platform \<Rightarrow> aws_env \<Rightarrow> 'h table_view \<Rightarrow> 'h queue_view \<Rightarrow> bool" where
  "aws_documented P env tbl sq \<longleftrightarrow>
     writes_documented P (en_tableName env) tbl sq \<and> reads_documented P (en_tableName env) tbl sq
     \<and> queue_documented P (en_queueUrl env) tbl sq"

text \<open>One call each.\<close>

lemma put_call:
  assumes "aws_documented P env tbl sq" and "ap_put P (en_tableName env) k x c h = (r, h')"
  shows "sq h' = sq h \<and> attempted (condition_holds c (tbl h k)) (tbl h) ((tbl h)(k \<mapsto> x)) r (tbl h')"
  using assms unfolding aws_documented_def writes_documented_def by (metis fst_conv snd_conv)

lemma delete_call:
  assumes "aws_documented P env tbl sq" and "ap_delete P (en_tableName env) k h = (r, h')"
  shows "sq h' = sq h \<and> attempted True (tbl h) ((tbl h)(k := None)) r (tbl h')"
  using assms unfolding aws_documented_def writes_documented_def by (metis fst_conv snd_conv)

lemma claim_call:
  assumes "aws_documented P env tbl sq" and "ap_claim P (en_tableName env) k now fl h = (r, h')"
    and "\<forall>x. tbl h k = Some x \<longrightarrow> item_sched x \<noteq> None"
  shows "sq h' = sq h \<and> attempted (claimable fl (Option.bind (tbl h k) item_sched)) (tbl h)
    ((tbl h)(k := map_option (stamp now) (tbl h k))) r (tbl h')"
proof -
  have "sq (snd (ap_claim P (en_tableName env) k now fl h)) = sq h
      \<and> attempted (claimable fl (Option.bind (tbl h k) item_sched)) (tbl h) ((tbl h)(k := map_option (stamp now) (tbl h k)))
          (fst (ap_claim P (en_tableName env) k now fl h)) (tbl (snd (ap_claim P (en_tableName env) k now fl h)))"
    using assms(1,3) unfolding aws_documented_def writes_documented_def by blast
  then show ?thesis by (simp add: assms(2))
qed

lemma get_call:
  assumes "aws_documented P env tbl sq" and "ap_get P (en_tableName env) k c h = (r, h')"
  shows "tbl h' = tbl h \<and> sq h' = sq h \<and> (case r of Inl e \<Rightarrow> \<not> isConditionalCheckFailed e | Inr x \<Rightarrow> c \<longrightarrow> x = tbl h k)"
  using assms unfolding aws_documented_def reads_documented_def by (metis fst_conv snd_conv)

lemma now_call:
  assumes "aws_documented P env tbl sq"
  obtains t where "fst (ap_date_now P h) = Inr t" and "tbl (snd (ap_date_now P h)) = tbl h" and "sq (snd (ap_date_now P h)) = sq h"
  using assms unfolding aws_documented_def reads_documented_def by blast

lemma send_call:
  assumes "aws_documented P env tbl sq" and "ap_sqs_send P (en_queueUrl env) b d h = (r, h')"
  shows "tbl h' = tbl h \<and> attempted True (sq h) (sq h @ [(b, d)]) r (sq h')"
  using assms unfolding aws_documented_def queue_documented_def by (metis fst_conv snd_conv)

lemma due_call:
  assumes "index_documented P env tbl sq past"
    and "ap_queryDue P (en_tableName env) (en_dueAtIndexName env) SCHED_GSI_PK now k h = (r, h')"
  shows "tbl h' = tbl h \<and> sq h' = sq h \<and> grown tbl past h h' \<and> (case r of Inl _ \<Rightarrow> True | Inr page \<Rightarrow> set (fst page) \<subseteq> past h)"
  using assms unfolding index_documented_def Let_def by (metis fst_conv snd_conv)

lemma history_calls:
  assumes "index_documented P env tbl sq past"
  shows "ap_put P (en_tableName env) k x c h = (r, h') \<Longrightarrow> grown tbl past h h'"
    "ap_claim P (en_tableName env) k now fl h = (r, h') \<Longrightarrow> grown tbl past h h'"
    "ap_delete P (en_tableName env) k h = (r, h') \<Longrightarrow> grown tbl past h h'"
    "ap_sqs_send P (en_queueUrl env) b d h = (r, h') \<Longrightarrow> grown tbl past h h'"
    "ap_date_now P h = (t, h') \<Longrightarrow> grown tbl past h h'"
    "tbl h k = Some x \<Longrightarrow> (k, x) \<in> past h"
  using assms unfolding index_documented_def by (metis snd_conv)+

section \<open>Scheduled rows stand under the keys of their messages\<close>

text \<open>
  Rows are only written by the scheduler, under the key of their message, and a claim leaves the message
  alone: so every row there is or was, and hence every row a page shows, is under the key of its message.
\<close>

definition owned :: "'h history \<Rightarrow> 'h \<Rightarrow> bool" where
  "owned past h \<longleftrightarrow> (\<forall>k row. (k, ItSched row) \<in> past h \<longrightarrow> own_key (k, row))"

lemma item_sched_Some: "item_sched x = Some row \<longleftrightarrow> x = ItSched row"
  by (cases x) auto

lemma owned_grown:
  assumes "owned past h" and "grown tbl past h h'" and "\<And>k row. tbl h' k = Some (ItSched row) \<Longrightarrow> own_key (k, row)"
  shows "owned past h'"
  using assms by (auto simp: owned_def grown_def)

lemma owned_row:
  assumes "index_documented P env tbl sq past" and "owned past h" and "tbl h k = Some (ItSched row)"
  shows "own_key (k, row)"
  using history_calls(6) [OF assms(1,3)] assms(2) unfolding owned_def by blast

lemma owned_same:
  assumes "index_documented P env tbl sq past" and "owned past h" and "grown tbl past h h'" and "tbl h' = tbl h"
  shows "owned past h'"
  using assms(2,3) by (rule owned_grown) (use assms(4) owned_row [OF assms(1,2)] in simp)

lemma owned_page:
  assumes "owned past h" and "set items \<subseteq> past h"
  shows "list_all own_key (sched_items items)"
proof -
  have "own_key it" if "it \<in> set (sched_items items)" for it
  proof -
    have "(fst it, ItSched (snd it)) \<in> set items"
      using that by (auto simp: sched_items_def in_map_filter item_sched_Some)
    with assms have "own_key (fst it, snd it)" unfolding owned_def by blast
    then show ?thesis by simp
  qed
  then show ?thesis by (simp add: list_all_iff)
qed

lemma owned_write:
  assumes "index_documented P env tbl sq past" and "owned past h" and "grown tbl past h h'"
    and "attempted cond (tbl h) ((tbl h)(k := x)) r (tbl h')" and "\<And>row. x = Some (ItSched row) \<Longrightarrow> own_key (k, row)"
  shows "owned past h'"
  using assms(2,3)
proof (rule owned_grown)
  fix j row assume "tbl h' j = Some (ItSched row)"
  moreover have "tbl h' = tbl h \<or> tbl h' = (tbl h)(k := x)"
    using assms(4) by (auto simp: attempted_def split: sum.splits if_splits)
  ultimately show "own_key (j, row)"
    using assms(5) owned_row [OF assms(1,2), of j row] by (cases "j = k") auto
qed

lemma owned_put:
  assumes "aws_documented P env tbl sq" and "index_documented P env tbl sq past" and "owned past h"
    and "ap_put P (en_tableName env) k x c h = (r, h')" and "\<And>row. x = ItSched row \<Longrightarrow> own_key (k, row)"
  shows "owned past h'"
  by (rule owned_write [OF assms(2,3) history_calls(1) [OF assms(2,4)]]) (use put_call [OF assms(1,4)] assms(5) in auto)

lemma owned_claim:
  assumes "aws_documented P env tbl sq" and "index_documented P env tbl sq past" and "owned past h"
    and "ap_claim P (en_tableName env) k now fl h = (r, h')" and "\<forall>x. tbl h k = Some x \<longrightarrow> item_sched x \<noteq> None"
  shows "owned past h'"
proof (rule owned_write [OF assms(2,3) history_calls(2) [OF assms(2,4)]])
  show "attempted (claimable fl (Option.bind (tbl h k) item_sched)) (tbl h) ((tbl h)(k := map_option (stamp now) (tbl h k))) r (tbl h')"
    using claim_call [OF assms(1,4,5)] by blast
  fix row assume "map_option (stamp now) (tbl h k) = Some (ItSched row)"
  then obtain x where "tbl h k = Some x" "stamp now x = ItSched row" by auto
  then obtain row0 where "tbl h k = Some (ItSched row0)" "row = row0\<lparr>sr_claimed_at := Some now\<rparr>" by (cases x) auto
  with owned_row [OF assms(2,3)] show "own_key (k, row)" by (simp add: own_key_def)
qed

lemma owned_delete:
  assumes "aws_documented P env tbl sq" and "index_documented P env tbl sq past" and "owned past h"
    and "ap_delete P (en_tableName env) k h = (r, h')"
  shows "owned past h'"
  by (rule owned_write [OF assms(2,3) history_calls(3) [OF assms(2,4)]]) (use delete_call [OF assms(1,4)] in auto)

lemma scheduleRetry_owned:
  assumes "aws_documented P env tbl sq" and "index_documented P env tbl sq past" and "owned past (aw_host w)"
  shows "owned past (aw_host (snd (dy_scheduleRetry P env m t w)))"
proof -
  obtain now h0 where c0: "ap_date_now P (aw_host w) = (Inr now, h0)" "tbl h0 = tbl (aw_host w)"
    using now_call [OF assms(1)] by (metis prod.collapse)
  have o0: "owned past h0"
    by (rule owned_same [OF assms(2,3) history_calls(5) [OF assms(2) c0(1)] c0(2)])
  have "owned past (snd (ap_sqs_send P (en_queueUrl env) b d h0))" for b d
    using owned_same [OF assms(2) o0 history_calls(4) [OF assms(2)]] send_call [OF assms(1)] by (metis prod.collapse)
  moreover have "owned past (snd (ap_put P (en_tableName env) (sched_key m) (ItSched (sched_row_for m t)) c h0))" for c
    by (rule owned_put [OF assms(1,2) o0]) (auto simp: own_key_def sched_row_for_def Let_def intro: prod.collapse [symmetric])
  ultimately show ?thesis
    using c0 by (simp add: dy_scheduleRetry_def bind_io_def aws_call_def Let_def sched_key_def)
qed

section \<open>A query reads everything\<close>

text \<open>
  The items \<open>xs\<close> that match come in pages: a page starts after the key it is given; if it ends with a key to
  go on from, that is the key of its last item, and if not, nothing is left.
\<close>

definition pages_served :: "'h aws_platform \<Rightarrow> aws_env \<Rightarrow> string \<Rightarrow> string \<Rightarrow> (ddb_key \<times> aws_item) list \<Rightarrow> ('h \<Rightarrow> bool) \<Rightarrow> bool" where
  "pages_served P env pk pre xs hok \<longleftrightarrow>
     (\<forall>h from_key read rest. hok h \<longrightarrow> xs = read @ rest \<longrightarrow> from_key = (if read = [] then None else Some (fst (last read))) \<longrightarrow>
        (\<exists>now later. rest = now @ later \<and> hok (snd (ap_query P (en_tableName env) pk pre from_key h))
           \<and> (fst (ap_query P (en_tableName env) pk pre from_key h) = Inr (now, None) \<and> later = []
              \<or> now \<noteq> [] \<and> fst (ap_query P (en_tableName env) pk pre from_key h) = Inr (now, Some (fst (last now))))))"

lemma queryAll_from_complete:
  assumes "pages_served P env pk pre xs hok"
  shows "xs = read @ rest \<Longrightarrow> hok (aw_host w) \<Longrightarrow> length rest < fuel \<Longrightarrow>
    fst (queryAll_from P env pk pre fuel (if read = [] then None else Some (fst (last read))) read w) = Inr xs"
proof (induction fuel arbitrary: read rest w)
  case (Suc fuel)
  let ?k = "if read = [] then None else Some (fst (last read))"
  let ?q = "ap_query P (en_tableName env) pk pre ?k (aw_host w)"
  obtain now later where page: "rest = now @ later" "hok (snd ?q)"
    "fst ?q = Inr (now, None) \<and> later = [] \<or> now \<noteq> [] \<and> fst ?q = Inr (now, Some (fst (last now)))"
    using assms Suc.prems(1,2) unfolding pages_served_def by blast
  from page(3) show ?case
  proof
    assume "fst ?q = Inr (now, None) \<and> later = []"
    then show ?thesis using Suc.prems(1) page(1) by (simp add: bind_io_def aws_call_def)
  next
    assume last: "now \<noteq> [] \<and> fst ?q = Inr (now, Some (fst (last now)))"
    have "fst (queryAll_from P env pk pre fuel (if read @ now = [] then None else Some (fst (last (read @ now)))) (read @ now) (w\<lparr>aw_host := snd ?q\<rparr>)) = Inr xs"
      by (rule Suc.IH [of _ later]) (use Suc.prems page(1,2) last in \<open>auto simp: Suc_le_eq neq_Nil_conv\<close>)
    with last show ?thesis by (simp add: bind_io_def aws_call_def)
  qed
qed simp

lemma queryAll_complete:
  assumes "pages_served P env pk pre xs hok" and "hok (aw_host w)" and "length xs < fuel"
  shows "fst (queryAll P fuel env pk pre w) = Inr xs"
  using queryAll_from_complete [OF assms(1), of "[]" xs] assms(2,3) by (simp add: queryAll_def)

section \<open>A sweep is a sequence of steps\<close>

definition sched_rows :: "(ddb_key \<Rightarrow> aws_item option) \<Rightarrow> ddb_key \<Rightarrow> sched_row option" where
  "sched_rows t k = Option.bind (t k) item_sched"

text \<open>The keys of scheduled rows hold scheduled rows.\<close>

definition sched_typed :: "(ddb_key \<Rightarrow> aws_item option) \<Rightarrow> bool" where
  "sched_typed t \<longleftrightarrow> (\<forall>m x. t (sched_key m) = Some x \<longrightarrow> item_sched x \<noteq> None)"

definition sweep_sim :: "'h aws_platform \<Rightarrow> 'h table_view \<Rightarrow> 'h queue_view \<Rightarrow> 'h history \<Rightarrow> (string \<times> nat) list \<Rightarrow> 'h \<Rightarrow> sweep_state \<Rightarrow> bool" where
  "sweep_sim P tbl sq past sent0 h s \<longleftrightarrow>
     sy_rows s = sched_rows (tbl h) \<and> sched_typed (tbl h) \<and> owned past h
     \<and> sq h = sent0 @ map (\<lambda>m. (message_body P m, 0)) (sy_sent s)"

lemma sched_rows_delete: "sched_rows (t(k := None)) = (sched_rows t)(k := None)"
  by (auto simp: sched_rows_def)

lemma sched_rows_claim:
  assumes "sched_rows t k = Some row"
  shows "sched_rows (t(k := map_option (stamp now) (t k))) = (sched_rows t)(k \<mapsto> row\<lparr>sr_claimed_at := Some now\<rparr>)"
proof -
  from assms obtain x where "t k = Some x" "item_sched x = Some row" by (auto simp: sched_rows_def bind_eq_Some_conv)
  moreover from this(2) have "x = ItSched row" by (cases x) auto
  ultimately show ?thesis by (auto simp: sched_rows_def)
qed

lemma sched_typed_delete: "sched_typed t \<Longrightarrow> sched_typed (t(k := None))"
  by (auto simp: sched_typed_def)

lemma item_sched_stamp [simp]: "item_sched (stamp now x) = map_option (\<lambda>r. r\<lparr>sr_claimed_at := Some now\<rparr>) (item_sched x)"
  by (cases x) auto

lemma sched_typed_claim: "sched_typed t \<Longrightarrow> sched_typed (t(k := map_option (stamp now) (t k)))"
  by (auto simp: sched_typed_def)

text \<open>Invocation \<open>i\<close> gets from a state to the host \<open>h\<close>, where it is \<open>p\<close>.\<close>

definition moves ::
  "int set \<Rightarrow> ddb_key set \<Rightarrow> 'h aws_platform \<Rightarrow> 'h table_view \<Rightarrow> 'h queue_view \<Rightarrow> 'h history \<Rightarrow> (string \<times> nat) list \<Rightarrow> nat \<Rightarrow>
   sweep_state \<Rightarrow> 'h \<Rightarrow> sweeper \<Rightarrow> bool" where
  "moves N K P tbl sq past sent0 i s h p \<longleftrightarrow>
     (\<exists>s'. (sweep_step N K)\<^sup>*\<^sup>* s s' \<and> sweep_sim P tbl sq past sent0 h s' \<and> sy_procs s' i = p)"

lemma moves_refl: "sweep_sim P tbl sq past sent0 h s \<Longrightarrow> moves N K P tbl sq past sent0 i s h (sy_procs s i)"
  unfolding moves_def by blast

lemma moves_trans:
  assumes "moves N K P tbl sq past sent0 i s h p"
    and "\<And>s'. sweep_sim P tbl sq past sent0 h s' \<Longrightarrow> sy_procs s' i = p \<Longrightarrow> moves N K P tbl sq past sent0 i s' h' p'"
  shows "moves N K P tbl sq past sent0 i s h' p'"
proof -
  from assms(1) obtain s1 where s1: "(sweep_step N K)\<^sup>*\<^sup>* s s1" "sweep_sim P tbl sq past sent0 h s1" "sy_procs s1 i = p"
    unfolding moves_def by blast
  from assms(2) [OF s1(2,3)] obtain s2 where "(sweep_step N K)\<^sup>*\<^sup>* s1 s2" "sweep_sim P tbl sq past sent0 h' s2" "sy_procs s2 i = p'"
    unfolding moves_def by blast
  with rtranclp_trans [OF s1(1)] show ?thesis unfolding moves_def by blast
qed

lemma moves_step:
  assumes "sweep_step N K s s'" and "sweep_sim P tbl sq past sent0 h s'" and "sy_procs s' i = p"
  shows "moves N K P tbl sq past sent0 i s h p"
  unfolding moves_def using assms by blast

lemma moves_crash:
  assumes "sweep_sim P tbl sq past sent0 h s" and "sp_now (sy_procs s i) = now"
  shows "moves N K P tbl sq past sent0 i s h (idle now)"
  by (rule moves_step [OF sweep_step.crash [of N K s i]]) (use assms in \<open>auto simp: sweep_sim_def\<close>)

lemma moves_then_crash:
  assumes "moves N K P tbl sq past sent0 i s h p" and "sp_now p = now"
  shows "moves N K P tbl sq past sent0 i s h (idle now)"
  using assms(1) by (rule moves_trans) (use assms(2) in \<open>auto intro: moves_crash\<close>)

lemma claim_moves:
  assumes doc: "aws_documented P env tbl sq" and ix: "index_documented P env tbl sq past" and sim: "sweep_sim P tbl sq past sent0 h s"
    and p: "sy_procs s i = \<lparr>sp_now = now, sp_todo = it # rest, sp_phase = Ready\<rparr>"
    and it: "own_key it" "\<not> lease_held (now - SWEEPER_LEASE_SECONDS) (snd it)"
    and call: "ap_claim P (en_tableName env) (fst it) now (now - SWEEPER_LEASE_SECONDS) h = (r, h')"
  shows "moves N K P tbl sq past sent0 i s h' (case r of
      Inr _ \<Rightarrow> \<lparr>sp_now = now, sp_todo = rest, sp_phase = Claimed it\<rparr>
    | Inl e \<Rightarrow> if isConditionalCheckFailed e then \<lparr>sp_now = now, sp_todo = rest, sp_phase = Ready\<rparr> else idle now)"
proof -
  let ?fl = "now - SWEEPER_LEASE_SECONDS"
  have fl: "lease_floor (sy_procs s i) = ?fl" by (simp add: lease_floor_def p)
  have "\<forall>x. tbl h (fst it) = Some x \<longrightarrow> item_sched x \<noteq> None"
    using sim it(1) by (simp add: sweep_sim_def sched_typed_def own_key_def)
  then have own: "owned past h'" and law: "sq h' = sq h" "attempted (claimable ?fl (sched_rows (tbl h) (fst it))) (tbl h) ((tbl h)(fst it := map_option (stamp now) (tbl h (fst it)))) r (tbl h')"
    using claim_call [OF doc call] owned_claim [OF doc ix _ call] sim by (simp_all add: sched_rows_def sweep_sim_def)
  have same: "sweep_sim P tbl sq past sent0 h' s" if "tbl h' = tbl h" using sim law(1) own that by (simp add: sweep_sim_def)
  have granted: "moves N K P tbl sq past sent0 i s h' \<lparr>sp_now = now, sp_todo = rest, sp_phase = Claimed it\<rparr>"
    if c: "claimable ?fl (sched_rows (tbl h) (fst it))" and t: "tbl h' = (tbl h)(fst it := map_option (stamp now) (tbl h (fst it)))"
  proof -
    from c obtain row where row: "sched_rows (tbl h) (fst it) = Some row" "claimable ?fl (Some row)"
      by (auto simp: claimable_def split: option.splits)
    have "sweep_step N K s (set_proc i ((sy_procs s i)\<lparr>sp_todo := rest, sp_phase := Claimed it\<rparr>)
        (s\<lparr>sy_rows := (sy_rows s)(fst it \<mapsto> row\<lparr>sr_claimed_at := Some (sp_now (sy_procs s i))\<rparr>)\<rparr>))"
      by (rule sweep_step.claim [OF refl]) (use p it row sim fl in \<open>auto simp: sweep_sim_def\<close>)
    then show ?thesis
      by (rule moves_step) (use p sim own law(1) t sched_rows_claim [OF row(1)] sched_typed_claim in \<open>auto simp: sweep_sim_def\<close>)
  qed
  have lost: "moves N K P tbl sq past sent0 i s h' \<lparr>sp_now = now, sp_todo = rest, sp_phase = Ready\<rparr>"
    if c: "\<not> claimable ?fl (sched_rows (tbl h) (fst it))" and t: "tbl h' = tbl h"
  proof -
    have "sweep_step N K s (set_proc i ((sy_procs s i)\<lparr>sp_todo := rest\<rparr>) s)"
      by (rule sweep_step.lose [OF refl]) (use p it c sim fl in \<open>auto simp: sweep_sim_def\<close>)
    then show ?thesis by (rule moves_step) (use p same [OF t] in \<open>auto simp: sweep_sim_def\<close>)
  qed
  show ?thesis
  proof (cases r)
    case (Inl e)
    then show ?thesis
      using law(2) lost same p moves_then_crash [OF granted] moves_crash [of P tbl sq past sent0 h' s i now]
      by (auto simp: attempted_def split: if_splits)
  qed (use law(2) granted in \<open>auto simp: attempted_def\<close>)
qed

lemma send_moves:
  assumes doc: "aws_documented P env tbl sq" and ix: "index_documented P env tbl sq past" and sim: "sweep_sim P tbl sq past sent0 h s"
    and p: "sy_procs s i = \<lparr>sp_now = now, sp_todo = rest, sp_phase = Claimed it\<rparr>"
    and call: "ap_sqs_send P (en_queueUrl env) (message_body P (sr_message (snd it))) 0 h = (r, h')"
  shows "moves N K P tbl sq past sent0 i s h' (case r of Inr _ \<Rightarrow> \<lparr>sp_now = now, sp_todo = rest, sp_phase = Released it\<rparr> | Inl e \<Rightarrow> idle now)"
proof -
  have law: "tbl h' = tbl h" "attempted True (sq h) (sq h @ [(message_body P (sr_message (snd it)), 0)]) r (sq h')"
    using send_call [OF doc call] by simp_all
  have own: "owned past h'"
    by (rule owned_same [OF ix _ history_calls(4) [OF ix call] law(1)]) (use sim in \<open>simp add: sweep_sim_def\<close>)
  have sent: "moves N K P tbl sq past sent0 i s h' \<lparr>sp_now = now, sp_todo = rest, sp_phase = Released it\<rparr>"
    if "sq h' = sq h @ [(message_body P (sr_message (snd it)), 0)]"
  proof -
    have "sweep_step N K s (set_proc i ((sy_procs s i)\<lparr>sp_phase := Released it\<rparr>) (s\<lparr>sy_sent := sy_sent s @ [sr_message (snd it)]\<rparr>))"
      by (rule sweep_step.send [OF refl]) (simp add: p)
    then show ?thesis by (rule moves_step) (use p sim own law(1) that in \<open>auto simp: sweep_sim_def\<close>)
  qed
  have same: "moves N K P tbl sq past sent0 i s h' (idle now)" if "sq h' = sq h"
    by (rule moves_crash) (use sim own law(1) that p in \<open>auto simp: sweep_sim_def\<close>)
  show ?thesis
    using law(2) sent same moves_then_crash [OF sent] by (cases r) (auto simp: attempted_def split: if_splits)
qed

lemma delete_moves:
  assumes doc: "aws_documented P env tbl sq" and ix: "index_documented P env tbl sq past" and sim: "sweep_sim P tbl sq past sent0 h s"
    and p: "sy_procs s i = \<lparr>sp_now = now, sp_todo = rest, sp_phase = Released it\<rparr>"
    and call: "ap_delete P (en_tableName env) (fst it) h = (r, h')"
  shows "moves N K P tbl sq past sent0 i s h' (case r of Inr _ \<Rightarrow> \<lparr>sp_now = now, sp_todo = rest, sp_phase = Ready\<rparr> | Inl e \<Rightarrow> idle now)"
proof -
  have law: "sq h' = sq h" "attempted True (tbl h) ((tbl h)(fst it := None)) r (tbl h')"
    using delete_call [OF doc call] by simp_all
  have own: "owned past h'" by (rule owned_delete [OF doc ix _ call]) (use sim in \<open>simp add: sweep_sim_def\<close>)
  have gone: "moves N K P tbl sq past sent0 i s h' \<lparr>sp_now = now, sp_todo = rest, sp_phase = Ready\<rparr>"
    if "tbl h' = (tbl h)(fst it := None)"
  proof -
    have "sweep_step N K s (set_proc i ((sy_procs s i)\<lparr>sp_phase := Ready\<rparr>) (s\<lparr>sy_rows := (sy_rows s)(fst it := None)\<rparr>))"
      by (rule sweep_step.remove [OF refl]) (simp add: p)
    then show ?thesis
      by (rule moves_step) (use p sim own law(1) that sched_typed_delete in \<open>auto simp: sweep_sim_def sched_rows_delete\<close>)
  qed
  have same: "moves N K P tbl sq past sent0 i s h' (idle now)" if "tbl h' = tbl h"
    by (rule moves_crash) (use sim own law(1) that p in \<open>auto simp: sweep_sim_def\<close>)
  show ?thesis
    using law(2) gone same moves_then_crash [OF gone] by (cases r) (auto simp: attempted_def split: if_splits)
qed

lemma sweep_item_moves:
  assumes doc: "aws_documented P env tbl sq" and ix: "index_documented P env tbl sq past" and sim: "sweep_sim P tbl sq past sent0 (aw_host w) s"
    and p: "sy_procs s i = \<lparr>sp_now = now, sp_todo = it # rest, sp_phase = Ready\<rparr>" and it: "own_key it"
  shows "moves N K P tbl sq past sent0 i s (aw_host (snd (sweep_item P env now (now - SWEEPER_LEASE_SECONDS) it res w)))
    (case fst (sweep_item P env now (now - SWEEPER_LEASE_SECONDS) it res w) of
       Inr _ \<Rightarrow> \<lparr>sp_now = now, sp_todo = rest, sp_phase = Ready\<rparr> | Inl _ \<Rightarrow> idle now)"
proof (cases "lease_held (now - SWEEPER_LEASE_SECONDS) (snd it)")
  case True
  have "sweep_step N K s (set_proc i ((sy_procs s i)\<lparr>sp_todo := rest\<rparr>) s)"
    by (rule sweep_step.skip [OF refl]) (use p True in \<open>auto simp: lease_floor_def\<close>)
  then have "moves N K P tbl sq past sent0 i s (aw_host w) \<lparr>sp_now = now, sp_todo = rest, sp_phase = Ready\<rparr>"
    by (rule moves_step) (use sim p in \<open>auto simp: sweep_sim_def\<close>)
  with True show ?thesis by (simp add: sweep_item_def)
next
  case False
  obtain r1 h1 where c1: "ap_claim P (en_tableName env) (fst it) now (now - SWEEPER_LEASE_SECONDS) (aw_host w) = (r1, h1)" by fastforce
  obtain r2 h2 where c2: "ap_sqs_send P (en_queueUrl env) (message_body P (sr_message (snd it))) 0 h1 = (r2, h2)" by fastforce
  obtain r3 h3 where c3: "ap_delete P (en_tableName env) (fst it) h2 = (r3, h3)" by fastforce
  note run = sweep_item_def sweep_claim_def aws_call_def bind_io_def seq_io_def catch_io_def Let_def
  note m1 = claim_moves [OF doc ix sim p it False c1, of N K]
  show ?thesis
  proof (cases r1)
    case (Inl e)
    with m1 False c1 show ?thesis by (auto simp: run split: if_splits)
  next
    case r1: Inr
    note m1 = m1 [unfolded r1 sum.case]
    show ?thesis
    proof (cases r2)
      case (Inl e)
      have "moves N K P tbl sq past sent0 i s h2 (idle now)"
        using m1 by (rule moves_trans) (use send_moves [OF doc ix _ _ c2] Inl in force)
      with False c1 c2 r1 Inl show ?thesis by (simp add: run)
    next
      case r2: Inr
      have m2: "moves N K P tbl sq past sent0 i s h2 \<lparr>sp_now = now, sp_todo = rest, sp_phase = Released it\<rparr>"
        using m1 by (rule moves_trans) (use send_moves [OF doc ix _ _ c2] r2 in force)
      have "moves N K P tbl sq past sent0 i s h3 (case r3 of Inr _ \<Rightarrow> \<lparr>sp_now = now, sp_todo = rest, sp_phase = Ready\<rparr> | Inl e \<Rightarrow> idle now)"
        using m2 by (rule moves_trans) (rule delete_moves [OF doc ix _ _ c3])
      with False c1 c2 c3 r1 r2 show ?thesis by (cases r3) (simp_all add: run)
    qed
  qed
qed

lemma sweep_items_moves:
  assumes doc: "aws_documented P env tbl sq" and ix: "index_documented P env tbl sq past"
  shows "sweep_sim P tbl sq past sent0 (aw_host w) s \<Longrightarrow> sy_procs s i = \<lparr>sp_now = now, sp_todo = items, sp_phase = Ready\<rparr> \<Longrightarrow>
    list_all own_key items \<Longrightarrow>
    moves N K P tbl sq past sent0 i s (aw_host (snd (sweep_items P env now (now - SWEEPER_LEASE_SECONDS) items res w))) (idle now)"
proof (induction items arbitrary: res w s)
  case Nil
  then show ?case using moves_refl [of P tbl sq past sent0 "aw_host w" s N K i] by (simp add: idle_def)
next
  case (Cons it items)
  note one = sweep_item_moves [OF doc ix Cons.prems(1,2), of N K res]
  show ?case
  proof (cases "fst (sweep_item P env now (now - SWEEPER_LEASE_SECONDS) it res w)")
    case (Inl e)
    with one Cons.prems(3) show ?thesis by (simp add: bind_io_def)
  next
    case (Inr res')
    have "moves N K P tbl sq past sent0 i s (aw_host (snd (sweep_item P env now (now - SWEEPER_LEASE_SECONDS) it res w)))
        \<lparr>sp_now = now, sp_todo = items, sp_phase = Ready\<rparr>"
      using one Inr Cons.prems(3) by simp
    then have "moves N K P tbl sq past sent0 i s (aw_host (snd (sweep_items P env now (now - SWEEPER_LEASE_SECONDS) items res'
        (snd (sweep_item P env now (now - SWEEPER_LEASE_SECONDS) it res w))))) (idle now)"
      by (rule moves_trans) (use Cons.IH Cons.prems(3) in auto)
    with Inr show ?thesis by (simp add: bind_io_def)
  qed
qed

lemma sweep_pages_moves:
  assumes doc: "aws_documented P env tbl sq" and ix: "index_documented P env tbl sq past" and "now \<in> N"
  shows "sweep_sim P tbl sq past sent0 (aw_host w) s \<Longrightarrow> sp_phase (sy_procs s i) = Ready \<Longrightarrow> sp_todo (sy_procs s i) = [] \<Longrightarrow>
    sp_now (sy_procs s i) = now \<Longrightarrow>
    moves N K P tbl sq past sent0 i s (aw_host (snd (sweep_pages P env now (now - SWEEPER_LEASE_SECONDS) fuel k res w))) (idle now)"
proof (induction fuel arbitrary: k res w s)
  case 0
  then show ?case using moves_crash [of P tbl sq past sent0 "aw_host w" s i now N K] by simp
next
  case (Suc fuel)
  obtain r h where q: "ap_queryDue P (en_tableName env) (en_dueAtIndexName env) SCHED_GSI_PK now k (aw_host w) = (r, h)" by fastforce
  note law = due_call [OF ix q]
  have owned: "owned past (aw_host w)" using Suc.prems(1) by (simp add: sweep_sim_def)
  from owned_same [OF ix this] have sim: "sweep_sim P tbl sq past sent0 h s" using Suc.prems(1) law by (simp add: sweep_sim_def)
  show ?case
  proof (cases r)
    case (Inl e)
    then show ?thesis using q moves_crash [OF sim Suc.prems(4), of N K] by (simp add: bind_io_def aws_call_def)
  next
    case (Inr page)
    let ?items = "sched_items (fst page)" and ?w = "w\<lparr>aw_host := h\<rparr>"
    let ?run = "sweep_items P env now (now - SWEEPER_LEASE_SECONDS) ?items res ?w"
    have own: "list_all own_key ?items" by (rule owned_page [OF owned]) (use law Inr in simp)
    have "sweep_step N K s (set_proc i \<lparr>sp_now = now, sp_todo = ?items, sp_phase = Ready\<rparr> s)"
      by (rule sweep_step.page) (use Suc.prems assms(3) own in auto)
    then have "moves N K P tbl sq past sent0 i s h \<lparr>sp_now = now, sp_todo = ?items, sp_phase = Ready\<rparr>"
      by (rule moves_step) (use sim in \<open>auto simp: sweep_sim_def\<close>)
    then have items: "moves N K P tbl sq past sent0 i s (aw_host (snd ?run)) (idle now)"
      by (rule moves_trans) (use sweep_items_moves [OF doc ix, of sent0 ?w] own in auto)
    have more: "moves N K P tbl sq past sent0 i s (aw_host (snd (sweep_pages P env now (now - SWEEPER_LEASE_SECONDS) fuel k' res' (snd ?run)))) (idle now)" for k' res'
      using items by (rule moves_trans) (use Suc.IH in \<open>auto simp: idle_def\<close>)
    show ?thesis
      using q Inr items more by (auto simp: bind_io_def aws_call_def split: sum.splits option.splits)
  qed
qed

end
