(* ===== verification/Aws_Delivery.thy ===== *)
theory Aws_Delivery
  imports Aws_Contracts
begin

text \<open>
  Deliveries on AWS, where every call may fail: the abstract view of the table, the queue and the requests
  made, the well-formed tables, and the contract of \<open>delivery_ports\<close> for the engine that \<open>deliverHandler\<close>
  builds. Any call may throw any error, and a write that throws may have happened or not; the reads of
  endpoints and rate buckets, which are eventually consistent, may show anything.
\<close>

section \<open>Keys\<close>

lemmas sk_defs = endpointSk_def messageSk_def messageIndexSk_def attemptSk_def attemptCounterSk_def circuitSk_def rateSk_def
  dlqSk_def dlqCounterSk_def idemSk_def schedSk_def

lemma tenantPk_inj [simp]: "tenantPk t = tenantPk t' \<longleftrightarrow> t = t'"
  by (simp add: tenantPk_def)

lemma sk_inj [simp]:
  "endpointSk i = endpointSk i' \<longleftrightarrow> i = i'" "messageSk i = messageSk i' \<longleftrightarrow> i = i'" "circuitSk i = circuitSk i' \<longleftrightarrow> i = i'"
  "idemSk i = idemSk i' \<longleftrightarrow> i = i'" "rateSk i = rateSk i' \<longleftrightarrow> i = i'" "attemptCounterSk i = attemptCounterSk i' \<longleftrightarrow> i = i'" "schedSk i = schedSk i' \<longleftrightarrow> i = i'"
  by (simp_all add: sk_defs)

lemma sk_kinds [simp]:
  "idemSk a \<noteq> messageSk b" "endpointSk a \<noteq> messageSk b" "attemptSk a n \<noteq> messageSk b" "attemptCounterSk a \<noteq> messageSk b"
  "circuitSk a \<noteq> messageSk b" "rateSk a \<noteq> messageSk b" "dlqSk n \<noteq> messageSk b" "dlqCounterSk \<noteq> messageSk b"
  "schedSk a \<noteq> messageSk b" "idemSk a \<noteq> messageIndexSk b" "endpointSk a \<noteq> messageIndexSk b" "messageSk a \<noteq> messageIndexSk b"
  "attemptSk a n \<noteq> messageIndexSk b" "attemptCounterSk a \<noteq> messageIndexSk b" "circuitSk a \<noteq> messageIndexSk b" "rateSk a \<noteq> messageIndexSk b"
  "dlqSk n \<noteq> messageIndexSk b" "dlqCounterSk \<noteq> messageIndexSk b" "schedSk a \<noteq> messageIndexSk b" "idemSk a \<noteq> attemptSk b k"
  "endpointSk a \<noteq> attemptSk b k" "messageSk a \<noteq> attemptSk b k" "attemptCounterSk a \<noteq> attemptSk b k" "circuitSk a \<noteq> attemptSk b k"
  "rateSk a \<noteq> attemptSk b k" "dlqSk n \<noteq> attemptSk b k" "dlqCounterSk \<noteq> attemptSk b k" "schedSk a \<noteq> attemptSk b k"
  "idemSk a \<noteq> attemptCounterSk b" "endpointSk a \<noteq> attemptCounterSk b" "messageSk a \<noteq> attemptCounterSk b" "attemptSk a n \<noteq> attemptCounterSk b"
  "circuitSk a \<noteq> attemptCounterSk b" "rateSk a \<noteq> attemptCounterSk b" "dlqSk n \<noteq> attemptCounterSk b" "dlqCounterSk \<noteq> attemptCounterSk b"
  "schedSk a \<noteq> attemptCounterSk b" "idemSk a \<noteq> circuitSk b" "endpointSk a \<noteq> circuitSk b" "messageSk a \<noteq> circuitSk b"
  "attemptSk a n \<noteq> circuitSk b" "attemptCounterSk a \<noteq> circuitSk b" "rateSk a \<noteq> circuitSk b" "dlqSk n \<noteq> circuitSk b"
  "dlqCounterSk \<noteq> circuitSk b" "schedSk a \<noteq> circuitSk b" "idemSk a \<noteq> rateSk b" "endpointSk a \<noteq> rateSk b"
  "messageSk a \<noteq> rateSk b" "attemptSk a n \<noteq> rateSk b" "attemptCounterSk a \<noteq> rateSk b" "circuitSk a \<noteq> rateSk b"
  "dlqSk n \<noteq> rateSk b" "dlqCounterSk \<noteq> rateSk b" "schedSk a \<noteq> rateSk b" "idemSk a \<noteq> dlqSk k"
  "endpointSk a \<noteq> dlqSk k" "messageSk a \<noteq> dlqSk k" "attemptSk a n \<noteq> dlqSk k" "attemptCounterSk a \<noteq> dlqSk k"
  "circuitSk a \<noteq> dlqSk k" "rateSk a \<noteq> dlqSk k" "dlqCounterSk \<noteq> dlqSk k" "schedSk a \<noteq> dlqSk k"
  "idemSk a \<noteq> dlqCounterSk" "endpointSk a \<noteq> dlqCounterSk" "messageSk a \<noteq> dlqCounterSk" "attemptSk a n \<noteq> dlqCounterSk"
  "attemptCounterSk a \<noteq> dlqCounterSk" "circuitSk a \<noteq> dlqCounterSk" "rateSk a \<noteq> dlqCounterSk" "dlqSk n \<noteq> dlqCounterSk"
  "schedSk a \<noteq> dlqCounterSk" "idemSk a \<noteq> schedSk b" "endpointSk a \<noteq> schedSk b" "messageSk a \<noteq> schedSk b"
  "attemptSk a n \<noteq> schedSk b" "attemptCounterSk a \<noteq> schedSk b" "circuitSk a \<noteq> schedSk b" "rateSk a \<noteq> schedSk b"
  "dlqSk n \<noteq> schedSk b" "dlqCounterSk \<noteq> schedSk b"
  "endpointSk a \<noteq> idemSk b" "messageSk a \<noteq> idemSk b" "attemptSk a n \<noteq> idemSk b" "attemptCounterSk a \<noteq> idemSk b"
  "circuitSk a \<noteq> idemSk b" "rateSk a \<noteq> idemSk b" "dlqSk n \<noteq> idemSk b" "dlqCounterSk \<noteq> idemSk b" "schedSk a \<noteq> idemSk b"
  by (simp_all add: sk_defs)

lemma pad_inj: "pad_zeros k (nat_str m) = pad_zeros k (nat_str n) \<longleftrightarrow> m = n"
proof -
  have "of_digits 10 (pad_zeros k (nat_str n)) = n" for n
    unfolding of_digits_pad nat_str_def by (rule of_digits_to_radix) simp_all
  then show ?thesis by metis
qed

lemma dlqSk_inj [simp]: "dlqSk m = dlqSk n \<longleftrightarrow> m = n"
  by (simp add: dlqSk_def pad_inj)

text \<open>The number at the end of the key of an attempt has no \<open>#\<close>, so the key determines message and number.\<close>

lemma pad_no_hash: "CHR ''#'' \<notin> set (pad_zeros k (nat_str n))"
  using pad_digits [of "CHR ''#''" k n] by (auto simp: is_digit_in_def digit_val_def)

lemma attemptSk_inj [simp]: "attemptSk i m = attemptSk i' n \<longleftrightarrow> i = i' \<and> m = n"
proof
  assume "attemptSk i m = attemptSk i' n"
  then have "i @ CHR ''#'' # pad_zeros 10 (nat_str m) = i' @ CHR ''#'' # pad_zeros 10 (nat_str n)"
    by (simp add: attemptSk_def)
  from split_at_last [OF this pad_no_hash pad_no_hash] show "i = i' \<and> m = n" by (simp add: pad_inj)
qed simp

text \<open>The body of a queue message determines which message it carries.\<close>

lemma message_body_ids:
  assumes "message_body P m = message_body P m'"
  shows "msg_messageId m = msg_messageId m' \<and> msg_tenant m = msg_tenant m'"
proof -
  have body: "\<exists>r. message_body P m = ''{'' @ quote_str ''messageId'' @ '':'' @ quote_str (msg_messageId m) @ '','' @
      quote_str ''tenant'' @ '':'' @ quote_str (msg_tenant m) @ '','' @ r" for m
    by (simp add: message_body_def message_json_def jobj_def map_filter_simps)
  obtain r where r: "message_body P m = ''{'' @ quote_str ''messageId'' @ '':'' @ quote_str (msg_messageId m) @ '','' @
      quote_str ''tenant'' @ '':'' @ quote_str (msg_tenant m) @ '','' @ r" using body by blast
  obtain r' where r': "message_body P m' = ''{'' @ quote_str ''messageId'' @ '':'' @ quote_str (msg_messageId m') @ '','' @
      quote_str ''tenant'' @ '':'' @ quote_str (msg_tenant m') @ '','' @ r'" using body by blast
  from assms have
    "quote_str (msg_messageId m) @ '','' @ quote_str ''tenant'' @ '':'' @ quote_str (msg_tenant m) @ '','' @ r
     = quote_str (msg_messageId m') @ '','' @ quote_str ''tenant'' @ '':'' @ quote_str (msg_tenant m') @ '','' @ r'" unfolding r r' by simp
  from quote_str_prefix [OF this] have "msg_messageId m = msg_messageId m'"
    "quote_str (msg_tenant m) @ '','' @ r = quote_str (msg_tenant m') @ '','' @ r'" by auto
  then show ?thesis using quote_str_prefix by blast
qed

section \<open>The view of a table\<close>

definition seq_at :: "(ddb_key \<Rightarrow> aws_item option) \<Rightarrow> ddb_key \<Rightarrow> nat" where
  "seq_at tb k = (case tb k of Some (ItSeq n) \<Rightarrow> n | _ \<Rightarrow> 0)"

definition rows_upto :: "(nat \<Rightarrow> 'a option) \<Rightarrow> nat \<Rightarrow> 'a list" where
  "rows_upto f n = List.map_filter f [1..<n + 1]"

definition table_attempts :: "(ddb_key \<Rightarrow> aws_item option) \<Rightarrow> string \<Rightarrow> string \<Rightarrow> attempt list" where
  "table_attempts tb t i =
     rows_upto (\<lambda>n. Option.bind (tb (tenantPk t, attemptSk i n)) item_attempt) (seq_at tb (tenantPk t, attemptCounterSk i))"

definition table_dlq :: "(ddb_key \<Rightarrow> aws_item option) \<Rightarrow> string \<Rightarrow> dlq_row list" where
  "table_dlq tb t = rows_upto (\<lambda>n. Option.bind (tb (tenantPk t, dlqSk n)) item_dlq) (seq_at tb (tenantPk t, dlqCounterSk))"

text \<open>The messages handed to the producer are no part of this view: a delivery hands over none.\<close>

definition table_view ::
  "(ddb_key \<Rightarrow> aws_item option) \<Rightarrow> (string \<times> string \<times> (string \<times> string) list) list \<Rightarrow> view" where
  "table_view tb posts =
     \<lparr>v_events = (\<lambda>t k. Option.bind (tb (tenantPk t, idemSk k)) item_event),
      v_endpoints = (\<lambda>t i. Option.bind (tb (tenantPk t, endpointSk i)) item_endpoint),
      v_messages = (\<lambda>t i. Option.bind (tb (tenantPk t, messageSk i)) item_message),
      v_attempts = (\<lambda>t (e, i). filter (\<lambda>a. att_endpointId a = e) (table_attempts tb t i)),
      v_circuits = (\<lambda>t i. case Option.bind (tb (tenantPk t, circuitSk i)) item_circuit of
                       None \<Rightarrow> initialCircuit DEFAULT_COOLDOWN_MS | Some c \<Rightarrow> c),
      v_buckets = (\<lambda>t i. Option.bind (tb (tenantPk t, rateSk i)) item_rate),
      v_dlq = (\<lambda>t i. filter_mset (\<lambda>r. msg_endpointId (fst r) = i) (mset (table_dlq tb t))),
      v_queue = [], v_posts = posts\<rparr>"

text \<open>Counters are numbers, no row lies above its counter, and the rows of idempotency keys are events.\<close>

definition table_ok :: "(ddb_key \<Rightarrow> aws_item option) \<Rightarrow> bool" where
  "table_ok tb \<longleftrightarrow>
     (\<forall>t i x. tb (tenantPk t, attemptCounterSk i) = Some x \<longrightarrow> (\<exists>n. x = ItSeq n))
   \<and> (\<forall>t x. tb (tenantPk t, dlqCounterSk) = Some x \<longrightarrow> (\<exists>n. x = ItSeq n))
   \<and> (\<forall>t i n. seq_at tb (tenantPk t, attemptCounterSk i) < n \<longrightarrow> tb (tenantPk t, attemptSk i n) = None)
   \<and> (\<forall>t n. seq_at tb (tenantPk t, dlqCounterSk) < n \<longrightarrow> tb (tenantPk t, dlqSk n) = None)
   \<and> (\<forall>t k x. tb (tenantPk t, idemSk k) = Some x \<longrightarrow> (\<exists>e n. x = ItEvent e n))"

text \<open>The retries that wait: a row of the table, due in the second the scheduler rounded to, or a body in the queue.\<close>

definition waiting :: "'h aws_platform \<Rightarrow> (ddb_key \<Rightarrow> aws_item option) \<Rightarrow> (string \<times> nat) list \<Rightarrow> (message \<times> millis) set" where
  "waiting P tb q =
     {(m, due). (\<exists>row. tb (tenantPk (msg_tenant m), schedSk (msg_messageId m)) = Some (ItSched row) \<and> sr_message row = m
                   \<and> sr_due_at row = \<lfloor>due / 1000\<rfloor>)
              \<or> (\<exists>d. (message_body P m, d) \<in> set q)}"

lemmas table_view_defs = table_view_def table_attempts_def table_dlq_def seq_at_def

lemma table_view_message:
  "table_view (tb((tenantPk (msg_tenant m), messageSk (msg_messageId m)) \<mapsto> ItMessage m)) ps = put_msg m (table_view tb ps)"
  by (simp add: table_view_defs put_msg_def upd2_def fun_eq_iff)

lemma table_view_index: "table_view (tb((tenantPk t, messageIndexSk i) \<mapsto> x)) ps = table_view tb ps"
  by (simp add: table_view_defs)

lemma table_view_sched: "table_view (tb((tenantPk t, schedSk i) \<mapsto> x)) ps = table_view tb ps"
  by (simp add: table_view_defs)

lemma table_view_event:
  "table_view (tb((tenantPk t, idemSk k) \<mapsto> ItEvent e n)) ps = put_event t k (e, n) (table_view tb ps)"
  by (simp add: table_view_defs put_event_def upd2_def fun_eq_iff)

lemma table_view_circuit:
  "table_view (tb((tenantPk t, circuitSk i) \<mapsto> ItCircuit c v)) ps = put_circ t i c (table_view tb ps)"
  by (simp add: table_view_defs put_circ_def upd2_def fun_eq_iff)

lemma table_view_rate:
  "table_view (tb((tenantPk t, rateSk i) \<mapsto> ItRate b)) ps = put_buck t i b (table_view tb ps)"
  by (simp add: table_view_defs put_buck_def upd2_def fun_eq_iff)

text \<open>A counter that is raised shows no new row until the row is put.\<close>

lemma rows_upto_Suc: "rows_upto f (Suc n) = rows_upto f n @ (case f (Suc n) of None \<Rightarrow> [] | Some x \<Rightarrow> [x])"
  by (auto simp: rows_upto_def map_filter_def split: option.splits)

lemma rows_upto_cong: "(\<And>k. 0 < k \<Longrightarrow> k \<le> n \<Longrightarrow> f k = g k) \<Longrightarrow> rows_upto f n = rows_upto g n"
  by (induction n) (simp_all add: rows_upto_Suc, simp add: rows_upto_def)

lemma table_attempts_counter:
  assumes "table_ok tb" and "n = Suc (seq_at tb (tenantPk t, attemptCounterSk i))"
  shows "table_attempts (tb((tenantPk t, attemptCounterSk i) \<mapsto> ItSeq n)) t' i' = table_attempts tb t' i'"
  using assms by (auto simp: table_attempts_def table_ok_def seq_at_def rows_upto_Suc)

lemma table_dlq_counter:
  assumes "table_ok tb" and "n = Suc (seq_at tb (tenantPk t, dlqCounterSk))"
  shows "table_dlq (tb((tenantPk t, dlqCounterSk) \<mapsto> ItSeq n)) t' = table_dlq tb t'"
  using assms by (auto simp: table_dlq_def table_ok_def seq_at_def rows_upto_Suc)

lemma table_attempts_put:
  assumes "table_ok tb" and "n = Suc (seq_at tb (tenantPk t, attemptCounterSk i))"
  shows "table_attempts (tb((tenantPk t, attemptCounterSk i) \<mapsto> ItSeq n, (tenantPk t, attemptSk i n) \<mapsto> ItAttempt a)) t' i'
    = table_attempts tb t' i' @ (if t' = t \<and> i' = i then [a] else [])"
  using assms by (auto simp: table_attempts_def table_ok_def seq_at_def rows_upto_Suc intro!: rows_upto_cong)

lemma table_dlq_put:
  assumes "table_ok tb" and "n = Suc (seq_at tb (tenantPk t, dlqCounterSk))"
  shows "table_dlq (tb((tenantPk t, dlqCounterSk) \<mapsto> ItSeq n, (tenantPk t, dlqSk n) \<mapsto> ItDlq m r)) t'
    = table_dlq tb t' @ (if t' = t then [(m, r)] else [])"
  using assms by (auto simp: table_dlq_def table_ok_def seq_at_def rows_upto_Suc intro!: rows_upto_cong)

lemma table_view_attempt_counter:
  assumes "table_ok tb" and "n = Suc (seq_at tb (tenantPk t, attemptCounterSk i))"
  shows "table_view (tb((tenantPk t, attemptCounterSk i) \<mapsto> ItSeq n)) ps = table_view tb ps"
  unfolding table_view_def table_attempts_counter [OF assms] by (simp add: table_dlq_def seq_at_def)

lemma table_view_dlq_counter:
  assumes "table_ok tb" and "n = Suc (seq_at tb (tenantPk t, dlqCounterSk))"
  shows "table_view (tb((tenantPk t, dlqCounterSk) \<mapsto> ItSeq n)) ps = table_view tb ps"
  unfolding table_view_def table_dlq_counter [OF assms] by (simp add: table_attempts_def seq_at_def)

lemma table_view_attempt:
  assumes "table_ok tb" and "n = Suc (seq_at tb (tenantPk (att_tenant a), attemptCounterSk (att_messageId a)))"
  shows "table_view (tb((tenantPk (att_tenant a), attemptCounterSk (att_messageId a)) \<mapsto> ItSeq n,
      (tenantPk (att_tenant a), attemptSk (att_messageId a) n) \<mapsto> ItAttempt a)) ps = add_att a (table_view tb ps)"
  unfolding table_view_def table_attempts_put [OF assms] by (auto simp: table_dlq_def seq_at_def add_att_def upd2_def fun_eq_iff)

lemma table_view_dlq:
  assumes "table_ok tb" and "n = Suc (seq_at tb (tenantPk (msg_tenant m), dlqCounterSk))"
  shows "table_view (tb((tenantPk (msg_tenant m), dlqCounterSk) \<mapsto> ItSeq n, (tenantPk (msg_tenant m), dlqSk n) \<mapsto> ItDlq m r)) ps
    = add_dlq m r (table_view tb ps)"
  unfolding table_view_def table_dlq_put [OF assms] by (auto simp: table_attempts_def seq_at_def add_dlq_def upd2_def fun_eq_iff)

lemma table_ok_put [simp]:
  assumes "table_ok tb"
  shows "table_ok (tb((tenantPk t, messageSk i) \<mapsto> x))" "table_ok (tb((tenantPk t, messageIndexSk i) \<mapsto> x))"
    "table_ok (tb((tenantPk t, circuitSk i) \<mapsto> x))" "table_ok (tb((tenantPk t, rateSk i) \<mapsto> x))"
    "table_ok (tb((tenantPk t, schedSk i) \<mapsto> x))" "table_ok (tb((tenantPk t, idemSk k) \<mapsto> ItEvent e n))"
  using assms by (simp_all add: table_ok_def seq_at_def)

lemma table_ok_counter [simp]:
  assumes "table_ok tb"
  shows "table_ok (tb((tenantPk t, attemptCounterSk i) \<mapsto> ItSeq (Suc (seq_at tb (tenantPk t, attemptCounterSk i)))))"
    "table_ok (tb((tenantPk t, dlqCounterSk) \<mapsto> ItSeq (Suc (seq_at tb (tenantPk t, dlqCounterSk)))))"
  using assms by (auto simp: table_ok_def seq_at_def)

lemma table_ok_row [simp]:
  assumes "table_ok tb"
  shows "n \<le> seq_at tb (tenantPk t, attemptCounterSk i) \<Longrightarrow> table_ok (tb((tenantPk t, attemptSk i n) \<mapsto> x))"
    "n \<le> seq_at tb (tenantPk t, dlqCounterSk) \<Longrightarrow> table_ok (tb((tenantPk t, dlqSk n) \<mapsto> x))"
  using assms by (auto simp: table_ok_def seq_at_def)

lemma waiting_put [simp]:
  "waiting P (tb((tenantPk t, messageSk i) \<mapsto> x)) q = waiting P tb q" "waiting P (tb((tenantPk t, messageIndexSk i) \<mapsto> x)) q = waiting P tb q"
  "waiting P (tb((tenantPk t, circuitSk i) \<mapsto> x)) q = waiting P tb q" "waiting P (tb((tenantPk t, rateSk i) \<mapsto> x)) q = waiting P tb q"
  "waiting P (tb((tenantPk t, attemptCounterSk i) \<mapsto> x)) q = waiting P tb q" "waiting P (tb((tenantPk t, attemptSk i n) \<mapsto> x)) q = waiting P tb q"
  "waiting P (tb((tenantPk t, idemSk k) \<mapsto> x)) q = waiting P tb q"
  "waiting P (tb((tenantPk t, dlqCounterSk) \<mapsto> x)) q = waiting P tb q" "waiting P (tb((tenantPk t, dlqSk n) \<mapsto> x)) q = waiting P tb q"
  by (simp_all add: waiting_def)

section \<open>The services a delivery uses\<close>

type_synonym 'h post_view = "'h \<Rightarrow> (string \<times> string \<times> (string \<times> string) list) list"

text \<open>An \<open>ADD\<close> of one to a counter is atomic and returns the new value; a call that fails may have been made.\<close>

definition counters_documented :: "'h aws_platform \<Rightarrow> string \<Rightarrow> 'h table_view \<Rightarrow> 'h queue_view \<Rightarrow> bool" where
  "counters_documented P T tbl sq \<longleftrightarrow>
     (\<forall>h k. (\<forall>x. tbl h k = Some x \<longrightarrow> (\<exists>n. x = ItSeq n)) \<longrightarrow>
        (let n = Suc (seq_at (tbl h) k); r = ap_addSeq P T k h in
         sq (snd r) = sq h
         \<and> (case fst r of Inr x \<Rightarrow> x = n \<and> tbl (snd r) = (tbl h)(k \<mapsto> ItSeq n)
            | Inl _ \<Rightarrow> tbl (snd r) = tbl h \<or> tbl (snd r) = (tbl h)(k \<mapsto> ItSeq n))))"

text \<open>\<open>fetch\<close> makes one request, \<open>Math.random\<close> draws from 0 up to 1; both leave the table and the queue alone.\<close>

definition outside_documented :: "'h aws_platform \<Rightarrow> 'h table_view \<Rightarrow> 'h queue_view \<Rightarrow> 'h post_view \<Rightarrow> bool" where
  "outside_documented P tbl sq posts \<longleftrightarrow>
     (\<forall>h url body hs tmo. let r = ap_fetch P url body hs tmo h in
        tbl (snd r) = tbl h \<and> sq (snd r) = sq h
        \<and> (posts (snd r) = posts h @ [(url, body, hs)] \<or> (\<exists>e. fst r = Inl e) \<and> posts (snd r) = posts h))
   \<and> (\<forall>h. let r = ap_math_random P h in
        tbl (snd r) = tbl h \<and> sq (snd r) = sq h \<and> (\<forall>x. fst r = Inr x \<longrightarrow> 0 \<le> x \<and> x < 1))"

text \<open>The other commands leave what \<open>posts\<close> shows alone (the requests made, or the messages published).\<close>

definition requests_documented :: "'h aws_platform \<Rightarrow> aws_env \<Rightarrow> ('h \<Rightarrow> 'p) \<Rightarrow> bool" where
  "requests_documented P env posts \<longleftrightarrow>
     (\<forall>h k x c. posts (snd (ap_put P (en_tableName env) k x c h)) = posts h)
   \<and> (\<forall>h k c. posts (snd (ap_get P (en_tableName env) k c h)) = posts h)
   \<and> (\<forall>h k. posts (snd (ap_addSeq P (en_tableName env) k h)) = posts h)
   \<and> (\<forall>h b d. posts (snd (ap_sqs_send P (en_queueUrl env) b d h)) = posts h)
   \<and> (\<forall>h. posts (snd (ap_date_now P h)) = posts h \<and> posts (snd (ap_math_random P h)) = posts h)"

definition delivery_documented ::
  "'h aws_platform \<Rightarrow> aws_env \<Rightarrow> 'h table_view \<Rightarrow> 'h queue_view \<Rightarrow> 'h post_view \<Rightarrow> bool" where
  "delivery_documented P env tbl sq posts \<longleftrightarrow>
     aws_documented P env tbl sq \<and> counters_documented P (en_tableName env) tbl sq
     \<and> outside_documented P tbl sq posts \<and> requests_documented P env posts"

definition aws_vw :: "'h table_view \<Rightarrow> 'h post_view \<Rightarrow> 'h aws_world \<Rightarrow> view" where
  "aws_vw tbl posts w = table_view (tbl (aw_host w)) (posts (aw_host w))"

definition aws_sched :: "'h aws_platform \<Rightarrow> 'h table_view \<Rightarrow> 'h queue_view \<Rightarrow> 'h aws_world \<Rightarrow> (message \<times> millis) set" where
  "aws_sched P tbl sq w = waiting P (tbl (aw_host w)) (sq (aw_host w))"

definition aws_ok :: "'h table_view \<Rightarrow> 'h aws_world \<Rightarrow> bool" where
  "aws_ok tbl w = table_ok (tbl (aw_host w))"

abbreviation any_error :: "js_error \<Rightarrow> bool" where
  "any_error \<equiv> \<lambda>_. True"

text \<open>What one command does, as the proofs below use it.\<close>

lemma plain_put:
  assumes "delivery_documented P env tbl sq posts" and "ap_put P (en_tableName env) k x Unconditional h = (r, h')"
  shows "sq h' = sq h \<and> posts h' = posts h \<and> (tbl h' = (tbl h)(k \<mapsto> x) \<or> (\<exists>e. r = Inl e) \<and> tbl h' = tbl h)"
proof -
  have doc: "aws_documented P env tbl sq" "requests_documented P env posts" using assms(1) by (simp_all add: delivery_documented_def)
  have "posts h' = posts h" using doc(2) assms(2) unfolding requests_documented_def by (metis snd_conv)
  then show ?thesis
    using put_call [OF doc(1) assms(2)] by (cases r) (auto simp: attempted_def condition_holds_def split: if_splits)
qed

lemma plain_get:
  assumes "delivery_documented P env tbl sq posts" and "ap_get P (en_tableName env) k c h = (r, h')"
  shows "sq h' = sq h \<and> posts h' = posts h \<and> tbl h' = tbl h \<and> (\<forall>x. r = Inr x \<longrightarrow> c \<longrightarrow> x = tbl h k)"
proof -
  have doc: "aws_documented P env tbl sq" "requests_documented P env posts" using assms(1) by (simp_all add: delivery_documented_def)
  have "posts h' = posts h" using doc(2) assms(2) unfolding requests_documented_def by (metis snd_conv)
  then show ?thesis using get_call [OF doc(1) assms(2)] by (cases r) auto
qed

lemma plain_add:
  assumes "delivery_documented P env tbl sq posts" and "ap_addSeq P (en_tableName env) k h = (r, h')"
    and "\<forall>x. tbl h k = Some x \<longrightarrow> (\<exists>n. x = ItSeq n)"
  shows "sq h' = sq h \<and> posts h' = posts h
    \<and> (r = Inr (Suc (seq_at (tbl h) k)) \<and> tbl h' = (tbl h)(k \<mapsto> ItSeq (Suc (seq_at (tbl h) k)))
       \<or> (\<exists>e. r = Inl e) \<and> (tbl h' = tbl h \<or> tbl h' = (tbl h)(k \<mapsto> ItSeq (Suc (seq_at (tbl h) k)))))"
proof -
  have doc: "counters_documented P (en_tableName env) tbl sq" "requests_documented P env posts"
    using assms(1) by (simp_all add: delivery_documented_def)
  have "posts h' = posts h" using doc(2) assms(2) unfolding requests_documented_def by (metis snd_conv)
  moreover have "let n = Suc (seq_at (tbl h) k); r = ap_addSeq P (en_tableName env) k h in
         sq (snd r) = sq h
         \<and> (case fst r of Inr x \<Rightarrow> x = n \<and> tbl (snd r) = (tbl h)(k \<mapsto> ItSeq n)
            | Inl _ \<Rightarrow> tbl (snd r) = tbl h \<or> tbl (snd r) = (tbl h)(k \<mapsto> ItSeq n))"
    using doc(1) assms(3) unfolding counters_documented_def by blast
  ultimately show ?thesis using assms(2) by (cases r) auto
qed

lemma plain_now:
  assumes "delivery_documented P env tbl sq posts"
  obtains t h' where "ap_date_now P h = (Inr t, h')" and "sq h' = sq h" and "posts h' = posts h" and "tbl h' = tbl h"
proof -
  have doc: "aws_documented P env tbl sq" "requests_documented P env posts" using assms(1) by (simp_all add: delivery_documented_def)
  obtain t where "fst (ap_date_now P h) = Inr t" "tbl (snd (ap_date_now P h)) = tbl h" "sq (snd (ap_date_now P h)) = sq h"
    using now_call [OF doc(1)] by blast
  moreover have "posts (snd (ap_date_now P h)) = posts h" using doc(2) by (simp add: requests_documented_def)
  ultimately show thesis using that by (metis prod.collapse)
qed

lemma plain_send:
  assumes "delivery_documented P env tbl sq posts" and "ap_sqs_send P (en_queueUrl env) b d h = (r, h')"
  shows "tbl h' = tbl h \<and> posts h' = posts h \<and> (sq h' = sq h @ [(b, d)] \<or> (\<exists>e. r = Inl e) \<and> sq h' = sq h)"
proof -
  have doc: "aws_documented P env tbl sq" "requests_documented P env posts" using assms(1) by (simp_all add: delivery_documented_def)
  have "posts h' = posts h" using doc(2) assms(2) unfolding requests_documented_def by (metis snd_conv)
  then show ?thesis using send_call [OF doc(1) assms(2)] by (cases r) (auto simp: attempted_def split: if_splits)
qed

section \<open>The contract of the ports\<close>

abbreviation aws_answers where
  "aws_answers P tbl sq posts \<equiv> answers any_error (aws_ok tbl) (aws_vw tbl posts) (aws_sched P tbl sq)"

lemmas aws_abs = aws_ok_def aws_vw_def aws_sched_def
lemmas aws_exec = bind_io_def seq_io_def catch_io_def aws_call_def

lemma aws_putMessage_answers:
  assumes doc: "delivery_documented P env tbl sq posts" and ok: "aws_ok tbl w"
  shows "aws_answers P tbl sq posts (dy_putMessage P env m) w (\<lambda>_ v. v = put_msg m (aws_vw tbl posts w))"
proof -
  obtain r1 h1 where c1: "ap_put P (en_tableName env) (tenantPk (msg_tenant m), messageSk (msg_messageId m)) (ItMessage m) Unconditional (aw_host w) = (r1, h1)"
    by fastforce
  obtain r2 h2 where c2: "ap_put P (en_tableName env) (tenantPk (msg_tenant m), messageIndexSk (msg_messageId m)) (ItIndex (msg_endpointId m)) Unconditional h1 = (r2, h2)"
    by fastforce
  show ?thesis
    using plain_put [OF doc c1] plain_put [OF doc c2] ok c1 c2
    by (cases r1; cases r2)
       (auto simp: answers_def dy_putMessage_def aws_exec aws_abs table_view_message table_view_index)
qed

lemma aws_putRateBucket_answers:
  assumes doc: "delivery_documented P env tbl sq posts" and ok: "aws_ok tbl w"
  shows "aws_answers P tbl sq posts (dy_putRateBucket P env t i b) w (\<lambda>_ v. v = put_buck t i b (aws_vw tbl posts w))"
proof -
  obtain r h where c: "ap_put P (en_tableName env) (tenantPk t, rateSk i) (ItRate b) Unconditional (aw_host w) = (r, h)" by fastforce
  show ?thesis
    using plain_put [OF doc c] ok c by (cases r) (auto simp: answers_def dy_putRateBucket_def aws_exec aws_abs table_view_rate)
qed

lemma aws_appendAttempt_answers:
  assumes doc: "delivery_documented P env tbl sq posts" and ok: "aws_ok tbl w"
  shows "aws_answers P tbl sq posts (dy_appendAttempt P env a) w (\<lambda>_ v. v = add_att a (aws_vw tbl posts w))"
proof -
  let ?k = "(tenantPk (att_tenant a), attemptCounterSk (att_messageId a))" and ?t = "tbl (aw_host w)"
  let ?n = "Suc (seq_at ?t ?k)"
  let ?row = "(tenantPk (att_tenant a), attemptSk (att_messageId a) ?n)"
  have tb: "table_ok ?t" using ok by (simp add: aws_ok_def)
  then have typed: "\<forall>x. ?t ?k = Some x \<longrightarrow> (\<exists>n. x = ItSeq n)" by (simp add: table_ok_def)
  obtain r1 h1 where c1: "ap_addSeq P (en_tableName env) ?k (aw_host w) = (r1, h1)" by fastforce
  obtain r2 h2 where c2: "ap_put P (en_tableName env) ?row (ItAttempt a) Unconditional h1 = (r2, h2)" by fastforce
  have seq: "seq_at (?t(?k \<mapsto> ItSeq ?n)) ?k = ?n" by (simp add: seq_at_def)
  have rok: "table_ok (?t(?k \<mapsto> ItSeq ?n, ?row \<mapsto> ItAttempt a))"
    by (rule table_ok_row) (use tb seq in auto)
  show ?thesis
    using plain_add [OF doc c1 typed] plain_put [OF doc c2] tb c1 c2 rok table_view_attempt_counter [OF tb refl] table_view_attempt [OF tb refl]
    by (cases r1; cases r2)
       (auto simp: answers_def dy_appendAttempt_def nextSeq_def aws_exec aws_abs)
qed

lemma aws_addToDlq_answers:
  assumes doc: "delivery_documented P env tbl sq posts" and ok: "aws_ok tbl w"
  shows "aws_answers P tbl sq posts (dy_addToDlq P env m reason) w (\<lambda>_ v. v = add_dlq m reason (aws_vw tbl posts w))"
proof -
  let ?k = "(tenantPk (msg_tenant m), dlqCounterSk)" and ?t = "tbl (aw_host w)"
  let ?n = "Suc (seq_at ?t ?k)"
  let ?row = "(tenantPk (msg_tenant m), dlqSk ?n)"
  have tb: "table_ok ?t" using ok by (simp add: aws_ok_def)
  then have typed: "\<forall>x. ?t ?k = Some x \<longrightarrow> (\<exists>n. x = ItSeq n)" by (simp add: table_ok_def)
  obtain r1 h1 where c1: "ap_addSeq P (en_tableName env) ?k (aw_host w) = (r1, h1)" by fastforce
  obtain r2 h2 where c2: "ap_put P (en_tableName env) ?row (ItDlq m reason) Unconditional h1 = (r2, h2)" by fastforce
  have seq: "seq_at (?t(?k \<mapsto> ItSeq ?n)) ?k = ?n" by (simp add: seq_at_def)
  have rok: "table_ok (?t(?k \<mapsto> ItSeq ?n, ?row \<mapsto> ItDlq m reason))"
    by (rule table_ok_row) (use tb seq in auto)
  show ?thesis
    using plain_add [OF doc c1 typed] plain_put [OF doc c2] tb c1 c2 rok table_view_dlq_counter [OF tb refl] table_view_dlq [OF tb refl]
    by (cases r1; cases r2)
       (auto simp: answers_def dy_addToDlq_def nextSeq_def aws_exec aws_abs)
qed

lemma aws_getCircuit_answers:
  assumes doc: "delivery_documented P env tbl sq posts" and ok: "aws_ok tbl w"
  shows "aws_answers P tbl sq posts (dy_getCircuit P env t i) w
    (\<lambda>x v. x = v_circuits (aws_vw tbl posts w) t i \<and> v = aws_vw tbl posts w)"
proof -
  obtain r h where c: "ap_get P (en_tableName env) (tenantPk t, circuitSk i) True (aw_host w) = (r, h)" by fastforce
  show ?thesis
    using plain_get [OF doc c] ok c
    by (cases r) (auto simp: answers_def dy_getCircuit_def aws_exec aws_abs, auto simp: table_view_def)
qed

lemma aws_putCircuit_answers:
  assumes doc: "delivery_documented P env tbl sq posts" and ok: "aws_ok tbl w"
  shows "aws_answers P tbl sq posts (dy_putCircuit P env t i c) w (\<lambda>_ v. v = put_circ t i c (aws_vw tbl posts w))"
proof -
  let ?k = "(tenantPk t, circuitSk i)"
  let ?v = "Option.bind (tbl (aw_host w) ?k) item_version"
  let ?n = "(case ?v of Some v \<Rightarrow> v | None \<Rightarrow> 0) + 1" and ?c = "case ?v of None \<Rightarrow> VersionMissing | Some v \<Rightarrow> VersionIs v"
  have doc': "aws_documented P env tbl sq" "requests_documented P env posts" using doc by (simp_all add: delivery_documented_def)
  obtain r1 h1 where c1: "ap_get P (en_tableName env) ?k True (aw_host w) = (r1, h1)" by fastforce
  obtain r2 h2 where c2: "ap_put P (en_tableName env) ?k (ItCircuit c ?n) ?c h1 = (r2, h2)" by fastforce
  have p: "posts h2 = posts h1" using doc'(2) c2 unfolding requests_documented_def by (metis snd_conv)
  have t: "sq h2 = sq h1 \<and> (tbl h2 = (tbl h1)(?k \<mapsto> ItCircuit c ?n) \<or> (\<exists>e. r2 = Inl e) \<and> tbl h2 = tbl h1)"
    using put_call [OF doc'(1) c2] by (cases r2) (auto simp: attempted_def split: if_splits)
  show ?thesis
    using plain_get [OF doc c1] t p ok c1 c2
    by (cases r1; cases r2)
       (auto simp: answers_def dy_putCircuit_def writeCircuit_def aws_exec aws_abs table_view_circuit Let_def)
qed

lemma aws_read_answers:
  assumes doc: "delivery_documented P env tbl sq posts" and ok: "aws_ok tbl w"
  shows "aws_answers P tbl sq posts (dy_getEndpoint P env t i) w (\<lambda>_ v. v = aws_vw tbl posts w)"
    and "aws_answers P tbl sq posts (dy_getRateBucket P env t i) w (\<lambda>_ v. v = aws_vw tbl posts w)"
proof -
  obtain r1 h1 where c1: "ap_get P (en_tableName env) (tenantPk t, endpointSk i) False (aw_host w) = (r1, h1)" by fastforce
  obtain r2 h2 where c2: "ap_get P (en_tableName env) (tenantPk t, rateSk i) False (aw_host w) = (r2, h2)" by fastforce
  show "aws_answers P tbl sq posts (dy_getEndpoint P env t i) w (\<lambda>_ v. v = aws_vw tbl posts w)"
    using plain_get [OF doc c1] ok c1 by (cases r1) (auto simp: answers_def dy_getEndpoint_def aws_exec aws_abs)
  show "aws_answers P tbl sq posts (dy_getRateBucket P env t i) w (\<lambda>_ v. v = aws_vw tbl posts w)"
    using plain_get [OF doc c2] ok c2 by (cases r2) (auto simp: answers_def dy_getRateBucket_def aws_exec aws_abs)
qed

lemma aws_clock_answers:
  assumes doc: "delivery_documented P env tbl sq posts" and ok: "aws_ok tbl w"
  shows "aws_answers P tbl sq posts (aws_call (ap_date_now P)) w (\<lambda>_ v. v = aws_vw tbl posts w)"
proof -
  obtain t h where "ap_date_now P (aw_host w) = (Inr t, h)" "sq h = sq (aw_host w)" "posts h = posts (aw_host w)" "tbl h = tbl (aw_host w)"
    using plain_now [OF doc] by blast
  with ok show ?thesis by (simp add: answers_def aws_exec aws_abs)
qed

lemma aws_random_answers:
  assumes doc: "delivery_documented P env tbl sq posts" and ok: "aws_ok tbl w"
  shows "aws_answers P tbl sq posts (aws_call (ap_math_random P)) w (\<lambda>r v. 0 \<le> r \<and> r < 1 \<and> v = aws_vw tbl posts w)"
proof -
  have "let r = ap_math_random P (aw_host w) in tbl (snd r) = tbl (aw_host w) \<and> sq (snd r) = sq (aw_host w) \<and> (\<forall>x. fst r = Inr x \<longrightarrow> 0 \<le> x \<and> x < 1)"
    using doc unfolding delivery_documented_def outside_documented_def by blast
  moreover have "posts (snd (ap_math_random P (aw_host w))) = posts (aw_host w)"
    using doc by (simp add: delivery_documented_def requests_documented_def)
  ultimately show ?thesis using ok by (auto simp: answers_def aws_exec aws_abs Let_def split: sum.splits)
qed

lemma aws_http_answers:
  assumes doc: "delivery_documented P env tbl sq posts" and ok: "aws_ok tbl w"
    and allowed: "pr_allowed (defaultUrlPolicy_check url_parse default_url_options url)"
  shows "aws_answers P tbl sq posts (http_post (aws_http_client P (Some (default_policy_port url_parse))) url body hs tmo) w
    (\<lambda>_ v. v = push_post (url, body, hs) (aws_vw tbl posts w))"
proof -
  let ?r = "ap_fetch P url body hs tmo (aw_host w)"
  have law: "tbl (snd ?r) = tbl (aw_host w)" "sq (snd ?r) = sq (aw_host w)"
    "posts (snd ?r) = posts (aw_host w) @ [(url, body, hs)] \<or> (\<exists>e. fst ?r = Inl e) \<and> posts (snd ?r) = posts (aw_host w)"
    using doc unfolding delivery_documented_def outside_documented_def Let_def by blast+
  have run: "http_post (aws_http_client P (Some (default_policy_port url_parse))) url body hs tmo w
      = (map_sum id (fetch_answer 2048) (fst ?r), w\<lparr>aw_host := snd ?r\<rparr>)"
    using allowed by (cases "fst ?r") (simp_all add: aws_http_client_def createFetchHttpClient_def fetch_post_def default_policy_port_def aws_exec Let_def)
  have push: "table_view tb (ps @ [p]) = push_post p (table_view tb ps)" for tb ps p by (simp add: table_view_def push_post_def)
  show ?thesis
    using law ok unfolding answers_def run by (cases "fst ?r") (auto simp: aws_abs push)
qed

lemma entries_but_row:
  assumes "msg_tenant m = t" and "msg_messageId m = i"
  shows "entries_but m (waiting P (tb((tenantPk t, schedSk i) \<mapsto> x)) q) = entries_but m (waiting P tb q)"
  using assms by (auto simp: entries_but_def waiting_def)

lemma entries_but_body: "entries_but m (waiting P tb (q @ [(message_body P m, d)])) = entries_but m (waiting P tb q)"
  by (auto simp: entries_but_def waiting_def dest: message_body_ids)

lemma aws_schedule_law:
  assumes doc: "delivery_documented P env tbl sq posts" and ok: "aws_ok tbl w" and run: "dy_scheduleRetry P env m due w = (r, w')"
  shows "aws_ok tbl w' \<and> aws_vw tbl posts w' = aws_vw tbl posts w
    \<and> entries_but m (aws_sched P tbl sq w') = entries_but m (aws_sched P tbl sq w)
    \<and> (\<forall>x. r = Inr x \<longrightarrow> (m, due) \<in> aws_sched P tbl sq w')"
proof -
  obtain now h where now: "ap_date_now P (aw_host w) = (Inr now, h)" "sq h = sq (aw_host w)" "posts h = posts (aw_host w)" "tbl h = tbl (aw_host w)"
    using plain_now [OF doc] by blast
  obtain r1 h1 where c1: "ap_sqs_send P (en_queueUrl env) (message_body P m) (delay_seconds (due - now)) h = (r1, h1)" by fastforce
  obtain r2 h2 where c2: "ap_put P (en_tableName env) (tenantPk (msg_tenant m), schedSk (msg_messageId m)) (ItSched (sched_row_for m due)) Unconditional h = (r2, h2)"
    by fastforce
  have queued: "(m, due) \<in> waiting P tb (q @ [(message_body P m, d)])" for tb q d by (auto simp: waiting_def)
  have row: "(m, due) \<in> waiting P (tb((tenantPk (msg_tenant m), schedSk (msg_messageId m)) \<mapsto> ItSched (sched_row_for m due))) q" for tb q
    by (simp add: waiting_def sched_row_for_def Let_def)
  show ?thesis
  proof (cases "due - now \<le> SQS_MAX_DELAY_MS")
    case True
    with run now(1) c1 have "r = r1" "w' = w\<lparr>aw_host := h1\<rparr>" by (auto simp: dy_scheduleRetry_def aws_exec)
    with plain_send [OF doc c1] now(2-4) ok show ?thesis
      by (auto simp: aws_abs entries_but_body queued)
  next
    case False
    with run now(1) c2 have "r = r2" "w' = w\<lparr>aw_host := h2\<rparr>" by (auto simp: dy_scheduleRetry_def aws_exec)
    with plain_put [OF doc c2] now(2-4) ok show ?thesis
      by (auto simp: aws_abs entries_but_row table_view_sched row)
  qed
qed

lemma aws_engine_sel [simp]:
  "eng_state (aws_engine P fuel hmac penv url_parse sha config) = DynamoStateStore P fuel (resolveEnv penv config)"
  "eng_scheduler (aws_engine P fuel hmac penv url_parse sha config) = DynamoScheduler P (resolveEnv penv config)"
  "eng_transport (aws_engine P fuel hmac penv url_parse sha config) = SqsTransport P"
  "eng_clock (aws_engine P fuel hmac penv url_parse sha config) = aws_call (ap_date_now P)"
  "eng_rng (aws_engine P fuel hmac penv url_parse sha config) = aws_call (ap_math_random P)"
  "eng_telemetry (aws_engine P fuel hmac penv url_parse sha config) = noopTelemetry"
  "eng_retry (aws_engine P fuel hmac penv url_parse sha config) = \<lparr>scheduleMs = DEFAULT_SCHEDULE_MS\<rparr>"
  "eng_circuitCfg (aws_engine P fuel hmac penv url_parse sha config)
     = \<lparr>failureThreshold = DEFAULT_FAILURE_THRESHOLD, cooldownMs = DEFAULT_COOLDOWN_MS\<rparr>"
  "eng_sha256_hex (aws_engine P fuel hmac penv url_parse sha config) = sha"
  "eng_maxPayloadBytes (aws_engine P fuel hmac penv url_parse sha config) = AWS_MAX_PAYLOAD_BYTES"
  "dp_http (eng_deliverPorts (aws_engine P fuel hmac penv url_parse sha config)) = aws_http_client P (Some (default_policy_port url_parse))"
  "dp_signer (eng_deliverPorts (aws_engine P fuel hmac penv url_parse sha config)) = createSigner hmac"
  "dp_urlPolicy (eng_deliverPorts (aws_engine P fuel hmac penv url_parse sha config)) = default_policy_port url_parse"
  "dp_clock (eng_deliverPorts (aws_engine P fuel hmac penv url_parse sha config)) = aws_call (ap_date_now P)"
  by (simp_all add: aws_engine_def WebhookEngine_def aws_createAdapter_def aws_globals_def Let_def)

lemma default_policy_check:
  "policy_check (default_policy_port url_parse) url = return_io (defaultUrlPolicy_check url_parse default_url_options url)"
  by (simp add: default_policy_port_def)

lemma dynamo_sel [simp]:
  "ss_getEndpoint (DynamoStateStore P fuel env) = dy_getEndpoint P env" "ss_putMessage (DynamoStateStore P fuel env) = dy_putMessage P env"
  "ss_appendAttempt (DynamoStateStore P fuel env) = dy_appendAttempt P env" "ss_getCircuit (DynamoStateStore P fuel env) = dy_getCircuit P env"
  "ss_putCircuit (DynamoStateStore P fuel env) = dy_putCircuit P env" "ss_getRateBucket (DynamoStateStore P fuel env) = dy_getRateBucket P env"
  "ss_putRateBucket (DynamoStateStore P fuel env) = dy_putRateBucket P env" "ss_addToDlq (DynamoStateStore P fuel env) = dy_addToDlq P env"
  "ss_recordEvent (DynamoStateStore P fuel env) = dy_recordEvent P env"
  "sch_scheduleRetry (DynamoScheduler P env) = dy_scheduleRetry P env"
  by (simp_all add: DynamoStateStore_def DynamoScheduler_def)

text \<open>The engine of \<open>deliverHandler\<close> keeps the contract of a delivery, with every call free to fail.\<close>

lemma aws_delivery_ports:
  assumes doc: "delivery_documented P (resolveEnv penv config) tbl sq posts"
  shows "delivery_ports (aws_engine P fuel hmac penv url_parse sha config) (defaultUrlPolicy_check url_parse default_url_options)
    (aws_vw tbl posts) (aws_sched P tbl sq) (aws_ok tbl) any_error (\<lambda>_ _ _ _. True) (\<lambda>_ _ _ _. True)"
proof
  fix w :: "'a aws_world" assume ok: "aws_ok tbl w"
  fix m due
  obtain r w' where run: "dy_scheduleRetry P (resolveEnv penv config) m due w = (r, w')" by fastforce
  note law = aws_schedule_law [OF doc ok run]
  show "aws_ok tbl (snd (sch_scheduleRetry (eng_scheduler (aws_engine P fuel hmac penv url_parse sha config)) m due w))"
    "aws_vw tbl posts (snd (sch_scheduleRetry (eng_scheduler (aws_engine P fuel hmac penv url_parse sha config)) m due w)) = aws_vw tbl posts w"
    "entries_but m (aws_sched P tbl sq (snd (sch_scheduleRetry (eng_scheduler (aws_engine P fuel hmac penv url_parse sha config)) m due w)))
      = entries_but m (aws_sched P tbl sq w)"
    "case fst (sch_scheduleRetry (eng_scheduler (aws_engine P fuel hmac penv url_parse sha config)) m due w) of Inl e \<Rightarrow> True
      | Inr x \<Rightarrow> (m, due) \<in> aws_sched P tbl sq (snd (sch_scheduleRetry (eng_scheduler (aws_engine P fuel hmac penv url_parse sha config)) m due w))"
    using law run by (auto split: sum.splits)
qed (simp_all add: aws_clock_answers [OF doc] aws_random_answers [OF doc] aws_http_answers [OF doc] aws_read_answers [OF doc]
       aws_putMessage_answers [OF doc] aws_appendAttempt_answers [OF doc] aws_getCircuit_answers [OF doc] aws_putCircuit_answers [OF doc]
       aws_putRateBucket_answers [OF doc] aws_addToDlq_answers [OF doc] answers_def [of _ _ _ _ "return_io _"]
       default_policy_check noopTelemetry_def DEFAULT_COOLDOWN_MS_def DEFAULT_SCHEDULE_MS_def)

end
