(* ===== verification/Aws_Send.thy ===== *)
theory Aws_Send
  imports Aws_Delivery
begin

text \<open>
  Acceptance on AWS, where every call may fail: the contract of \<open>sending_ports\<close> for the engine that
  \<open>ingestHandler\<close> builds. The view of \<open>Aws_Delivery\<close> is extended by the messages handed to the producer. The
  query of the endpoints is eventually consistent: what it shows is taken as it is.
\<close>

section \<open>The services an acceptance uses\<close>

text \<open>The producer publishes a message or fails, with the message published or not; connecting publishes nothing.\<close>

definition publish_documented ::
  "'h aws_platform \<Rightarrow> 'h table_view \<Rightarrow> 'h queue_view \<Rightarrow> 'h post_view \<Rightarrow> ('h \<Rightarrow> message list) \<Rightarrow> bool" where
  "publish_documented P tbl sq posts pub \<longleftrightarrow>
     (\<forall>h. let h' = snd (ap_producer_connect P h) in tbl h' = tbl h \<and> sq h' = sq h \<and> posts h' = posts h \<and> pub h' = pub h)
   \<and> (\<forall>h m. let r = ap_producer_publish P m h in
        tbl (snd r) = tbl h \<and> sq (snd r) = sq h \<and> posts (snd r) = posts h
        \<and> (pub (snd r) = pub h @ [m] \<or> (\<exists>e. fst r = Inl e) \<and> pub (snd r) = pub h))"

definition queries_documented ::
  "'h aws_platform \<Rightarrow> aws_env \<Rightarrow> 'h table_view \<Rightarrow> 'h queue_view \<Rightarrow> 'h post_view \<Rightarrow> ('h \<Rightarrow> message list) \<Rightarrow> bool" where
  "queries_documented P env tbl sq posts pub \<longleftrightarrow>
     (\<forall>h pk pre k. let h' = snd (ap_query P (en_tableName env) pk pre k h) in
        tbl h' = tbl h \<and> sq h' = sq h \<and> posts h' = posts h \<and> pub h' = pub h)"

definition send_documented ::
  "'h aws_platform \<Rightarrow> aws_env \<Rightarrow> 'h table_view \<Rightarrow> 'h queue_view \<Rightarrow> 'h post_view \<Rightarrow> ('h \<Rightarrow> message list) \<Rightarrow> bool" where
  "send_documented P env tbl sq posts pub \<longleftrightarrow>
     delivery_documented P env tbl sq posts \<and> requests_documented P env pub
     \<and> publish_documented P tbl sq posts pub \<and> queries_documented P env tbl sq posts pub"

section \<open>The view with the published messages\<close>

definition aws_send_vw :: "'h table_view \<Rightarrow> 'h post_view \<Rightarrow> ('h \<Rightarrow> message list) \<Rightarrow> 'h aws_world \<Rightarrow> view" where
  "aws_send_vw tbl posts pub w = (aws_vw tbl posts w)\<lparr>v_queue := pub (aw_host w)\<rparr>"

abbreviation send_answers where
  "send_answers P tbl sq posts pub \<equiv> answers any_error (aws_ok tbl) (aws_send_vw tbl posts pub) (aws_sched P tbl sq)"

lemma keeps_catch: "keeps I m \<Longrightarrow> (\<And>e. keeps I (f e)) \<Longrightarrow> keeps I (catch_io m f)"
  by (auto simp: keeps_def catch_io_def split: sum.splits)

lemma keeps_throw: "keeps I (throw_io e)"
  by (simp add: keeps_def)

text \<open>The commands publish nothing.\<close>

lemma keeps_published:
  assumes "requests_documented P env pub"
  shows "keeps (\<lambda>w. pub (aw_host w) = p) (aws_call (ap_put P (en_tableName env) k x c))"
    and "keeps (\<lambda>w. pub (aw_host w) = p) (aws_call (ap_get P (en_tableName env) k b))"
    and "keeps (\<lambda>w. pub (aw_host w) = p) (aws_call (ap_date_now P))"
    and "keeps (\<lambda>w. pub (aw_host w) = p) (aws_call (ap_math_random P))"
  using assms unfolding keeps_def aws_call_def requests_documented_def by (cases k; simp)+

text \<open>A call that publishes nothing answers in the extended view as it does in the view of a delivery.\<close>

lemma answers_extended:
  assumes "aws_answers P tbl sq posts m w (\<lambda>x v. A x \<and> v = f (aws_vw tbl posts w))"
    and "\<And>p. keeps (\<lambda>w. pub (aw_host w) = p) m" and "\<And>v q. f (v\<lparr>v_queue := q\<rparr>) = (f v)\<lparr>v_queue := q\<rparr>"
  shows "send_answers P tbl sq posts pub m w (\<lambda>x v. A x \<and> v = f (aws_send_vw tbl posts pub w))"
proof -
  have "pub (aw_host (snd (m w))) = pub (aw_host w)" using assms(2) [of "pub (aw_host w)"] by (simp add: keeps_def)
  then show ?thesis
    using assms(1) by (auto simp: answers_def aws_send_vw_def assms(3) split: sum.splits)
qed

lemmas answers_plain = answers_extended [where A = "\<lambda>_. True", simplified simp_thms]

section \<open>The calls of an acceptance\<close>

lemma event_row:
  assumes "aws_ok tbl w"
  shows "tbl (aw_host w) (tenantPk t, idemSk k) = Some x \<Longrightarrow> \<exists>e n. x = ItEvent e n"
  using assms unfolding aws_ok_def table_ok_def by blast

lemma recordEvent_new_answers:
  assumes doc: "delivery_documented P env tbl sq posts" and ok: "aws_ok tbl w" and new: "v_events (aws_vw tbl posts w) t k = None"
  shows "aws_answers P tbl sq posts (dy_recordEvent P env t eid k) w
    (\<lambda>x v. x = \<lparr>rr_isNew = True, rr_eventId = eid, rr_messageCount = 0\<rparr> \<and> v = put_event t k (eid, 0) (aws_vw tbl posts w))"
proof -
  let ?k = "(tenantPk t, idemSk k)"
  have doc': "aws_documented P env tbl sq" "requests_documented P env posts" using doc by (simp_all add: delivery_documented_def)
  obtain r h where c: "ap_put P (en_tableName env) ?k (ItEvent eid 0) NotExists (aw_host w) = (r, h)" by fastforce
  have none: "tbl (aw_host w) ?k = None"
    using new event_row [OF ok, of t k] by (cases "tbl (aw_host w) ?k") (auto simp: aws_vw_def table_view_def)
  have p: "posts h = posts (aw_host w)" using doc'(2) c unfolding requests_documented_def by (metis snd_conv)
  show ?thesis
    using put_call [OF doc'(1) c] c p none ok
    by (cases r)
       (auto simp: answers_def dy_recordEvent_def Let_def aws_exec aws_abs table_view_event attempted_def condition_holds_def split: if_splits)
qed

lemma recordEvent_dup_answers:
  assumes doc: "delivery_documented P env tbl sq posts" and ok: "aws_ok tbl w" and dup: "v_events (aws_vw tbl posts w) t k = Some (eid', n)"
  shows "aws_answers P tbl sq posts (dy_recordEvent P env t eid k) w
    (\<lambda>x v. x = \<lparr>rr_isNew = False, rr_eventId = eid', rr_messageCount = n\<rparr> \<and> v = aws_vw tbl posts w)"
proof -
  let ?k = "(tenantPk t, idemSk k)"
  have doc': "aws_documented P env tbl sq" "requests_documented P env posts" using doc by (simp_all add: delivery_documented_def)
  obtain r1 h1 where c1: "ap_put P (en_tableName env) ?k (ItEvent eid 0) NotExists (aw_host w) = (r1, h1)" by fastforce
  obtain r2 h2 where c2: "ap_get P (en_tableName env) ?k True h1 = (r2, h2)" by fastforce
  have some: "tbl (aw_host w) ?k = Some (ItEvent eid' n)"
    using dup event_row [OF ok, of t k] by (cases "tbl (aw_host w) ?k") (auto simp: aws_vw_def table_view_def)
  have p: "posts h1 = posts (aw_host w)" using doc'(2) c1 unfolding requests_documented_def by (metis snd_conv)
  show ?thesis
    using put_call [OF doc'(1) c1] plain_get [OF doc c2] c1 c2 p some ok
    by (cases r1; cases r2)
       (auto simp: answers_def dy_recordEvent_def Let_def aws_exec aws_abs attempted_def condition_holds_def split: if_splits)
qed

lemma finalizeEvent_answers:
  assumes doc: "delivery_documented P env tbl sq posts" and ok: "aws_ok tbl w"
  shows "aws_answers P tbl sq posts (dy_finalizeEvent P env t k eid n) w (\<lambda>_ v. v = put_event t k (eid, n) (aws_vw tbl posts w))"
proof -
  obtain r h where c: "ap_put P (en_tableName env) (tenantPk t, idemSk k) (ItEvent eid n) Unconditional (aw_host w) = (r, h)" by fastforce
  show ?thesis
    using plain_put [OF doc c] ok c by (cases r) (auto simp: answers_def dy_finalizeEvent_def aws_exec aws_abs table_view_event)
qed

text \<open>A query changes nothing, however many pages it reads and wherever it fails.\<close>

lemma keeps_matchEndpoints:
  assumes "queries_documented P env tbl sq posts pub"
  shows "keeps (\<lambda>w. tbl (aw_host w) = t0 \<and> sq (aw_host w) = q0 \<and> posts (aw_host w) = ps \<and> pub (aw_host w) = p0) (dy_matchEndpoints P fuel env t ty)"
    (is "keeps ?I _")
proof -
  have query: "keeps ?I (aws_call (ap_query P (en_tableName env) pk pre k))" for pk pre k
    using assms by (simp add: keeps_def aws_call_def queries_documented_def Let_def)
  have "keeps ?I (queryAll_from P env pk pre fuel k items)" for pk pre k items
  proof (induction fuel arbitrary: k items)
    case (Suc fuel)
    show ?case unfolding queryAll_from.simps by (intro keeps_intro query Suc)
  qed (unfold queryAll_from.simps, rule keeps_throw)
  then show ?thesis
    unfolding dy_matchEndpoints_def dy_listEndpoints_def queryAll_def by (intro keeps_intro)
qed

definition endpoints_shown ::
  "'h aws_platform \<Rightarrow> nat \<Rightarrow> aws_env \<Rightarrow> 'h table_view \<Rightarrow> 'h post_view \<Rightarrow> ('h \<Rightarrow> message list) \<Rightarrow> view \<Rightarrow> string \<Rightarrow> string \<Rightarrow> endpoint list \<Rightarrow> bool" where
  "endpoints_shown P fuel env tbl posts pub v t ty es \<longleftrightarrow>
     (\<exists>w. aws_ok tbl w \<and> aws_send_vw tbl posts pub w = v \<and> fst (dy_matchEndpoints P fuel env t ty w) = Inr es)"

lemma matchEndpoints_answers:
  assumes "queries_documented P env tbl sq posts pub" and ok: "aws_ok tbl w"
  shows "send_answers P tbl sq posts pub (dy_matchEndpoints P fuel env t ty) w
    (\<lambda>es v. endpoints_shown P fuel env tbl posts pub (aws_send_vw tbl posts pub w) t ty es \<and> v = aws_send_vw tbl posts pub w)"
  using keeps_matchEndpoints [OF assms(1), of "tbl (aw_host w)" "sq (aw_host w)" "posts (aw_host w)" "pub (aw_host w)" fuel t ty] ok
  by (auto simp: answers_def keeps_def aws_abs aws_send_vw_def endpoints_shown_def split: sum.splits)

lemma sqs_send_answers:
  assumes "publish_documented P tbl sq posts pub" and ok: "aws_ok tbl w"
  shows "send_answers P tbl sq posts pub (sqs_send P m) w (\<lambda>_ v. v = push_queue m (aws_send_vw tbl posts pub w))"
proof -
  have publish: "send_answers P tbl sq posts pub (aws_call (ap_producer_publish P m)) w1 (\<lambda>_ v. v = push_queue m (aws_send_vw tbl posts pub w))"
    if "tbl (aw_host w1) = tbl (aw_host w)" "sq (aw_host w1) = sq (aw_host w)" "posts (aw_host w1) = posts (aw_host w)"
      "pub (aw_host w1) = pub (aw_host w)" for w1
  proof -
    let ?r = "ap_producer_publish P m (aw_host w1)"
    have "tbl (snd ?r) = tbl (aw_host w1)" "sq (snd ?r) = sq (aw_host w1)" "posts (snd ?r) = posts (aw_host w1)"
      "pub (snd ?r) = pub (aw_host w1) @ [m] \<or> (\<exists>e. fst ?r = Inl e) \<and> pub (snd ?r) = pub (aw_host w1)"
      using assms(1) unfolding publish_documented_def Let_def by blast+
    then show ?thesis
      using ok that by (cases "fst ?r") (auto simp: answers_def aws_call_def aws_abs aws_send_vw_def push_queue_def)
  qed
  let ?c = "snd (ap_producer_connect P (aw_host w))"
  have conn: "tbl ?c = tbl (aw_host w)" "sq ?c = sq (aw_host w)" "posts ?c = posts (aw_host w)" "pub ?c = pub (aw_host w)"
    using assms(1) unfolding publish_documented_def Let_def by blast+
  show ?thesis
  proof (cases "aw_connected w")
    case True
    then have "sqs_send P m w = aws_call (ap_producer_publish P m) w" by (simp add: sqs_send_def seq_io_def bind_io_def ensureConnected_def)
    then show ?thesis using publish [of w] by (simp add: answers_def split: sum.splits)
  next
    case False
    let ?w = "w\<lparr>aw_host := ?c, aw_connected := True\<rparr>"
    have same: "aws_send_vw tbl posts pub ?w = aws_send_vw tbl posts pub w" "aws_sched P tbl sq ?w = aws_sched P tbl sq w"
      by (simp_all add: aws_abs aws_send_vw_def conn)
    show ?thesis
    proof (cases "fst (ap_producer_connect P (aw_host w))")
      case (Inl e)
      then have "sqs_send P m w = (Inl e, w\<lparr>aw_host := ?c\<rparr>)"
        using False by (simp add: sqs_send_def seq_io_def bind_io_def ensureConnected_def aws_call_def)
      then show ?thesis using ok by (simp add: answers_def aws_abs aws_send_vw_def conn)
    next
      case (Inr u)
      then have "sqs_send P m w = aws_call (ap_producer_publish P m) ?w"
        using False by (simp add: sqs_send_def seq_io_def bind_io_def ensureConnected_def aws_call_def)
      then show ?thesis using publish [of ?w] conn by (simp add: answers_def same split: sum.splits)
    qed
  qed
qed

section \<open>The contract of the ports\<close>

lemma dynamo_send_sel [simp]:
  "ss_finalizeEvent (DynamoStateStore P fuel env) = dy_finalizeEvent P env"
  "ss_matchEndpoints (DynamoStateStore P fuel env) = dy_matchEndpoints P fuel env" "tr_send (SqsTransport P) = sqs_send P"
  by (simp_all add: DynamoStateStore_def SqsTransport_def)

text \<open>The engine of \<open>ingestHandler\<close> keeps the contract of an acceptance, with every call free to fail.\<close>

lemma aws_sending_ports:
  assumes "send_documented P (resolveEnv penv config) tbl sq posts pub"
  shows "sending_ports (aws_engine P fuel hmac penv url_parse sha config) (aws_send_vw tbl posts pub) (aws_sched P tbl sq) (aws_ok tbl) any_error
    (endpoints_shown P fuel (resolveEnv penv config) tbl posts pub)"
proof -
  let ?env = "resolveEnv penv config"
  have doc: "delivery_documented P ?env tbl sq posts" and pub: "requests_documented P ?env pub"
    and rest: "publish_documented P tbl sq posts pub" "queries_documented P ?env tbl sq posts pub"
    using assms by (simp_all add: send_documented_def)
  note publishes_nothing = keeps_intro keeps_catch keeps_throw keeps_published [OF pub]
  have recorded: "keeps (\<lambda>w. pub (aw_host w) = p) (dy_recordEvent P ?env t eid k)" for p t eid k
    unfolding dy_recordEvent_def by (intro publishes_nothing)
  have msg: "keeps (\<lambda>w. pub (aw_host w) = p) (dy_putMessage P ?env m)" for p m
    unfolding dy_putMessage_def by (intro publishes_nothing)
  have fin: "keeps (\<lambda>w. pub (aw_host w) = p) (dy_finalizeEvent P ?env t k eid n)" for p t k eid n
    unfolding dy_finalizeEvent_def by (intro publishes_nothing)
  have events: "v_events (aws_send_vw tbl posts pub w) = v_events (aws_vw tbl posts w)" for w by (simp add: aws_send_vw_def)
  show ?thesis
  proof (unfold_locales, unfold aws_engine_sel dynamo_sel dynamo_send_sel)
    fix w assume ok: "aws_ok tbl w"
    show "send_answers P tbl sq posts pub (aws_call (ap_date_now P)) w (\<lambda>_ v. v = aws_send_vw tbl posts pub w)"
      by (rule answers_plain [where f = "\<lambda>v. v", OF aws_clock_answers [OF doc ok] keeps_published(3) [OF pub]]) simp
    show "send_answers P tbl sq posts pub (aws_call (ap_math_random P)) w (\<lambda>r v. 0 \<le> r \<and> r < 1 \<and> v = aws_send_vw tbl posts pub w)"
      using answers_extended [where A = "\<lambda>r. 0 \<le> r \<and> r < 1" and f = "\<lambda>v. v", OF _ keeps_published(4) [OF pub]]
        aws_random_answers [OF doc ok] by simp
    show "send_answers P tbl sq posts pub (dy_putMessage P ?env m) w (\<lambda>_ v. v = put_msg m (aws_send_vw tbl posts pub w))" for m
      by (rule answers_plain [where f = "put_msg m", OF aws_putMessage_answers [OF doc ok] msg]) (simp add: put_msg_def)
    show "send_answers P tbl sq posts pub (sqs_send P m) w (\<lambda>_ v. v = push_queue m (aws_send_vw tbl posts pub w))" for m
      by (rule sqs_send_answers [OF rest(1) ok])
    show "send_answers P tbl sq posts pub (dy_recordEvent P ?env t eid k) w
        (\<lambda>x v. x = \<lparr>rr_isNew = True, rr_eventId = eid, rr_messageCount = 0\<rparr> \<and> v = put_event t k (eid, 0) (aws_send_vw tbl posts pub w))"
      if "v_events (aws_send_vw tbl posts pub w) t k = None" for t k eid
      by (rule answers_extended [where f = "put_event t k (eid, 0)", OF recordEvent_new_answers [OF doc ok that [unfolded events]] recorded])
         (simp add: put_event_def)
    show "send_answers P tbl sq posts pub (dy_recordEvent P ?env t eid k) w
        (\<lambda>x v. x = \<lparr>rr_isNew = False, rr_eventId = eid', rr_messageCount = n\<rparr> \<and> v = aws_send_vw tbl posts pub w)"
      if "v_events (aws_send_vw tbl posts pub w) t k = Some (eid', n)" for t k eid eid' n
      by (rule answers_extended [where f = "\<lambda>v. v", OF recordEvent_dup_answers [OF doc ok that [unfolded events]] recorded]) simp
    show "send_answers P tbl sq posts pub (dy_finalizeEvent P ?env t k eid n) w (\<lambda>_ v. v = put_event t k (eid, n) (aws_send_vw tbl posts pub w))"
      for t k eid n
      by (rule answers_plain [where f = "put_event t k (eid, n)", OF finalizeEvent_answers [OF doc ok] fin]) (simp add: put_event_def)
    show "send_answers P tbl sq posts pub (dy_matchEndpoints P fuel ?env t ty) w
        (\<lambda>es v. endpoints_shown P fuel ?env tbl posts pub (aws_send_vw tbl posts pub w) t ty es \<and> v = aws_send_vw tbl posts pub w)" for t ty
      by (rule matchEndpoints_answers [OF rest(2) ok])
  qed
qed

end
