(* ===== verification/Aws_Properties.thy ===== *)
theory Aws_Properties
  imports Aws_Send
begin

text \<open>
  What the AWS adapter guarantees, whatever the services answer: deliveries, batches and acceptances do what
  is specified and lose nothing, the sweepers lose no retry and release
  none twice under one lease, retries are split at 900 seconds without being early or out of range,
  events are recorded once, concurrent circuit writes are detected, and a failing record of a batch is
  reported alone.
\<close>

section \<open>Example services\<close>

text \<open>A table as an association list, a queue, a clock, the requests made, the messages published; every call succeeds.\<close>

type_synonym example_services =
  "(ddb_key \<times> aws_item) list \<times> (string \<times> nat) list \<times> millis \<times> (string \<times> string \<times> (string \<times> string) list) list \<times> message list"

definition late_retry :: message where
  "late_retry =
     \<lparr>msg_messageId = ''msg_1'', msg_tenant = ''acme'', msg_endpointId = ''ep_1'', msg_eventId = ''evt_1'',
      msg_eventType = ''order.paid'', msg_payload = Some (JNum ''1''), msg_attemptNo = 4, msg_status = Retrying,
      msg_nextAttemptAt = Some 3600000, msg_createdAt = 0\<rparr>"

definition example_put :: "string \<Rightarrow> ddb_key \<Rightarrow> aws_item \<Rightarrow> put_condition \<Rightarrow> (example_services, unit) io" where
  "example_put T k x c h =
     (if condition_holds c (map_of (fst h) k) then (Inr (), (AList.update k x (fst h), snd h))
      else (Inl (ServiceError ''ConditionalCheckFailedException''), h))"

definition example_claim :: "string \<Rightarrow> ddb_key \<Rightarrow> int \<Rightarrow> int \<Rightarrow> (example_services, unit) io" where
  "example_claim T k now fl h =
     (case map_of (fst h) k of
        None \<Rightarrow> (Inl (ServiceError ''ConditionalCheckFailedException''), h)
      | Some x \<Rightarrow> if claimable fl (item_sched x) then (Inr (), (AList.update k (stamp now x) (fst h), snd h))
          else (Inl (ServiceError ''ConditionalCheckFailedException''), h))"

definition example_due :: "string \<Rightarrow> string \<Rightarrow> string \<Rightarrow> int \<Rightarrow> ddb_key option \<Rightarrow> (example_services, ddb_page) io" where
  "example_due T ix pk now k h =
     (Inr (filter (\<lambda>(k, x). case item_sched x of None \<Rightarrow> False | Some row \<Rightarrow> sr_gsi1sk row \<le> now) (fst h), None), h)"

definition example_add :: "string \<Rightarrow> ddb_key \<Rightarrow> (example_services, nat) io" where
  "example_add T k h =
     (let n = Suc (seq_at (map_of (fst h)) k) in (Inr n, (AList.update k (ItSeq n) (fst h), snd h)))"

definition example_request :: "string \<Rightarrow> string \<Rightarrow> (string \<times> string) list \<Rightarrow> millis \<Rightarrow> (example_services, fetch_result) io" where
  "example_request url body hs tmo h =
     (Inr (FetchError ''x''), (fst h, fst (snd h), fst (snd (snd h)), fst (snd (snd (snd h))) @ [(url, body, hs)], snd (snd (snd (snd h)))))"

definition example_publish :: "message \<Rightarrow> (example_services, unit) io" where
  "example_publish m h = (Inr (), (fst h, fst (snd h), fst (snd (snd h)), fst (snd (snd (snd h))), snd (snd (snd (snd h))) @ [m]))"

definition example_query :: "string \<Rightarrow> string \<Rightarrow> string \<Rightarrow> ddb_key option \<Rightarrow> (example_services, ddb_page) io" where
  "example_query T pk pre k h = (Inr (filter (\<lambda>(k, x). fst k = pk \<and> starts_with (snd k) pre) (fst h), None), h)"

definition example_aws :: "example_services aws_platform" where
  "example_aws =
     \<lparr>ap_date_now = (\<lambda>h. (Inr (fst (snd (snd h))), h)), ap_math_random = return_io 0, ap_randomUUID = return_io ''uuid'',
      ap_randomBytes = return_io [1, 2, 3], ap_put = example_put, ap_get = (\<lambda>T k c h. (Inr (map_of (fst h) k), h)),
      ap_delete = (\<lambda>T k h. (Inr (), (AList.delete k (fst h), snd h))), ap_addSeq = example_add,
      ap_claim = example_claim, ap_query = example_query, ap_queryDue = example_due,
      ap_sqs_send = (\<lambda>Q b d h. (Inr (), (fst h, fst (snd h) @ [(b, d)], snd (snd h)))), ap_producer_connect = return_io (),
      ap_producer_publish = example_publish, ap_fetch = example_request,
      ap_frac_str = (\<lambda>_. []), ap_message_parse = (\<lambda>b. if b = ''late'' then Inr late_retry else Inl (SyntaxError b))\<rparr>"

definition example_table :: "example_services \<Rightarrow> ddb_key \<Rightarrow> aws_item option" where
  "example_table h = map_of (fst h)"

definition example_queue :: "example_services \<Rightarrow> (string \<times> nat) list" where
  "example_queue h = fst (snd h)"

lemma example_documented: "aws_documented example_aws env example_table example_queue"
proof -
  have "writes_documented example_aws T example_table example_queue" for T
    unfolding writes_documented_def example_table_def example_queue_def
    by (auto simp: example_aws_def attempted_def example_put_def example_claim_def fun_eq_iff claimable_def split: option.splits if_splits)
  moreover have "reads_documented example_aws T example_table example_queue" "queue_documented example_aws Q example_table example_queue" for T Q
    unfolding reads_documented_def queue_documented_def example_table_def example_queue_def by (auto simp: example_aws_def attempted_def)
  ultimately show ?thesis by (simp add: aws_documented_def)
qed

definition example_past :: "example_services \<Rightarrow> (ddb_key \<times> aws_item) set" where
  "example_past h = set (fst h)"

lemma update_subset: "p \<in> set (AList.update k x xs) \<Longrightarrow> p = (k, x) \<or> p \<in> set xs"
  by (induction xs) (auto split: if_splits)

lemma delete_subset: "p \<in> set (AList.delete k xs) \<Longrightarrow> p \<in> set xs"
  by (simp add: AList.delete_eq)

lemma example_index_documented: "index_documented example_aws env example_table example_queue example_past"
proof -
  note sel = example_table_def example_past_def grown_def
  have put: "grown example_table example_past h (snd (example_put T k x c h))" for T k x c h
    by (auto simp: sel example_put_def dest: update_subset)
  have claim: "grown example_table example_past h (snd (example_claim T k now fl h))" for T k now fl h
    by (auto simp: sel example_claim_def split: option.splits dest: update_subset)
  show ?thesis
    unfolding index_documented_def Let_def using put claim
    by (auto simp: sel example_queue_def example_aws_def example_due_def dest: map_of_SomeD delete_subset)
qed

definition example_posts :: "example_services \<Rightarrow> (string \<times> string \<times> (string \<times> string) list) list" where
  "example_posts h = fst (snd (snd (snd h)))"

definition example_published :: "example_services \<Rightarrow> message list" where
  "example_published h = snd (snd (snd (snd h)))"

lemma example_delivery_documented: "delivery_documented example_aws env example_table example_queue example_posts"
proof -
  have "counters_documented example_aws T example_table example_queue" for T
    unfolding counters_documented_def example_table_def example_queue_def
    by (simp add: example_aws_def example_add_def Let_def fun_eq_iff)
  moreover have "outside_documented example_aws example_table example_queue example_posts"
    unfolding outside_documented_def example_table_def example_queue_def example_posts_def
    by (simp add: example_aws_def example_request_def Let_def)
  moreover have "requests_documented example_aws env example_posts"
    unfolding requests_documented_def example_posts_def
    by (simp add: example_aws_def example_put_def example_add_def Let_def)
  ultimately show ?thesis using example_documented by (simp add: delivery_documented_def)
qed

lemma example_send_documented: "send_documented example_aws env example_table example_queue example_posts example_published"
  using example_delivery_documented [of env]
  by (auto simp: send_documented_def requests_documented_def publish_documented_def queries_documented_def Let_def
      example_aws_def example_put_def example_add_def example_publish_def example_query_def
      example_table_def example_queue_def example_posts_def example_published_def)

definition example_config :: aws_config where
  "example_config = \<lparr>cg_tableName = ''t'', cg_queueUrl = ''q'', cg_dueAtIndexName = None, cg_region = None, cg_endpoint = None\<rparr>"

definition example_env :: aws_env where
  "example_env = resolveEnv (\<lambda>_. None) example_config"

definition example_aws_world :: "(ddb_key \<times> aws_item) list \<Rightarrow> millis \<Rightarrow> example_services aws_world" where
  "example_aws_world items now = \<lparr>aw_host = (items, [], now, [], []), aw_connected = False\<rparr>"

text \<open>A table that holds the retry, and its abstraction with every invocation idle.\<close>

definition retry_table :: "(ddb_key \<times> aws_item) list" where
  "retry_table = [(sched_key late_retry, ItSched (sched_row_for late_retry 3600000))]"

definition retry_state :: "int \<Rightarrow> sweep_state" where
  "retry_state now =
     \<lparr>sy_rows = [sched_key late_retry \<mapsto> sched_row_for late_retry 3600000], sy_sent = [], sy_procs = (\<lambda>_. idle now)\<rparr>"

lemma retry_sim: "sweep_sim example_aws example_table example_queue example_past [] (aw_host (example_aws_world retry_table now)) (retry_state n)"
  by (auto simp: sweep_sim_def retry_state_def example_aws_world_def example_table_def example_queue_def retry_table_def
      sched_rows_def sched_typed_def fun_eq_iff owned_def example_past_def own_key_def sched_row_for_def Let_def)

section \<open>The sweepers\<close>

text \<open>
  C28: \<open>runSweeper\<close> does what the interleaving model says: whatever the services answer, also when a call
  throws in the middle, a run that starts at \<open>now\<close> takes the shared table and queue through a sequence of
  steps of one invocation of that model, and ends idle. The index may show any item the table holds or
  once held; that the rows among them are under the keys of their messages is an invariant of the
  simulation.
\<close>

theorem aws_sweeper_refines:
  assumes "aws_documented P env tbl sq" and "index_documented P env tbl sq past"
    and "sweep_sim P tbl sq past sent0 (aw_host w) s" and "sy_procs s i = idle \<lfloor>now / 1000\<rfloor>"
  shows "\<exists>s'. (sweep_step {\<lfloor>now / 1000\<rfloor>} {})\<^sup>*\<^sup>* s s'
    \<and> sweep_sim P tbl sq past sent0 (aw_host (snd (runSweeper P fuel env now w))) s' \<and> sy_procs s' i = idle \<lfloor>now / 1000\<rfloor>"
  using sweep_pages_moves [OF assms(1,2) singletonI assms(3), where i = i] assms(4)
  by (simp add: runSweeper_def Let_def moves_def idle_def)

theorem aws_sweeper_refines_witness:
  "\<exists>s'. (sweep_step {3600} {})\<^sup>*\<^sup>* (retry_state 3600) s'
    \<and> sweep_sim example_aws example_table example_queue example_past [] (aw_host (snd (runSweeper example_aws 1 example_env 3600000 (example_aws_world retry_table 0)))) s'"
proof -
  have p: "sy_procs (retry_state 3600) 0 = idle \<lfloor>3600000 / 1000 :: rat\<rfloor>" by (simp add: retry_state_def)
  show ?thesis
    using aws_sweeper_refines [OF example_documented [of example_env] example_index_documented retry_sim [of 0 3600] p, of 1] by auto
qed

text \<open>
  C29: no scheduled retry is lost: however many sweepers run at the same time, whatever pages they see,
  wherever they stop, and whatever the scheduler writes meanwhile, a key that had a row has one, or a
  message of that key was handed to the queue.
\<close>

theorem aws_sweeps_lose_nothing:
  assumes "(sweep_step N K)\<^sup>*\<^sup>* s s'" and "all_idle s" and "sy_rows s k = Some row"
  shows "sy_rows s' k \<noteq> None \<or> (\<exists>m \<in> set (drop (length (sy_sent s)) (sy_sent s')). sched_key m = k)"
  using sweeps_keep [OF assms(1,2), of k] assms(3) by (auto simp: kept_def)

theorem aws_sweeps_lose_nothing_witness:
  "\<exists>s'. (sweep_step {3600} {})\<^sup>*\<^sup>* (retry_state 3600) s'
    \<and> (sy_rows s' (sched_key late_retry) \<noteq> None \<or> (\<exists>m \<in> set (sy_sent s'). sched_key m = sched_key late_retry))"
proof -
  have idle: "all_idle (retry_state 3600)" by (simp add: all_idle_def retry_state_def idle_def)
  have row: "sy_rows (retry_state 3600) (sched_key late_retry) = Some (sched_row_for late_retry 3600000)" by (simp add: retry_state_def)
  let ?s = "set_proc 0 \<lparr>sp_now = 3600, sp_todo = [(sched_key late_retry, sched_row_for late_retry 3600000)], sp_phase = Ready\<rparr> (retry_state 3600)"
  have "sweep_step {3600} {} (retry_state 3600) ?s"
    by (rule sweep_step.page) (simp_all add: retry_state_def idle_def own_key_def sched_row_for_def)
  then have run: "(sweep_step {3600} {})\<^sup>*\<^sup>* (retry_state 3600) ?s" by blast
  from aws_sweeps_lose_nothing [OF run idle row] run show ?thesis by (auto simp: retry_state_def)
qed

text \<open>
  C30: no retry is released twice under one lease: when all invocations run within \<open>SWEEPER_LEASE_SECONDS\<close> of
  each other, and a key is not scheduled anew in the meantime, at most one message of that key is handed
  to the queue, in every interleaving.
\<close>

theorem aws_sweeps_release_once:
  assumes "(sweep_step N K)\<^sup>*\<^sup>* s s'" and "all_idle s" and "sy_sent s = []"
    and "N \<subseteq> {T..T + SWEEPER_LEASE_SECONDS}" and "k \<notin> K"
  shows "length (filter (\<lambda>m. sched_key m = k) (sy_sent s')) \<le> 1"
  using sweeps_once [OF assms(1,2,4,5,3)] by (simp add: sent_of_def)

theorem aws_sweeps_release_once_witness:
  "\<exists>s'. (sweep_step {3600} {})\<^sup>*\<^sup>* (retry_state 3600) s' \<and> sy_sent s' = [late_retry] \<and> sy_rows s' (sched_key late_retry) = None
    \<and> length (filter (\<lambda>m. sched_key m = sched_key late_retry) (sy_sent s')) \<le> 1"
proof -
  let ?k = "sched_key late_retry" and ?row = "sched_row_for late_retry 3600000"
  let ?P = "\<lambda>todo. \<lparr>sp_now = 3600, sp_todo = todo, sp_phase = Ready\<rparr>"
  define a where "a = set_proc 0 (?P [(?k, ?row)]) (retry_state 3600)"
  define b where "b = set_proc 0 (?P []) (a\<lparr>sy_rows := (sy_rows a)(?k := None), sy_sent := sy_sent a @ [late_retry]\<rparr>)"
  have row: "sr_message ?row = late_retry" "\<not> lease_held x ?row" "claimable x (Some ?row)" for x
    by (simp_all add: lease_held_def claimable_def sched_row_for_def Let_def)
  have "sweep_step {3600} {} (retry_state 3600) a"
    unfolding a_def by (rule sweep_step.page) (simp_all add: retry_state_def idle_def own_key_def row)
  moreover have "(sweep_step {3600} {})\<^sup>*\<^sup>* a b"
    using sweep_handles [of a 0 "?P [(?k, ?row)]" "(?k, ?row)" "[]" ?row "{3600}" "{}"] unfolding b_def
    by (simp add: row) (simp add: a_def retry_state_def)
  ultimately have run: "(sweep_step {3600} {})\<^sup>*\<^sup>* (retry_state 3600) b" by simp
  have idle: "all_idle (retry_state 3600)" "sy_sent (retry_state 3600) = []" by (simp_all add: all_idle_def retry_state_def idle_def)
  have "{3600} \<subseteq> {3600..3600 + SWEEPER_LEASE_SECONDS}" by (simp add: SWEEPER_LEASE_SECONDS_def)
  from aws_sweeps_release_once [OF run idle this, of ?k] run show ?thesis
    by (intro exI [of _ b]) (simp add: b_def a_def retry_state_def)
qed

definition next_retry :: message where
  "next_retry = late_retry\<lparr>msg_attemptNo := 5, msg_nextAttemptAt := Some 7200000\<rparr>"

text \<open>
  C31: the claim does not look at what it claims: a sweeper that has read a page and is slow can claim the
  row of a later attempt of the same message, which has the same key. It sends the older message a second
  time and deletes the newer row, which is then never released.
\<close>

theorem aws_slow_sweeper_drops_newer_retry:
  "\<exists>s1 s2 row. (sweep_step {3600} {sched_key next_retry})\<^sup>*\<^sup>* (retry_state 3600) s1
     \<and> sy_rows s1 (sched_key next_retry) = Some row \<and> sr_message row = next_retry
     \<and> (sweep_step {3600} {})\<^sup>*\<^sup>* s1 s2
     \<and> sy_rows s2 (sched_key next_retry) = None \<and> sy_sent s2 = [late_retry, late_retry]"
proof -
  let ?k = "sched_key late_retry" and ?q = "sched_row_for next_retry 7200000" and ?K = "{sched_key next_retry}"
  let ?it = "(?k, sched_row_for late_retry 3600000)"
  let ?P = "\<lambda>todo. \<lparr>sp_now = 3600, sp_todo = todo, sp_phase = Ready\<rparr>"
  have key: "sched_key next_retry = ?k" by (simp add: next_retry_def)
  have free: "\<not> lease_held x (sched_row_for m t)" "claimable x (Some (sched_row_for m t))" "sr_message (sched_row_for m t) = m" for x m t
    by (simp_all add: lease_held_def claimable_def sched_row_for_def Let_def)
  have own: "list_all own_key [?it]" by (simp add: own_key_def free)
  define a where "a = set_proc 0 (?P [?it]) (retry_state 3600)"
  define b where "b = set_proc 1 (?P [?it]) a"
  define c where "c = set_proc 1 (?P []) (b\<lparr>sy_rows := (sy_rows b)(?k := None), sy_sent := sy_sent b @ [late_retry]\<rparr>)"
  define d where "d = c\<lparr>sy_rows := (sy_rows c)(?k \<mapsto> ?q)\<rparr>"
  define e where "e = set_proc 0 (?P []) (d\<lparr>sy_rows := (sy_rows d)(?k := None), sy_sent := sy_sent d @ [late_retry]\<rparr>)"
  have "sweep_step {3600} ?K (retry_state 3600) a"
    unfolding a_def by (rule sweep_step.page) (use own in \<open>simp_all add: retry_state_def idle_def\<close>)
  moreover have "sweep_step {3600} ?K a b"
    unfolding b_def by (rule sweep_step.page) (use own in \<open>simp_all add: a_def retry_state_def idle_def\<close>)
  moreover have "(sweep_step {3600} ?K)\<^sup>*\<^sup>* b c"
    using sweep_handles [of b 1 "?P [?it]" ?it "[]" "snd ?it" "{3600}" ?K] unfolding c_def
    by (simp add: free) (simp add: b_def a_def retry_state_def)
  moreover have "sweep_step {3600} ?K c d"
    using sweep_step.schedule [of next_retry ?K "{3600}" c 7200000] by (simp add: d_def key)
  ultimately have "(sweep_step {3600} ?K)\<^sup>*\<^sup>* (retry_state 3600) d"
    by (meson converse_rtranclp_into_rtranclp rtranclp.rtrancl_into_rtrancl)
  moreover have "(sweep_step {3600} {})\<^sup>*\<^sup>* d e"
    using sweep_handles [of d 0 "?P [?it]" ?it "[]" ?q "{3600}" "{}"] unfolding e_def
    by (simp add: free) (simp add: d_def c_def b_def a_def)
  moreover have "sy_rows d ?k = Some ?q" "sy_rows e ?k = None" "sy_sent e = [late_retry, late_retry]"
    by (simp_all add: e_def d_def c_def b_def a_def retry_state_def)
  ultimately show ?thesis unfolding key using free(3) by blast
qed

section \<open>The 900-second split\<close>

lemma delay_seconds_bounds:
  assumes "delayMs \<le> 900000"
  shows "delay_seconds delayMs \<le> 900" and "delayMs \<le> 1000 * rat_of_nat (delay_seconds delayMs)"
    and "0 < delay_seconds delayMs \<Longrightarrow> 1000 * rat_of_nat (delay_seconds delayMs) < delayMs + 1000"
proof -
  let ?c = "\<lceil>delayMs / 1000\<rceil>"
  have c: "delayMs / 1000 \<le> of_int ?c" "of_int ?c < delayMs / 1000 + 1" "?c \<le> 900"
    using assms ceiling_correct [of "delayMs / 1000"] by (auto simp: ceiling_le_iff)
  show "delay_seconds delayMs \<le> 900" by (simp add: delay_seconds_def)
  have d: "rat_of_nat (delay_seconds delayMs) = (if 0 \<le> ?c then of_int ?c else 0)"
    using c(3) by (simp add: delay_seconds_def)
  show "delayMs \<le> 1000 * rat_of_nat (delay_seconds delayMs)"
  proof (cases "0 \<le> ?c")
    case False
    then have "rat_of_int ?c < 0" by simp
    with c(1) have "delayMs / 1000 < 0" by linarith
    with False show ?thesis unfolding d by (simp add: field_simps)
  next
    case True
    have "delayMs \<le> 1000 * rat_of_int ?c" using c(1) by linarith
    with True show ?thesis unfolding d by simp
  qed
  show "1000 * rat_of_nat (delay_seconds delayMs) < delayMs + 1000" if "0 < delay_seconds delayMs"
  proof -
    have "0 < ?c" using that unfolding delay_seconds_def by linarith
    moreover have "1000 * rat_of_int ?c < delayMs + 1000" using c(2) by linarith
    ultimately show ?thesis unfolding d by simp
  qed
qed

text \<open>
  C32: a retry is put where it belongs: a retry due within 900 seconds goes to the queue once, with a delay
  that SQS accepts (0 to 900), which is never shorter than the time left and less than a second longer; a
  later one becomes one row of the table, unclaimed, whose \<open>due_at\<close> is the due time rounded down to the
  second, and nothing is queued.
\<close>

theorem aws_retry_split:
  assumes "aws_documented P env tbl sq" and "fst (ap_date_now P (aw_host w)) = Inr now"
    and "dy_scheduleRetry P env m t w = (Inr (), w')"
  shows "if t - now \<le> 900000
    then (\<exists>d. sq (aw_host w') = sq (aw_host w) @ [(message_body P m, d)] \<and> d \<le> 900
           \<and> t - now \<le> 1000 * rat_of_nat d \<and> (0 < d \<longrightarrow> 1000 * rat_of_nat d < t - now + 1000)
           \<and> tbl (aw_host w') = tbl (aw_host w))
    else (\<exists>row. tbl (aw_host w') = (tbl (aw_host w))(sched_key m \<mapsto> ItSched row) \<and> sr_message row = m \<and> sr_claimed_at row = None
           \<and> sr_gsi1sk row = sr_due_at row \<and> 1000 * rat_of_int (sr_due_at row) \<le> t \<and> t < 1000 * rat_of_int (sr_due_at row) + 1000
           \<and> sq (aw_host w') = sq (aw_host w))"
proof -
  let ?h = "snd (ap_date_now P (aw_host w))"
  have h: "tbl ?h = tbl (aw_host w)" "sq ?h = sq (aw_host w)" using now_call [OF assms(1)] by metis+
  have run: "dy_scheduleRetry P env m t w = (if t - now \<le> 900000
      then aws_call (ap_sqs_send P (en_queueUrl env) (message_body P m) (delay_seconds (t - now))) (w\<lparr>aw_host := ?h\<rparr>)
      else aws_call (ap_put P (en_tableName env) (sched_key m) (ItSched (sched_row_for m t)) Unconditional) (w\<lparr>aw_host := ?h\<rparr>))"
    using assms(2) by (simp add: dy_scheduleRetry_def bind_io_def aws_call_def SQS_MAX_DELAY_MS_def sched_key_def Let_def)
  show ?thesis
  proof (cases "t - now \<le> 900000")
    case True
    obtain r h' where c: "ap_sqs_send P (en_queueUrl env) (message_body P m) (delay_seconds (t - now)) ?h = (r, h')" by fastforce
    with assms(3) run True have "r = Inr ()" "aw_host w' = h'" by (auto simp: aws_call_def)
    then show ?thesis
      using True h send_call [OF assms(1) c] delay_seconds_bounds [OF True] by (auto simp: attempted_def)
  next
    case False
    obtain r h' where c: "ap_put P (en_tableName env) (sched_key m) (ItSched (sched_row_for m t)) Unconditional ?h = (r, h')" by fastforce
    with assms(3) run False have "r = Inr ()" "aw_host w' = h'" by (auto simp: aws_call_def)
    moreover have "1000 * rat_of_int \<lfloor>t / 1000\<rfloor> \<le> t" "t < 1000 * rat_of_int \<lfloor>t / 1000\<rfloor> + 1000"
      using floor_correct [of "t / 1000"] by (simp_all add: field_simps)
    ultimately show ?thesis
      using False h put_call [OF assms(1) c] by (auto simp: attempted_def condition_holds_def sched_row_for_def Let_def)
  qed
qed

theorem aws_retry_split_witness:
  "\<exists>row. example_table (aw_host (snd (dy_scheduleRetry example_aws example_env late_retry 3600000 (example_aws_world [] 0)))) (sched_key late_retry)
      = Some (ItSched row) \<and> sr_message row = late_retry"
proof -
  let ?w = "example_aws_world [] 0"
  have now: "fst (ap_date_now example_aws (aw_host ?w)) = Inr 0" by (simp add: example_aws_def example_aws_world_def)
  have "fst (dy_scheduleRetry example_aws example_env late_retry 3600000 ?w) = Inr ()"
    by (simp add: dy_scheduleRetry_def bind_io_def aws_call_def example_aws_def example_aws_world_def example_put_def
        condition_holds_def SQS_MAX_DELAY_MS_def Let_def)
  then have run: "dy_scheduleRetry example_aws example_env late_retry 3600000 ?w = (Inr (), snd (dy_scheduleRetry example_aws example_env late_retry 3600000 ?w))"
    by (simp add: prod_eq_iff)
  from aws_retry_split [OF example_documented now run] show ?thesis by auto
qed

section \<open>Idempotency and circuit writes\<close>

text \<open>
  An event is recorded once: when \<open>recordEvent\<close> returns, it says new exactly when there was no record
  of the key, and then the record is there; otherwise it returns the first receipt and changes nothing.
  It never relies on an eventually consistent read, which may show anything.
\<close>

theorem aws_event_recorded_once:
  assumes "aws_documented P env tbl sq" and "dy_recordEvent P env tenant eventId k w = (Inr r, w')"
    and "tbl (aw_host w) (tenantPk tenant, idemSk k) = map_option (\<lambda>(e, n). ItEvent e n) before"
  shows "case before of
      None \<Rightarrow> r = \<lparr>rr_isNew = True, rr_eventId = eventId, rr_messageCount = 0\<rparr>
        \<and> tbl (aw_host w') = (tbl (aw_host w))((tenantPk tenant, idemSk k) \<mapsto> ItEvent eventId 0)
    | Some (e, n) \<Rightarrow> r = \<lparr>rr_isNew = False, rr_eventId = e, rr_messageCount = n\<rparr> \<and> tbl (aw_host w') = tbl (aw_host w)"
proof -
  let ?k = "(tenantPk tenant, idemSk k)"
  obtain r1 h1 where c1: "ap_put P (en_tableName env) ?k (ItEvent eventId 0) NotExists (aw_host w) = (r1, h1)" by fastforce
  obtain r2 h2 where c2: "ap_get P (en_tableName env) ?k True h1 = (r2, h2)" by fastforce
  note law = put_call [OF assms(1) c1] get_call [OF assms(1) c2]
  show ?thesis
    using assms(2,3) c1 c2 law
    by (cases r1; cases r2; cases before)
       (auto simp: dy_recordEvent_def Let_def catch_io_def seq_io_def bind_io_def aws_call_def attempted_def condition_holds_def split: if_splits)
qed

theorem aws_event_recorded_once_witness:
  "fst (dy_recordEvent example_aws example_env ''acme'' ''evt_2'' ''k'' (example_aws_world [((tenantPk ''acme'', idemSk ''k''), ItEvent ''evt_1'' 3)] 0))
     = Inr \<lparr>rr_isNew = False, rr_eventId = ''evt_1'', rr_messageCount = 3\<rparr>"
proof -
  let ?w = "example_aws_world [((tenantPk ''acme'', idemSk ''k''), ItEvent ''evt_1'' 3)] 0"
  obtain r w' where run: "dy_recordEvent example_aws example_env ''acme'' ''evt_2'' ''k'' ?w = (Inr r, w')"
    by (simp add: dy_recordEvent_def Let_def catch_io_def seq_io_def bind_io_def aws_call_def example_aws_def example_aws_world_def
        example_put_def condition_holds_def)
  have "example_table (aw_host ?w) (tenantPk ''acme'', idemSk ''k'') = map_option (\<lambda>(e, n). ItEvent e n) (Some (''evt_1'', 3))"
    by (simp add: example_table_def example_aws_world_def)
  from aws_event_recorded_once [OF example_documented run this] run show ?thesis by simp
qed

text \<open>
  C33: no circuit update is lost between the read and the write of \<open>putCircuit\<close>: of two writers that read the
  same version, when the first has written, the write of the second throws and leaves the record of the
  first in place.
\<close>

theorem aws_circuit_conflict_detected:
  assumes "aws_documented P env tbl sq" and "dy_putCircuit P env tenant endpointId rec1 w = (Inr (), w1)"
    and "writeCircuit P env tenant endpointId rec2 (Option.bind (tbl (aw_host w) (tenantPk tenant, circuitSk endpointId)) item_version) w1 = (r2, w2)"
  shows "(\<exists>v. tbl (aw_host w1) (tenantPk tenant, circuitSk endpointId) = Some (ItCircuit rec1 v))
    \<and> (\<exists>e. r2 = Inl e) \<and> tbl (aw_host w2) = tbl (aw_host w1)"
proof -
  let ?k = "(tenantPk tenant, circuitSk endpointId)"
  let ?v = "Option.bind (tbl (aw_host w) ?k) item_version"
  let ?n = "(case ?v of Some v \<Rightarrow> v | None \<Rightarrow> 0) + 1" and ?c = "case ?v of None \<Rightarrow> VersionMissing | Some v \<Rightarrow> VersionIs v"
  obtain r0 h0 where c0: "ap_get P (en_tableName env) ?k True (aw_host w) = (r0, h0)" by fastforce
  obtain r1 h1 where c1: "ap_put P (en_tableName env) ?k (ItCircuit rec1 ?n) ?c h0 = (r1, h1)" by fastforce
  obtain r h2 where c2: "ap_put P (en_tableName env) ?k (ItCircuit rec2 ?n) ?c (aw_host w1) = (r, h2)" by fastforce
  have r0: "r0 = Inr (tbl (aw_host w) ?k)"
    using assms(2) c0 get_call [OF assms(1) c0] by (cases r0) (auto simp: dy_putCircuit_def bind_io_def aws_call_def)
  have r1: "r1 = Inr ()" "aw_host w1 = h1"
    using assms(2) c0 c1 r0 by (auto simp: dy_putCircuit_def writeCircuit_def Let_def bind_io_def catch_io_def aws_call_def split: sum.splits if_splits)
  then have t1: "tbl (aw_host w1) ?k = Some (ItCircuit rec1 ?n)" using put_call [OF assms(1) c1] by (simp add: attempted_def)
  then have "\<not> condition_holds ?c (tbl (aw_host w1) ?k)" by (cases ?v) (auto simp: condition_holds_def)
  with put_call [OF assms(1) c2] have "(\<exists>e. r = Inl e) \<and> tbl h2 = tbl (aw_host w1)" by (cases r) (auto simp: attempted_def split: if_splits)
  moreover have "aw_host w2 = h2" "\<exists>e. r = Inl e \<Longrightarrow> \<exists>e. r2 = Inl e"
    using assms(3) c2 by (auto simp: writeCircuit_def Let_def catch_io_def aws_call_def split: sum.splits if_splits)
  ultimately show ?thesis using t1 by blast
qed

theorem aws_circuit_conflict_detected_witness:
  "\<exists>e. fst (writeCircuit example_aws example_env ''acme'' ''ep_1'' (initialCircuit 1) None
      (snd (dy_putCircuit example_aws example_env ''acme'' ''ep_1'' (initialCircuit 2) (example_aws_world [] 0)))) = Inl e"
proof -
  have "fst (dy_putCircuit example_aws example_env ''acme'' ''ep_1'' (initialCircuit 2) (example_aws_world [] 0)) = Inr ()"
    by (simp add: dy_putCircuit_def writeCircuit_def Let_def bind_io_def catch_io_def aws_call_def example_aws_def example_aws_world_def
        example_put_def condition_holds_def)
  then obtain w1 where w1: "dy_putCircuit example_aws example_env ''acme'' ''ep_1'' (initialCircuit 2) (example_aws_world [] 0) = (Inr (), w1)"
    by (cases "dy_putCircuit example_aws example_env ''acme'' ''ep_1'' (initialCircuit 2) (example_aws_world [] 0)") simp
  have "Option.bind (example_table (aw_host (example_aws_world [] 0)) (tenantPk ''acme'', circuitSk ''ep_1'')) item_version = None"
    by (simp add: example_table_def example_aws_world_def)
  with aws_circuit_conflict_detected [OF example_documented w1, of "initialCircuit 1"] w1 show ?thesis
    by (metis prod.collapse snd_conv)
qed

text \<open>
  The version check does not span a delivery, as the comment on \<open>DynamoStateStore\<close> says: \<open>putCircuit\<close> reads
  the version it checks itself, so when two deliveries that read the same circuit both fail, both writes
  succeed and the stored record counts one failure.
\<close>

lemma aws_circuit_failure_lost:
  assumes "aws_documented P env tbl sq" and "dy_getCircuit P env tenant endpointId w = (Inr c, w0)"
    and "dy_putCircuit P env tenant endpointId (onFailure c t1 threshold) w0 = (Inr (), w1)"
    and "dy_putCircuit P env tenant endpointId (onFailure c t2 threshold) w1 = (Inr (), w2)"
    and "dy_getCircuit P env tenant endpointId w2 = (Inr c', w3)"
  shows "ci_consecutiveFailures c' = ci_consecutiveFailures c + 1 \<and> c' = onFailure c t2 threshold"
proof -
  let ?k = "(tenantPk tenant, circuitSk endpointId)"
  have written: "\<exists>v. tbl (aw_host u') ?k = Some (ItCircuit x v)" if put: "dy_putCircuit P env tenant endpointId x u = (Inr (), u')" for x u u'
  proof -
    obtain r0 h0 where c0: "ap_get P (en_tableName env) ?k True (aw_host u) = (r0, h0)" by fastforce
    obtain cur where r0: "r0 = Inr cur" using put c0 by (cases r0) (auto simp: dy_putCircuit_def bind_io_def aws_call_def)
    let ?v = "Option.bind cur item_version"
    let ?n = "(case ?v of Some v \<Rightarrow> v | None \<Rightarrow> 0) + 1" and ?c = "case ?v of None \<Rightarrow> VersionMissing | Some v \<Rightarrow> VersionIs v"
    obtain r1 h1 where c1: "ap_put P (en_tableName env) ?k (ItCircuit x ?n) ?c h0 = (r1, h1)" by fastforce
    have run: "ap_put P (en_tableName env) ?k (ItCircuit x ?n) ?c h0 = (Inr (), aw_host u')"
      using put c0 r0 c1
      by (auto simp: dy_putCircuit_def writeCircuit_def Let_def bind_io_def catch_io_def aws_call_def split: sum.splits if_splits)
    from put_call [OF assms(1) run] show ?thesis by (auto simp: attempted_def)
  qed
  obtain v where "tbl (aw_host w2) ?k = Some (ItCircuit (onFailure c t2 threshold) v)" using written [OF assms(4)] by blast
  moreover obtain r h where g: "ap_get P (en_tableName env) ?k True (aw_host w2) = (r, h)" by fastforce
  ultimately have "c' = onFailure c t2 threshold"
    using get_call [OF assms(1) g] assms(5) by (cases r) (auto simp: dy_getCircuit_def bind_io_def aws_call_def)
  then show ?thesis by (simp add: onFailure_def Let_def)
qed

section \<open>A send that fails half-way\<close>

lemma aws_random_keeps:
  assumes "outside_documented P tbl sq posts" and "requests_documented P env pub"
  shows "keeps (\<lambda>w. tbl (aw_host w) = t0 \<and> sq (aw_host w) = q0 \<and> pub (aw_host w) = p0) (aws_call (ap_math_random P))"
  using assms by (simp add: keeps_def aws_call_def outside_documented_def requests_documented_def Let_def)

text \<open>A key that is recorded is answered from its record, and nothing else happens.\<close>

lemma send_recorded:
  assumes "send_documented P (resolveEnv penv config) tbl sq posts pub"
    and "tbl (aw_host w1) (tenantPk (ev_tenant event), idemSk (idem_key (aws_engine P fuel hmac penv url_parse sha config) event)) = Some (ItEvent eid n)"
    and "send (aws_engine P fuel hmac penv url_parse sha config) event w1 = (Inr r, w2)"
  shows "r = \<lparr>rc_eventId = eid, rc_accepted = True, rc_messageCount = n\<rparr>
    \<and> tbl (aw_host w2) = tbl (aw_host w1) \<and> sq (aw_host w2) = sq (aw_host w1) \<and> pub (aw_host w2) = pub (aw_host w1)"
proof -
  let ?E = "aws_engine P fuel hmac penv url_parse sha config" and ?env = "resolveEnv penv config"
  let ?id = "newId ''evt'' (aws_call (ap_math_random P)) 20" and ?k = "(tenantPk (ev_tenant event), idemSk (idem_key ?E event))"
  let ?same = "\<lambda>w. tbl (aw_host w) = tbl (aw_host w1) \<and> sq (aw_host w) = sq (aw_host w1) \<and> pub (aw_host w) = pub (aw_host w1)"
  have doc: "aws_documented P ?env tbl sq" "outside_documented P tbl sq posts" "requests_documented P ?env pub"
    using assms(1) by (simp_all add: send_documented_def delivery_documented_def)
  have "send_accept ?E event w1 = (Inr r, w2)"
    using assms(3) unfolding send_def by (auto split: if_splits option.splits)
  then obtain i where i: "fst (?id w1) = Inr i"
    and run: "bind_io (dy_recordEvent P ?env (ev_tenant event) i (idem_key ?E event)) (\<lambda>rec. if \<not> rr_isNew rec
        then return_io \<lparr>rc_eventId = rr_eventId rec, rc_accepted = True, rc_messageCount = rr_messageCount rec\<rparr>
        else send_fanout ?E event (idem_key ?E event) i) (snd (?id w1)) = (Inr r, w2)"
    unfolding send_accept_def Let_def idem_key_def [symmetric] by (auto simp: bind_io_def [of ?id] split: sum.splits)
  have w: "?same (snd (?id w1))"
    using keeps_newId [OF aws_random_keeps [OF doc(2,3)]] by (simp add: keeps_def)
  obtain r1 h1 where c1: "ap_put P (en_tableName ?env) ?k (ItEvent i 0) NotExists (aw_host (snd (?id w1))) = (r1, h1)" by fastforce
  obtain r2 h2 where c2: "ap_get P (en_tableName ?env) ?k True h1 = (r2, h2)" by fastforce
  have "pub h1 = pub (aw_host (snd (?id w1)))" "pub h2 = pub h1"
    using doc(3) c1 c2 unfolding requests_documented_def by (metis snd_conv)+
  with put_call [OF doc(1) c1] get_call [OF doc(1) c2] w run c1 c2 assms(2) show ?thesis
    by (cases r1; cases r2)
       (auto simp: dy_recordEvent_def Let_def catch_io_def seq_io_def bind_io_def aws_call_def attempted_def condition_holds_def split: if_splits)
qed

text \<open>A new key whose query of the endpoints fails: \<open>send\<close> throws, its record stays, with no messages.\<close>

lemma send_query_fails:
  assumes "send_documented P (resolveEnv penv config) tbl sq posts pub"
    and "acceptable (aws_engine P fuel hmac penv url_parse sha config) event"
    and "tbl (aw_host w) (tenantPk (ev_tenant event), idemSk (idem_key (aws_engine P fuel hmac penv url_parse sha config) event)) = None"
    and "newId ''evt'' (aws_call (ap_math_random P)) 20 w = (Inr eid, w0)"
    and "dy_recordEvent P (resolveEnv penv config) (ev_tenant event) eid (idem_key (aws_engine P fuel hmac penv url_parse sha config) event) w0 = (Inr rec, w1)"
    and "dy_matchEndpoints P fuel (resolveEnv penv config) (ev_tenant event) (ev_type event) w1 = (Inl err, w2)"
  shows "send (aws_engine P fuel hmac penv url_parse sha config) event w = (Inl err, w2)
    \<and> tbl (aw_host w2) = (tbl (aw_host w))((tenantPk (ev_tenant event), idemSk (idem_key (aws_engine P fuel hmac penv url_parse sha config) event)) \<mapsto> ItEvent eid 0)
    \<and> pub (aw_host w2) = pub (aw_host w)"
proof -
  let ?E = "aws_engine P fuel hmac penv url_parse sha config" and ?env = "resolveEnv penv config"
  have doc: "aws_documented P ?env tbl sq" "outside_documented P tbl sq posts" "requests_documented P ?env pub" "queries_documented P ?env tbl sq posts pub"
    using assms(1) by (simp_all add: send_documented_def delivery_documented_def)
  have w0: "tbl (aw_host w0) = tbl (aw_host w)" "pub (aw_host w0) = pub (aw_host w)"
    using keeps_newId [OF aws_random_keeps [OF doc(2,3)]] assms(4) unfolding keeps_def by (metis snd_conv)+
  have new: "tbl (aw_host w0) (tenantPk (ev_tenant event), idemSk (idem_key ?E event)) = map_option (\<lambda>(e, n). ItEvent e n) None"
    using assms(3) w0(1) by simp
  note rec = aws_event_recorded_once [OF doc(1) assms(5) new, simplified]
  have "keeps (\<lambda>u. pub (aw_host u) = pub (aw_host w)) (dy_recordEvent P ?env t i k)" for t i k
    unfolding dy_recordEvent_def by (intro keeps_intro keeps_catch keeps_throw keeps_published [OF doc(3)])
  with assms(5) w0(2) have w1: "pub (aw_host w1) = pub (aw_host w)" unfolding keeps_def by (metis snd_conv)
  have "tbl (aw_host w2) = tbl (aw_host w1)" "pub (aw_host w2) = pub (aw_host w1)"
    using keeps_matchEndpoints [OF doc(4)] assms(6) unfolding keeps_def by (metis snd_conv)+
  moreover have "send ?E event w = send_accept ?E event w"
    using assms(2) by (auto simp: send_def acceptable_def split: option.splits)
  ultimately show ?thesis
    using rec w0 w1 assms(4-6)
    by (simp add: send_accept_def Let_def idem_key_def [symmetric] bind_io_def send_fanout_def)
qed

text \<open>
  C27: a send that fails half-way swallows its event. \<open>send\<close> records the event, counting no messages, before it
  fans out. When the query of the endpoints then throws, \<open>send\<close> throws too and leaves that record behind as
  its only effect. From then on, as long as the record stands, a send with the same key that returns
  tells its caller that the event was accepted, with no messages, and nothing is stored, queued or
  published for it: the event is not delivered. The comment in \<open>send\<close> leaves acceptance under a crash to
  the adapters' conditional writes, which do not repair it.
\<close>

theorem aws_failed_send_swallows_event:
  assumes "send_documented P (resolveEnv penv config) tbl sq posts pub"
    and "E = aws_engine P fuel hmac penv url_parse sha config" and "acceptable E event"
    and "key = (tenantPk (ev_tenant event), idemSk (idem_key E event))" and "tbl (aw_host w) key = None"
    and "newId ''evt'' (eng_rng E) 20 w = (Inr eid, w0)"
    and "dy_recordEvent P (resolveEnv penv config) (ev_tenant event) eid (idem_key E event) w0 = (Inr rec, w1)"
    and "dy_matchEndpoints P fuel (resolveEnv penv config) (ev_tenant event) (ev_type event) w1 = (Inl err, w2)"
    and "tbl (aw_host w3) key = tbl (aw_host w2) key" and "ev_tenant again = ev_tenant event" and "idem_key E again = idem_key E event"
    and "send E again w3 = (Inr r, w4)"
  shows "send E event w = (Inl err, w2) \<and> tbl (aw_host w2) = (tbl (aw_host w))(key \<mapsto> ItEvent eid 0) \<and> pub (aw_host w2) = pub (aw_host w)
    \<and> r = \<lparr>rc_eventId = eid, rc_accepted = True, rc_messageCount = 0\<rparr>
    \<and> tbl (aw_host w4) = tbl (aw_host w3) \<and> sq (aw_host w4) = sq (aw_host w3) \<and> pub (aw_host w4) = pub (aw_host w3)"
proof -
  note E = assms(2)
  have first: "send E event w = (Inl err, w2) \<and> tbl (aw_host w2) = (tbl (aw_host w))(key \<mapsto> ItEvent eid 0) \<and> pub (aw_host w2) = pub (aw_host w)"
    using send_query_fails [OF assms(1) assms(3) [unfolded E] assms(5) [unfolded assms(4) E] assms(6) [unfolded E aws_engine_sel]
        assms(7) [unfolded E] assms(8)]
    by (simp add: E assms(4))
  have "tbl (aw_host w3) (tenantPk (ev_tenant again), idemSk (idem_key E again)) = Some (ItEvent eid 0)"
    using first assms(4,9-11) by simp
  from send_recorded [OF assms(1) this [unfolded E] assms(12) [unfolded E]] first show ?thesis by simp
qed

text \<open>Services whose queries fail, a first send, which throws, and its retry.\<close>

definition failing_aws :: "example_services aws_platform" where
  "failing_aws = example_aws\<lparr>ap_query := (\<lambda>T pk pre k. throw_io (ServiceError ''InternalServerError''))\<rparr>"

definition failing_engine :: "example_services aws_world engine" where
  "failing_engine = aws_engine failing_aws 1 (\<lambda>_ _. []) (\<lambda>_. None) (\<lambda>_. None) id example_config"

definition example_event :: send_event where
  "example_event = \<lparr>ev_type = ''order.paid'', ev_tenant = ''acme'', ev_payload = Some (JNum ''1''), ev_idempotencyKey = Some ''k'',
     ev_metadata = None\<rparr>"

definition accepted_id :: string where
  "accepted_id = ''evt_'' @ concat (replicate 20 (alphabet_char 0))"

lemma failing_documented: "send_documented failing_aws env example_table example_queue example_posts example_published"
  using example_send_documented [of env]
  by (simp add: send_documented_def delivery_documented_def failing_aws_def aws_documented_def writes_documented_def reads_documented_def
      queue_documented_def counters_documented_def outside_documented_def requests_documented_def publish_documented_def queries_documented_def Let_def)

lemma newId_zero: "newId p (aws_call (return_io 0)) n w = (Inr (p @ ''_'' @ concat (replicate n (alphabet_char 0))), w)"
proof -
  have "newId_chars (aws_call (return_io 0)) n w = (Inr (concat (replicate n (alphabet_char 0))), w)"
    by (induction n) (simp_all add: bind_io_def aws_call_def)
  then show ?thesis by (simp add: newId_def bind_io_def)
qed

lemma failing_id: "newId ''evt'' (eng_rng failing_engine) 20 w = (Inr accepted_id, w)"
  by (simp add: failing_engine_def failing_aws_def example_aws_def newId_zero accepted_id_def)

lemma failing_accepts: "acceptable failing_engine example_event" "idem_key failing_engine example_event = ''k''"
  by (simp_all add: acceptable_def idem_key_def failing_engine_def AWS_MAX_PAYLOAD_BYTES_def example_event_def utf8_length_def)

definition recorded_world :: "example_services aws_world" where
  "recorded_world = example_aws_world [((tenantPk ''acme'', idemSk ''k''), ItEvent accepted_id 0)] 0"

lemma failing_record:
  "dy_recordEvent failing_aws env ''acme'' accepted_id ''k'' (example_aws_world [] 0)
     = (Inr \<lparr>rr_isNew = True, rr_eventId = accepted_id, rr_messageCount = 0\<rparr>, recorded_world)"
  by (simp add: dy_recordEvent_def Let_def catch_io_def seq_io_def bind_io_def aws_call_def failing_aws_def example_aws_def example_put_def
      condition_holds_def example_aws_world_def recorded_world_def)

lemma failing_match:
  "dy_matchEndpoints failing_aws 1 env t ty recorded_world = (Inl (ServiceError ''InternalServerError''), recorded_world)"
  by (simp add: dy_matchEndpoints_def dy_listEndpoints_def queryAll_def bind_io_def aws_call_def failing_aws_def)

lemma failing_retry: "\<exists>r. fst (send failing_engine example_event recorded_world) = Inr r"
proof -
  have "send failing_engine example_event recorded_world = send_accept failing_engine example_event recorded_world"
    using failing_accepts(1) by (auto simp: send_def acceptable_def split: option.splits)
  moreover have "dy_recordEvent failing_aws env ''acme'' accepted_id ''k'' recorded_world
      = (Inr \<lparr>rr_isNew = False, rr_eventId = accepted_id, rr_messageCount = 0\<rparr>, recorded_world)" for env
    by (simp add: dy_recordEvent_def Let_def catch_io_def seq_io_def bind_io_def aws_call_def failing_aws_def example_aws_def example_put_def
        condition_holds_def example_aws_world_def recorded_world_def)
  moreover have "eng_state failing_engine = DynamoStateStore failing_aws 1 (resolveEnv (\<lambda>_. None) example_config)"
    "ev_tenant example_event = ''acme''" by (simp_all add: failing_engine_def example_event_def)
  ultimately show ?thesis
    by (simp add: send_accept_def Let_def bind_io_def failing_id idem_key_def [symmetric] failing_accepts(2))
qed

theorem aws_failed_send_swallows_event_witness:
  "(\<exists>e w. send failing_engine example_event (example_aws_world [] 0) = (Inl e, w)
     \<and> (\<exists>w'. send failing_engine example_event w = (Inr \<lparr>rc_eventId = accepted_id, rc_accepted = True, rc_messageCount = 0\<rparr>, w')
          \<and> example_published (aw_host w') = []))"
proof -
  obtain r w4 where run: "send failing_engine example_event recorded_world = (Inr r, w4)"
    using failing_retry by (metis prod.collapse)
  have new: "example_table (aw_host (example_aws_world [] 0)) (tenantPk (ev_tenant example_event), idemSk (idem_key failing_engine example_event)) = None"
    by (simp add: example_table_def example_aws_world_def)
  have rec: "dy_recordEvent failing_aws (resolveEnv (\<lambda>_. None) example_config) (ev_tenant example_event) accepted_id
      (idem_key failing_engine example_event) (example_aws_world [] 0)
      = (Inr \<lparr>rr_isNew = True, rr_eventId = accepted_id, rr_messageCount = 0\<rparr>, recorded_world)"
    using failing_record failing_accepts(2) by (simp add: example_event_def)
  from aws_failed_send_swallows_event [OF failing_documented failing_engine_def failing_accepts(1) refl new failing_id rec failing_match
      refl refl refl run] run
  show ?thesis by (auto simp: recorded_world_def example_published_def example_aws_world_def)
qed

section \<open>Acceptance\<close>

text \<open>
  C26: an acceptance on AWS refines the specification, whatever fails. When \<open>send\<close> returns for a new key, one
  message per enabled subscribing endpoint that its query showed is stored and published, in order, and the
  record of the key counts them; when it returns for a key that is recorded, it gives the first receipt and
  changes nothing. When it throws, at any call and with the failed call made or not, the table is still
  well-formed and nothing but that record, messages of the tenant and published messages was touched.
\<close>

theorem aws_send_refines:
  assumes "send_documented P (resolveEnv penv config) tbl sq posts pub" and "aws_ok tbl w"
    and "send (aws_engine P fuel hmac penv url_parse sha config) event w = (r, w')"
  shows "let E = aws_engine P fuel hmac penv url_parse sha config; t = ev_tenant event; k = idem_key E event;
      v = aws_send_vw tbl posts pub w; v' = aws_send_vw tbl posts pub w'
    in aws_ok tbl w' \<and> only_accepts t k v v' \<and> aws_sched P tbl sq w' = aws_sched P tbl sq w
     \<and> (\<forall>rc. r = Inr rc \<longrightarrow> (case v_events v t k of
          Some (eid, n) \<Rightarrow> rc = \<lparr>rc_eventId = eid, rc_accepted = True, rc_messageCount = n\<rparr> \<and> v' = v
        | None \<Rightarrow> \<exists>es ms eid. endpoints_shown P fuel (resolveEnv penv config) tbl posts pub (put_event t k (eid, 0) v) t (ev_type event) es
            \<and> accepted_for E event (wanted event es) v v' ms rc))"
proof -
  note ports = aws_sending_ports [OF assms(1), where fuel = fuel and hmac = hmac and url_parse = url_parse and sha = sha]
  have "r = Inr rc \<Longrightarrow> send (aws_engine P fuel hmac penv url_parse sha config) event w = (Inr rc, w')" for rc using assms(3) by simp
  from sending_ports.send_returns [OF ports assms(2) this] sending_ports.send_inside [OF ports assms(2,3)]
  show ?thesis unfolding Let_def by (auto split: option.splits)
qed

definition example_endpoint_row :: "ddb_key \<times> aws_item" where
  "example_endpoint_row = ((tenantPk ''acme'', endpointSk ''ep_1''),
     ItEndpoint \<lparr>ep_endpointId = ''ep_1'', ep_tenant = ''acme'', ep_url = ''https://8.8.8.8/h'', ep_eventTypes = [''order.*''], ep_description = None,
       ep_disabled = False, ep_rateLimit = None, ep_createdAt = 0, ep_secrets = [''whsec_bmV3'']\<rparr>)"

definition accepting_engine :: "example_services aws_world engine" where
  "accepting_engine = aws_engine example_aws 1 (\<lambda>_ _. []) (\<lambda>_. None) (\<lambda>_. None) id example_config"

definition accepting_run :: "(js_error + receipt) \<times> example_services aws_world" where
  "accepting_run = send accepting_engine example_event (example_aws_world [example_endpoint_row] 0)"

lemma accepting_world_ok: "aws_ok example_table (example_aws_world [example_endpoint_row] 0)"
  by (simp add: aws_ok_def table_ok_def example_table_def example_aws_world_def example_endpoint_row_def seq_at_def sk_defs)

lemma accepting_sel: "eng_rng accepting_engine = aws_call (return_io 0)" "eng_maxPayloadBytes accepting_engine = 204800"
  by (simp_all add: accepting_engine_def example_aws_def AWS_MAX_PAYLOAD_BYTES_def)

lemma accepting_match:
  "dy_matchEndpoints example_aws 1 env ''acme'' ''order.paid'' (example_aws_world [example_endpoint_row, ((tenantPk ''acme'', idemSk ''k''), ItEvent i n)] 0)
   = (Inr (List.map_filter (\<lambda>r. item_endpoint (snd r)) [example_endpoint_row]),
      example_aws_world [example_endpoint_row, ((tenantPk ''acme'', idemSk ''k''), ItEvent i n)] 0)"
  by (simp add: dy_matchEndpoints_def dy_listEndpoints_def queryAll_def bind_io_def aws_call_def example_aws_def example_query_def
      example_aws_world_def example_endpoint_row_def map_filter_simps sk_defs starts_with_def subscribes_def pattern_matches_def ends_with_def)

lemma accepting_fanout:
  "\<exists>w'. send_fanout accepting_engine example_event ''k'' accepted_id
     (example_aws_world [example_endpoint_row, ((tenantPk ''acme'', idemSk ''k''), ItEvent accepted_id 0)] 0)
   = (Inr \<lparr>rc_eventId = accepted_id, rc_accepted = True, rc_messageCount = 1\<rparr>, w')"
proof -
  let ?w = "example_aws_world [example_endpoint_row, ((tenantPk ''acme'', idemSk ''k''), ItEvent accepted_id 0)] 0"
  define es where "es = List.map_filter (\<lambda>r. item_endpoint (snd r)) [example_endpoint_row]"
  have match: "ss_matchEndpoints (eng_state accepting_engine) (ev_tenant example_event) (ev_type example_event) ?w = (Inr es, ?w)"
    using accepting_match unfolding es_def by (simp add: accepting_engine_def example_event_def)
  have clock: "eng_clock accepting_engine ?w = (Inr 0, ?w)"
    by (simp add: accepting_engine_def example_aws_def example_aws_world_def aws_call_def)
  obtain m where fan: "fanout example_event accepted_id es (eng_rng accepting_engine) 0 ?w = (Inr [m], ?w)"
    by (simp add: es_def fanout_def fanout_one_def accepting_sel bind_io_def newId_zero example_endpoint_row_def map_filter_simps example_event_def
        subscribes_def pattern_matches_def ends_with_def starts_with_def)
  have send: "\<exists>w'. send_enqueue accepting_engine m u = (Inr (), w')" for u
    by (simp add: send_enqueue_def accepting_engine_def dy_putMessage_def sqs_send_def ensureConnected_def seq_io_def bind_io_def aws_call_def
        example_aws_def example_put_def example_publish_def condition_holds_def)
  have fin: "\<exists>w'. ss_finalizeEvent (eng_state accepting_engine) t k i n u = (Inr (), w')" for t k i n u
    by (simp add: accepting_engine_def dy_finalizeEvent_def aws_call_def example_aws_def example_put_def condition_holds_def)
  obtain w2 where w2: "send_enqueue accepting_engine m ?w = (Inr (), w2)" using send by blast
  obtain w3 where w3: "ss_finalizeEvent (eng_state accepting_engine) (ev_tenant example_event) ''k'' accepted_id 1 w2 = (Inr (), w3)"
    using fin by blast
  show ?thesis
    by (simp add: send_fanout_def seq_io_def bind_io_def match clock fan w2 w3 [simplified])
qed

lemma accepting_receipt:
  "\<exists>w'. accepting_run = (Inr \<lparr>rc_eventId = accepted_id, rc_accepted = True, rc_messageCount = 1\<rparr>, w')"
proof -
  let ?w = "example_aws_world [example_endpoint_row] 0"
  have id: "newId ''evt'' (eng_rng accepting_engine) 20 ?w = (Inr accepted_id, ?w)"
    by (simp add: accepting_sel newId_zero accepted_id_def)
  have rec: "ss_recordEvent (eng_state accepting_engine) ''acme'' accepted_id ''k'' ?w
      = (Inr \<lparr>rr_isNew = True, rr_eventId = accepted_id, rr_messageCount = 0\<rparr>,
         example_aws_world [example_endpoint_row, ((tenantPk ''acme'', idemSk ''k''), ItEvent accepted_id 0)] 0)"
    by (simp add: accepting_engine_def dy_recordEvent_def Let_def catch_io_def seq_io_def bind_io_def aws_call_def example_aws_def example_put_def
        condition_holds_def example_aws_world_def example_endpoint_row_def sk_defs)
  have "send accepting_engine example_event ?w = send_accept accepting_engine example_event ?w"
    by (simp add: send_def example_event_def accepting_sel utf8_length_def)
  moreover have "ev_tenant example_event = ''acme''" "ev_idempotencyKey example_event = Some ''k''" by (simp_all add: example_event_def)
  ultimately show ?thesis
    using accepting_fanout by (simp add: accepting_run_def send_accept_def Let_def bind_io_def id rec)
qed

theorem aws_send_refines_witness:
  "\<exists>r. fst accepting_run = Inr r \<and> rc_messageCount r = 1 \<and> length (example_published (aw_host (snd accepting_run))) = 1"
proof -
  let ?v = "aws_send_vw example_table example_posts example_published"
  obtain w' where run: "send accepting_engine example_event (example_aws_world [example_endpoint_row] 0)
      = (Inr \<lparr>rc_eventId = accepted_id, rc_accepted = True, rc_messageCount = 1\<rparr>, w')"
    using accepting_receipt unfolding accepting_run_def by blast
  have new: "v_events (?v (example_aws_world [example_endpoint_row] 0)) t k = None" for t k
    by (simp add: aws_send_vw_def aws_vw_def table_view_def example_table_def example_aws_world_def example_endpoint_row_def sk_defs)
  from aws_send_refines [OF example_send_documented accepting_world_ok, where fuel = 1 and hmac = "\<lambda>_ _. []" and penv = "\<lambda>_. None"
      and config = example_config and url_parse = "\<lambda>_. None" and sha = id, folded accepting_engine_def, OF run] new
  obtain es ms where "accepted_for accepting_engine example_event (wanted example_event es) (?v (example_aws_world [example_endpoint_row] 0)) (?v w') ms
      \<lparr>rc_eventId = accepted_id, rc_accepted = True, rc_messageCount = 1\<rparr>"
    by (auto simp: Let_def)
  from accepted_for_fans_out [OF this] have "length ms = 1" "v_queue (?v w') = v_queue (?v (example_aws_world [example_endpoint_row] 0)) @ ms"
    by (auto dest: map_eq_imp_length_eq)
  then have "length (example_published (aw_host w')) = 1"
    by (simp add: aws_send_vw_def example_published_def example_aws_world_def)
  with run show ?thesis by (simp add: accepting_run_def)
qed

section \<open>Batches\<close>

definition record_throws :: "'h aws_platform \<Rightarrow> (message \<Rightarrow> ('h aws_world, unit) io) \<Rightarrow> sqs_record \<Rightarrow> 'h aws_world \<Rightarrow> bool" where
  "record_throws P h r w \<longleftrightarrow> (case ap_message_parse P (sq_body r) of Inl _ \<Rightarrow> True | Inr m \<Rightarrow> (\<exists>e. fst (h m w) = Inl e))"

definition record_world :: "'h aws_platform \<Rightarrow> (message \<Rightarrow> ('h aws_world, unit) io) \<Rightarrow> sqs_record \<Rightarrow> 'h aws_world \<Rightarrow> 'h aws_world" where
  "record_world P h r w = (case ap_message_parse P (sq_body r) of Inl _ \<Rightarrow> w | Inr m \<Rightarrow> snd (h m w))"

lemma dispatch_one_run:
  "dispatch_one P h r w = (Inr (if record_throws P h r w then [sq_messageId r] else []), record_world P h r w)"
  by (cases "ap_message_parse P (sq_body r)")
     (auto simp: dispatch_one_def record_throws_def record_world_def catch_io_def seq_io_def bind_io_def split: sum.splits)

text \<open>
  One record fails alone: the records of a batch are handed to the handler in order, each exactly once
  and whatever the ones before did; the response lists exactly the records whose body did not parse or
  whose handler threw; only a batch without any handler throws as a whole.
\<close>

theorem aws_dispatch_isolates_failures:
  "dispatchRecords P subscribed [] (Some h) w = (Inr [], w)
   \<and> dispatchRecords P subscribed (r # rs) (Some h) w =
       (let rest = dispatchRecords P subscribed rs (Some h) (record_world P h r w)
        in (map_sum id (\<lambda>ids. (if record_throws P h r w then [sq_messageId r] else []) @ ids) (fst rest), snd rest))
   \<and> (\<exists>ids. fst (dispatchRecords P subscribed rs (Some h) w) = Inr ids)
   \<and> dispatchRecords P (Some h) rs None w = dispatchRecords P subscribed rs (Some h) w
   \<and> (\<exists>e. dispatchRecords P None rs None w = (Inl e, w))"
proof -
  have total: "\<exists>ys w'. map_io (dispatch_one P h) rs w = (Inr ys, w')" for rs w
    by (induction rs arbitrary: w) (simp_all add: bind_io_def dispatch_one_run split: sum.splits, metis fst_conv snd_conv sum.distinct(1))
  from total [of rs w] total [of rs "record_world P h r w"] show ?thesis
    by (auto simp: dispatchRecords_def bind_io_def dispatch_one_run Let_def)
qed

text \<open>A batch as a sequence of records.\<close>

definition batch_world :: "'h aws_platform \<Rightarrow> (message \<Rightarrow> ('h aws_world, unit) io) \<Rightarrow> sqs_record list \<Rightarrow> 'h aws_world \<Rightarrow> 'h aws_world" where
  "batch_world P h rs w = foldl (\<lambda>w r. record_world P h r w) w rs"

lemma dispatch_batch:
  "\<exists>fs. map_io (dispatch_one P h) rs w = (Inr fs, batch_world P h rs w) \<and> length fs = length rs
     \<and> (\<forall>i < length rs. fs ! i = (if record_throws P h (rs ! i) (batch_world P h (take i rs) w) then [sq_messageId (rs ! i)] else []))"
proof (induction rs arbitrary: w)
  case (Cons r rs)
  let ?f = "if record_throws P h r w then [sq_messageId r] else []"
  obtain fs where fs: "map_io (dispatch_one P h) rs (record_world P h r w) = (Inr fs, batch_world P h rs (record_world P h r w))" "length fs = length rs"
    "\<forall>i < length rs. fs ! i = (if record_throws P h (rs ! i) (batch_world P h (take i rs) (record_world P h r w)) then [sq_messageId (rs ! i)] else [])"
    using Cons.IH by blast
  show ?case
    by (intro exI [of _ "?f # fs"] conjI allI impI)
       (use fs in \<open>auto simp: bind_io_def dispatch_one_run [of P h r w] batch_world_def nth_Cons split: nat.splits\<close>)
qed (simp add: batch_world_def)

lemma deliverHandler_batch:
  "\<exists>ids. deliverHandler P fuel hmac penv url_parse sha config rs w
       = (Inr ids, batch_world P (processMessage (aws_engine P fuel hmac penv url_parse sha config)) rs (w\<lparr>aw_connected := False\<rparr>))
     \<and> (\<forall>i < length rs. record_throws P (processMessage (aws_engine P fuel hmac penv url_parse sha config)) (rs ! i)
            (batch_world P (processMessage (aws_engine P fuel hmac penv url_parse sha config)) (take i rs) (w\<lparr>aw_connected := False\<rparr>))
          \<longrightarrow> sq_messageId (rs ! i) \<in> set ids)"
proof -
  let ?h = "processMessage (aws_engine P fuel hmac penv url_parse sha config)" and ?w = "w\<lparr>aw_connected := False\<rparr>"
  obtain fs where fs: "map_io (dispatch_one P ?h) rs ?w = (Inr fs, batch_world P ?h rs ?w)" "length fs = length rs"
    "\<forall>i < length rs. fs ! i = (if record_throws P ?h (rs ! i) (batch_world P ?h (take i rs) ?w) then [sq_messageId (rs ! i)] else [])"
    using dispatch_batch by blast
  have "sq_messageId (rs ! i) \<in> set (concat fs)" if "i < length rs" "record_throws P ?h (rs ! i) (batch_world P ?h (take i rs) ?w)" for i
  proof -
    have "fs ! i = [sq_messageId (rs ! i)]" using fs(3) that by simp
    moreover have "fs ! i \<in> set fs" using that fs(2) by simp
    ultimately show ?thesis by force
  qed
  with fs(1) show ?thesis
    by (simp add: deliverHandler_def Let_def fresh_transport_def sqs_subscribe_def dispatchRecords_def seq_io_def bind_io_def)
qed

section \<open>Deliveries\<close>

text \<open>
  C24: a delivery on AWS refines the specification, whatever fails: when \<open>processMessage\<close> returns, the table,
  the queue and the requests made have gone through one step of the specification, judged by the endpoint
  and the rate bucket as its (eventually consistent) reads showed them; and when it throws, at any call and
  with the failed write made or not, the table is still well-formed and nothing but the message's own records
  and its endpoint's was touched.
\<close>

theorem aws_delivery_refines:
  assumes "delivery_documented P (resolveEnv penv config) tbl sq posts" and "aws_ok tbl w"
    and "processMessage (aws_engine P fuel hmac penv url_parse sha config) m w = (r, w')"
  shows "aws_ok tbl w' \<and> only_touches m (aws_vw tbl posts w) (aws_vw tbl posts w')
    \<and> entries_but m (aws_sched P tbl sq w') = entries_but m (aws_sched P tbl sq w)
    \<and> (r = Inr () \<longrightarrow> (\<exists>found stored s. delivery_step_on (defaultUrlPolicy_check url_parse default_url_options) (createSigner hmac)
          \<lparr>scheduleMs = DEFAULT_SCHEDULE_MS\<rparr> \<lparr>failureThreshold = DEFAULT_FAILURE_THRESHOLD, cooldownMs = DEFAULT_COOLDOWN_MS\<rparr>
          found stored m (aws_vw tbl posts w) (aws_vw tbl posts w') s
        \<and> sched_effect m s (aws_sched P tbl sq w) (aws_sched P tbl sq w')))"
  using delivery_ports.processMessage_inside [OF aws_delivery_ports [OF assms(1)] assms(2,3)]
    delivery_ports.processMessage_step [OF aws_delivery_ports [OF assms(1), where fuel = fuel and hmac = hmac and url_parse = url_parse and sha = sha] assms(2), of m w']
    assms(3)
  by auto

lemma example_aws_ok: "aws_ok example_table (example_aws_world [] now)"
  by (simp add: aws_ok_def table_ok_def example_table_def example_aws_world_def seq_at_def)

theorem aws_delivery_refines_witness:
  "let w = example_aws_world [] 0; w' = snd (processMessage (aws_engine example_aws 1 (\<lambda>_ _. []) (\<lambda>_. None) (\<lambda>_. None) id example_config) late_retry w)
   in aws_ok example_table w' \<and> only_touches late_retry (aws_vw example_table example_posts w) (aws_vw example_table example_posts w')"
proof -
  let ?w = "example_aws_world [] 0"
  let ?run = "processMessage (aws_engine example_aws 1 (\<lambda>_ _. []) (\<lambda>_. None) (\<lambda>_. None) id example_config) late_retry ?w"
  have "?run = (fst ?run, snd ?run)" by simp
  from aws_delivery_refines [OF example_delivery_documented example_aws_ok this] show ?thesis by (simp add: Let_def)
qed

text \<open>
  C25: no message of a batch is lost on AWS, whatever fails: for every record that \<open>deliverHandler\<close> is given, SQS
  gets the record's identifier back as failed, and will deliver it again, or the record held a message that
  is then delivered, dead-lettered, or waiting as a row of the table or in the queue.
\<close>

theorem aws_batch_loses_nothing:
  assumes "delivery_documented P (resolveEnv penv config) tbl sq posts" and "aws_ok tbl w" and "i < length records"
  shows "\<exists>ids. fst (deliverHandler P fuel hmac penv url_parse sha config records w) = Inr ids
    \<and> aws_ok tbl (snd (deliverHandler P fuel hmac penv url_parse sha config records w))
    \<and> (sq_messageId (records ! i) \<in> set ids
       \<or> (\<exists>m s w'. ap_message_parse P (sq_body (records ! i)) = Inr m
            \<and> w' = snd (deliverHandler P fuel hmac penv url_parse sha config (take (Suc i) records) w)
            \<and> accounted m (aws_vw tbl posts w') s \<and> (\<forall>x. s = Some x \<longrightarrow> x \<in> aws_sched P tbl sq w')))"
proof -
  let ?h = "processMessage (aws_engine P fuel hmac penv url_parse sha config)" and ?w = "w\<lparr>aw_connected := False\<rparr>"
  note ports = aws_delivery_ports [OF assms(1), where fuel = fuel and hmac = hmac and url_parse = url_parse and sha = sha]
  have ok: "aws_ok tbl (batch_world P ?h rs u)" if "aws_ok tbl u" for rs u
    using that
  proof (induction rs arbitrary: u)
    case (Cons r rs)
    have "aws_ok tbl (record_world P ?h r u)"
      using delivery_ports.processMessage_inside [OF ports Cons.prems] Cons.prems
      by (auto simp: record_world_def split: sum.splits) (metis prod.collapse)
    from Cons.IH [OF this] show ?case by (simp add: batch_world_def)
  qed (simp add: batch_world_def)
  have w: "aws_ok tbl ?w" using assms(2) by (simp add: aws_ok_def)
  let ?u = "batch_world P ?h (take i records) ?w"
  have next_world: "batch_world P ?h (take (Suc i) records) ?w = record_world P ?h (records ! i) ?u"
    using assms(3) by (simp add: batch_world_def take_Suc_conv_app_nth)
  obtain ids where ids: "deliverHandler P fuel hmac penv url_parse sha config records w = (Inr ids, batch_world P ?h records ?w)"
    "record_throws P ?h (records ! i) ?u \<longrightarrow> sq_messageId (records ! i) \<in> set ids"
    using deliverHandler_batch [of P fuel hmac penv url_parse sha config records w] assms(3) by blast
  obtain ids' where ids': "deliverHandler P fuel hmac penv url_parse sha config (take (Suc i) records) w
      = (Inr ids', record_world P ?h (records ! i) ?u)"
    using deliverHandler_batch [of P fuel hmac penv url_parse sha config "take (Suc i) records" w] next_world by auto
  show ?thesis
  proof (cases "record_throws P ?h (records ! i) ?u")
    case False
    then obtain m where m: "ap_message_parse P (sq_body (records ! i)) = Inr m" and "\<not> (\<exists>e. fst (?h m ?u) = Inl e)"
      by (auto simp: record_throws_def split: sum.splits)
    then have run: "?h m ?u = (Inr (), snd (?h m ?u))" by (cases "?h m ?u"; cases "fst (?h m ?u)") auto
    have "\<exists>s. accounted m (aws_vw tbl posts (snd (?h m ?u))) s \<and> (\<forall>x. s = Some x \<longrightarrow> x \<in> aws_sched P tbl sq (snd (?h m ?u)))"
      using delivery_ports.processMessage_step [OF ports ok [OF w] run]
      by (auto simp: sched_effect_def intro: delivery_step_accounted)
    then show ?thesis using ids ids' m ok [OF w] by (auto simp: record_world_def)
  qed (use ids ok [OF w] in auto)
qed

theorem aws_batch_loses_nothing_witness:
  "\<exists>s w'. w' = snd (deliverHandler example_aws 1 (\<lambda>_ _. []) (\<lambda>_. None) (\<lambda>_. None) id example_config
        [\<lparr>sq_messageId = ''r1'', sq_body = ''late''\<rparr>] (example_aws_world [] 0))
     \<and> accounted late_retry (aws_vw example_table example_posts w') s"
proof -
  let ?rs = "[\<lparr>sq_messageId = ''r1'', sq_body = ''late''\<rparr>]" and ?w = "example_aws_world [] 0"
  let ?run = "deliverHandler example_aws 1 (\<lambda>_ _. []) (\<lambda>_. None) (\<lambda>_. None) id example_config ?rs ?w"
  have ids: "fst ?run = Inr []"
    by (simp add: deliverHandler_def Let_def fresh_transport_def sqs_subscribe_def dispatchRecords_def seq_io_def bind_io_def
        dispatch_one_def catch_io_def processMessage_def dlq_def record_attempt_def noopTelemetry_def dy_getEndpoint_def dy_putMessage_def
        dy_appendAttempt_def dy_addToDlq_def nextSeq_def aws_call_def example_aws_def example_put_def condition_holds_def example_add_def
        example_aws_world_def late_retry_def)
  have i: "0 < length ?rs" by simp
  have parse: "ap_message_parse example_aws ''late'' = Inr late_retry" by (simp add: example_aws_def)
  from aws_batch_loses_nothing [OF example_delivery_documented example_aws_ok i, where fuel = 1 and hmac = "\<lambda>_ _. []" and penv = "\<lambda>_. None"
      and config = example_config and url_parse = "\<lambda>_. None" and sha = id and now1 = 0] ids parse
  show ?thesis by auto
qed

end
