(* ===== verification/Spec2Isabelle.thy ===== *)
theory Spec2Isabelle
  imports Testing_Memory Core_Router Cf_Properties Aws_Properties
begin

text \<open>
  Verification of anyhook, a webhook delivery library in TypeScript (\<open>packages/*/src\<close>).

  \<^bold>\<open>The program.\<close> A producer hands events to \<open>WebhookEngine.send\<close>, which records the event under its
  idempotency key, fans it out to one message per subscribing endpoint, stores the messages and hands them
  to a transport. The transport gives each message to \<open>processMessage\<close>, which passes the endpoint's rate
  limit and circuit breaker, signs and POSTs the payload once, logs the attempt and settles the message:
  delivered, dead-lettered, or scheduled for a retry. The engine knows storage, queue, scheduler, HTTP
  client, clock and random source only as ports. Three packages implement the ports: an in-memory one for
  tests, one on Cloudflare Durable Objects, one on DynamoDB and SQS. A portal serves the REST interface
  of a tenant, and a signing package makes and checks Standard Webhooks signatures.

  \<^bold>\<open>Conventions.\<close> An \<open>async\<close> function is a function from a world to a result or an exception and the new
  world (\<open>io\<close> in \<open>Anyhook_Prelude\<close>); a throw keeps the effects made before it. Numbers that take part in
  arithmetic are rationals, so rounding of doubles is not modelled: a wait that the code computes in doubles
  can differ from the model's in its last millisecond, and no theorem claims it to the millisecond. Records and datatypes carry the names
  of the interfaces they translate, operations those of the methods, with a prefix where two classes share
  a name (\<open>mem_\<close>, \<open>tdo_\<close>, \<open>edo_\<close>, \<open>do_\<close>, \<open>dy_\<close>).

  \<^bold>\<open>Theories.\<close>
  \<^item> \<open>Anyhook_Prelude\<close>, \<open>Js_Values\<close>, \<open>Key_Order\<close>: programs over a world, JavaScript maps as association lists,
    JSON text and numbers, the order of string keys.
  \<^item> \<open>Core_Types\<close> (\<open>core/src/types\<close>), \<open>Core_Policy\<close> (\<open>policy\<close>: retry schedule, jitter, outcome, circuit breaker as
    an inductive step relation, token bucket), \<open>Core_Fanout\<close> (\<open>fanout.ts\<close>, \<open>id.ts\<close>), \<open>Core_UrlPolicy\<close>
    (\<open>security/url-policy.ts\<close>).
  \<^item> \<open>Core_Ports\<close> (\<open>ports/index.ts\<close>): one record per interface, the abstract view of a store, and one locale
    per contract. \<open>Core_Engine\<close> (\<open>deliver.ts\<close>, \<open>engine.ts\<close>): the engine over any ports. \<open>Core_Delivery_Spec\<close> and
    \<open>Core_Send_Spec\<close>: what one delivery and one acceptance may do to the view, as relations, and the proofs
    that \<open>processMessage\<close> and \<open>send\<close> implement them. The locales \<open>delivery_ports\<close> and \<open>sending_ports\<close> let every
    call fail, with its effect made or not, and let reads of endpoints and rate buckets be stale; both extend
    \<open>answering_ports\<close>. \<open>engine_ports\<close> is the stronger contract, without failures, of which both are consequences.
  \<^item> \<open>Signing\<close> (\<open>signing/src\<close>): secrets, Base64, signer and \<open>verify\<close>.
  \<^item> \<open>Core_Portal\<close>, \<open>Core_Router\<close> (\<open>core/src/portal\<close>): endpoint and delivery interface, replay, and the router
    with every route and every error answer; proofs of what a request may touch, inside \<open>engine_ports\<close>.
  \<^item> \<open>Testing_Memory\<close> (\<open>testing/src\<close>): the in-memory ports, the delivery loop, and the interpretation of the port
    contracts on them.
  \<^item> \<open>Fetch_Client\<close> (\<open>http-fetch.ts\<close> of both packages). \<open>Cf_Objects\<close>, \<open>Cf_Adapter\<close> (\<open>cloudflare/src\<close>): the two Durable
    Object classes over their storage and alarm, and the adapter that routes to them. \<open>Cf_Contracts\<close>: for every
    platform that behaves as documented, the adapter keeps all port contracts, so that everything proved of
    the engine holds on it. \<open>Cf_Alarms\<close>: a run of the alarm on its own. \<open>Cf_Interleaving\<close>: the run as an
    inductive step relation, interleaved at each \<open>QUEUE.send\<close> with other requests to the object.
    \<open>Cf_Properties\<close>: the guarantees, typed storage, order of dead letters.
  \<^item> \<open>Aws_Table\<close>, \<open>Aws_Runtime\<close> (\<open>aws/src\<close>): the single-table store, scheduler, sweeper, transport and Lambda
    handlers. \<open>Aws_Sweep\<close>: concurrent sweepers as an inductive step relation with its invariants. \<open>Aws_Contracts\<close>:
    the services as documented, failures included, and the simulation of \<open>runSweeper\<close> by those steps.
    \<open>Aws_Delivery\<close>: the view of the table and the queue, the table's invariant, and \<open>delivery_ports\<close> for the
    engine on DynamoDB and SQS. \<open>Aws_Send\<close>: the same for \<open>sending_ports\<close>, with the messages handed to the
    producer. \<open>Aws_Properties\<close>: the guarantees.
  \<^item> This theory: the properties of the engine over any adapter, of the in-memory loop and of the portal.

  \<^bold>\<open>What is shown.\<close> Over every adapter that keeps the contracts: a delivery returns, is one step of the
  abstract relation, loses no message, touches nothing else, POSTs at most once and only to an allowed
  URL, and its POST verifies; its log entry carries the message's attempt number, and it is retried exactly
  as far as the schedule goes; acceptance fans out exactly, is idempotent and validates. The view records
  which requests were made and not what was answered, so the result of an attempt is that of some answer
  (\<open>answer_of\<close>). How often a message is attempted over its life is not bounded: a replay starts it anew, and a
  queue may hand it out twice. Of the in-memory loop: draining delivers each queued message once. Of the
  portal: tenant isolation (with the one way around it), answers that do not depend on secrets, replay. Of
  the policies: rate budget, circuit invariants, delay bounds, the URL policy with the form of address it
  misses. Of Cloudflare: an alarm that finds every queue open releases each due retry and is set for the rest;
  a run that fails loses nothing; nothing is lost either when other requests interleave with it, though the
  alarm may then be set too late, or, when the platform has given up repeating a failing run, not at all. Of
  AWS: a delivery is a step of the same relation whatever call fails, no message of a batch is lost, and an
  acceptance that returns has stored and published one message per endpoint its query showed; the sweepers
  lose nothing and release once per lease, in every interleaving; retries are split in bounds; events are
  recorded once, but a send that failed half-way is not repaired by its retry; circuit conflicts are detected.

  \<^bold>\<open>Parameters and hypotheses.\<close> SHA-256, HMAC, the URL parser, \<open>JSON.parse\<close>, the text of non-integral numbers,
  the \<open>Request\<close> constructor, the Cloudflare runtime with its queue driver, DynamoDB, SQS and the SDK are arguments.
  What is used of them is written out (\<open>platform_ok\<close>, \<open>aws_documented\<close>, \<open>index_documented\<close>,
  \<open>delivery_documented\<close>, \<open>send_documented\<close>, \<open>number_format\<close>), and every theorem with such a hypothesis has a witness on a concrete instance.

  \<^bold>\<open>Bounds and fuel.\<close> \<open>drain\<close> is a partial function whose termination is a theorem. The paging loops of the
  AWS package take fuel: \<open>queryAll_complete\<close> shows that one page more than there are items suffices, and
  the properties of \<open>runSweeper\<close> hold for every fuel. Dead letters on Cloudflare are in order
  for the first \<open>10^16 - 1\<close> of an endpoint, the width of the padded number.

  \<^bold>\<open>Not modelled.\<close> Re-exporting \<open>index.ts\<close> files. The port of the system to Go under \<open>src/go\<close>, a second
  implementation about which nothing is stated here. Concurrent requests on one Durable Object, except for those
  that interleave with its alarm, and the interleaving of two engine calls on DynamoDB other than circuit
  writes and sweeps. The contract of \<open>engine_ports\<close>, which the properties of the portal use, is not interpreted
  on the DynamoDB store: its reads are eventually consistent by default, so it does not keep it without a
  further assumption; it keeps \<open>delivery_ports\<close> and \<open>sending_ports\<close>. The storage of a Durable Object is written
  out without its limits on the size of keys and values, so a call it refuses for that reason is not modelled.
\<close>

section \<open>The engine over any adapter\<close>

text \<open>
  C1: one call of \<open>processMessage\<close> always returns, and its whole effect on the store, the transport, the
  outgoing POSTs and the schedule is one step of the abstract delivery relation. It holds for every
  adapter that keeps the port contracts.
\<close>

theorem processMessage_refines:
  assumes "engine_ports E verdict vw sched ok" and "ok w"
  shows "\<exists>s. fst (processMessage E m w) = Inr ()
    \<and> ok (snd (processMessage E m w))
    \<and> delivery_step verdict (dp_signer (eng_deliverPorts E)) (eng_retry E) (eng_circuitCfg E) m
        (vw w) (vw (snd (processMessage E m w))) s
    \<and> sched_effect m s (sched w) (sched (snd (processMessage E m w)))"
  using engine_ports.wp_processMessage [OF assms, of m
      "\<lambda>r w'. \<exists>s. r = Inr () \<and> ok w' \<and> delivery_step verdict (dp_signer (eng_deliverPorts E)) (eng_retry E) (eng_circuitCfg E) m
        (vw w) (vw w') s \<and> sched_effect m s (sched w) (sched w')"]
  by (auto simp: wp_def)

text \<open>The example world of the witnesses: an empty memory world, and the default engine over it.\<close>

definition example_engine :: "mem_world engine" where
  "example_engine = mem_engine (\<lambda>n. replicate 24 (word_of_nat n)) example_hmac example_url_parse id None None None"

definition example_message :: message where
  "example_message =
     \<lparr>msg_messageId = ''msg_1'', msg_tenant = ''acme'', msg_endpointId = ''ep_1'', msg_eventId = ''evt_1'',
      msg_eventType = ''order.paid'', msg_payload = Some (JNum ''1''), msg_attemptNo = 0, msg_status = Pending,
      msg_nextAttemptAt = None, msg_createdAt = 0\<rparr>"

definition example_endpoint :: "string \<Rightarrow> endpoint" where
  "example_endpoint url =
     \<lparr>ep_endpointId = ''ep_1'', ep_tenant = ''acme'', ep_url = url, ep_eventTypes = [''order.*''], ep_description = None,
      ep_disabled = False, ep_rateLimit = None, ep_createdAt = 0, ep_secrets = [''whsec_bmV3'', ''whsec_b2xk'']\<rparr>"

definition example_world :: "string \<Rightarrow> mem_world" where
  "example_world url =
     (mem_start 0 1)\<lparr>mw_tenants := [(''acme'', newTenant\<lparr>td_endpoints := [(''ep_1'', example_endpoint url)]\<rparr>)]\<rparr>"

lemma example_tenant: "tenant_of (example_world url) t =
    (if t = ''acme'' then newTenant\<lparr>td_endpoints := [(''ep_1'', example_endpoint url)]\<rparr> else newTenant)"
  by (simp add: tenant_of_def example_world_def)

lemma example_ok [simp]: "mem_ok (example_world url)"
  by (simp add: mem_ok_def example_tenant tenant_ok_def newTenant_def example_endpoint_def)

lemma example_live: "live_endpoint (mem_view (example_world url)) example_message = Some (example_endpoint url)"
  by (simp add: live_def mem_view_sel example_tenant example_message_def example_endpoint_def)

lemma example_engine_ports:
  "engine_ports example_engine (defaultUrlPolicy_check example_url_parse default_url_options) mem_view mem_sched mem_ok"
  unfolding example_engine_def by (rule mem.engine_ports_axioms)

theorem processMessage_refines_witness:
  "\<exists>s. fst (processMessage example_engine example_message (example_world ''https://8.8.8.8/h'')) = Inr ()
    \<and> delivery_step (defaultUrlPolicy_check example_url_parse default_url_options)
        (dp_signer (eng_deliverPorts example_engine)) (eng_retry example_engine) (eng_circuitCfg example_engine) example_message
        (mem_view (example_world ''https://8.8.8.8/h'')) (mem_view (snd (processMessage example_engine example_message (example_world ''https://8.8.8.8/h'')))) s"
  using processMessage_refines [OF example_engine_ports example_ok] by blast

text \<open>
  C2: a message is never lost. After a delivery it is stored as delivered with a delivered attempt in the
  log, or stored as dead and listed in the dead-letter queue of its endpoint, or it waits (retrying or
  blocked) and the scheduler holds it with a due time.
\<close>

theorem delivery_never_lost:
  assumes "engine_ports E verdict vw sched ok" and "ok w"
  shows "\<exists>s. accounted m (vw (snd (processMessage E m w))) s
    \<and> (\<forall>x. s = Some x \<longrightarrow> x \<in> sched (snd (processMessage E m w)))"
proof -
  have "wp (processMessage E m) (\<lambda>r w'. \<exists>s. accounted m (vw w') s \<and> (\<forall>x. s = Some x \<longrightarrow> x \<in> sched w')) w"
    by (rule engine_ports.wp_processMessage [OF assms])
       (auto simp: sched_effect_def intro: delivery_step_accounted)
  then show ?thesis by (simp add: wp_def)
qed

theorem delivery_never_lost_witness:
  "\<exists>s. accounted example_message (mem_view (snd (processMessage example_engine example_message (example_world ''https://8.8.8.8/h'')))) s"
  using delivery_never_lost [OF example_engine_ports example_ok, where m = example_message] by blast

text \<open>
  C3: deliveries are isolated: delivering one message changes no other message, no other delivery log, no
  other endpoint's circuit, rate bucket or dead-letter rows, of this tenant or any other; it changes no
  endpoint and no event record, enqueues nothing, and leaves the scheduled retries of all other messages
  as they were.
\<close>

theorem delivery_isolated:
  assumes "engine_ports E verdict vw sched ok" and "ok w"
  shows "only_touches m (vw w) (vw (snd (processMessage E m w)))
    \<and> entries_but m (sched (snd (processMessage E m w))) = entries_but m (sched w)"
proof -
  have "wp (processMessage E m) (\<lambda>r w'. only_touches m (vw w) (vw w') \<and> entries_but m (sched w') = entries_but m (sched w)) w"
    by (rule engine_ports.wp_processMessage [OF assms])
       (auto simp: sched_effect_def delivery_step_isolated split: option.splits)
  then show ?thesis by (simp add: wp_def)
qed

theorem delivery_isolated_witness:
  "only_touches example_message (mem_view (example_world ''https://8.8.8.8/h''))
     (mem_view (snd (processMessage example_engine example_message (example_world ''https://8.8.8.8/h''))))"
  using delivery_isolated [OF example_engine_ports example_ok, where m = example_message] by blast

text \<open>
  C4: a delivery POSTs at most once, only to the URL of the message's own live endpoint, only if the URL
  policy allows that URL, and with the message's payload under the message's identifier; a refused URL is
  never contacted, and a message that gets as far as the refusal is dead-lettered as \<open>blocked_ssrf\<close>.
\<close>

theorem delivery_posts_only_allowed:
  assumes "engine_ports E verdict vw sched ok" and "ok w"
  shows "(let v = vw w; w' = snd (processMessage E m w) in
    (v_posts (vw w') = v_posts v \<or>
      (\<exists>e signedAt. live_endpoint v m = Some e \<and> pr_allowed (verdict (ep_url e))
        \<and> v_posts (vw w') = v_posts v @ [(ep_url e, payload_text (msg_payload m),
             spread [(''content-type'', ''application/json'')]
               (dp_signer (eng_deliverPorts E) (ep_secrets e) (msg_messageId m) (payload_text (msg_payload m)) signedAt))]))
    \<and> (\<forall>e. live_endpoint v m = Some e \<longrightarrow> \<not> pr_allowed (verdict (ep_url e)) \<longrightarrow>
         v_posts (vw w') = v_posts v \<and>
         ((\<exists>due. (m, due) \<in> sched w') \<or> (m, BlockedSsrf) \<in># v_dlq (vw w') (msg_tenant m) (msg_endpointId m))))"
proof -
  have "wp (processMessage E m) (\<lambda>r w'.
      (v_posts (vw w') = v_posts (vw w) \<or>
        (\<exists>e signedAt. live_endpoint (vw w) m = Some e \<and> pr_allowed (verdict (ep_url e))
          \<and> v_posts (vw w') = v_posts (vw w) @ [(ep_url e, payload_text (msg_payload m),
               spread [(''content-type'', ''application/json'')]
                 (dp_signer (eng_deliverPorts E) (ep_secrets e) (msg_messageId m) (payload_text (msg_payload m)) signedAt))]))
      \<and> (\<forall>e. live_endpoint (vw w) m = Some e \<longrightarrow> \<not> pr_allowed (verdict (ep_url e)) \<longrightarrow>
           v_posts (vw w') = v_posts (vw w) \<and>
           ((\<exists>due. (m, due) \<in> sched w') \<or> (m, BlockedSsrf) \<in># v_dlq (vw w') (msg_tenant m) (msg_endpointId m)))) w"
  proof (rule engine_ports.wp_processMessage [OF assms], intro conjI allI impI)
    fix w' s e
    assume step: "delivery_step verdict (dp_signer (eng_deliverPorts E)) (eng_retry E) (eng_circuitCfg E) m (vw w) (vw w') s"
      and s: "sched_effect m s (sched w) (sched w')"
      and e: "live_endpoint (vw w) m = Some e" "\<not> pr_allowed (verdict (ep_url e))"
    note blocked = delivery_step_blocked [OF step e]
    then show "v_posts (vw w') = v_posts (vw w)" ..
    show "(\<exists>due. (m, due) \<in> sched w') \<or> (m, BlockedSsrf) \<in># v_dlq (vw w') (msg_tenant m) (msg_endpointId m)"
      using blocked s delivery_step_blocked_schedules [OF step _ e] by (cases s) (auto simp: sched_effect_def)
  qed (blast dest: delivery_step_posts)
  then show ?thesis by (simp add: wp_def Let_def)
qed

theorem delivery_posts_only_allowed_witness:
  "live_endpoint (mem_view (example_world ''https://10.1.2.3/h'')) example_message = Some (example_endpoint ''https://10.1.2.3/h'')
   \<and> v_posts (mem_view (snd (processMessage example_engine example_message (example_world ''https://10.1.2.3/h'')))) = []"
proof -
  have "\<not> pr_allowed (defaultUrlPolicy_check example_url_parse default_url_options (ep_url (example_endpoint ''https://10.1.2.3/h'')))"
    by code_simp
  moreover have "v_posts (mem_view (example_world ''https://10.1.2.3/h'')) = []"
    by (simp add: mem_view_def example_world_def mem_start_def)
  ultimately show ?thesis
    using delivery_posts_only_allowed [OF example_engine_ports example_ok, where m = example_message and url1 = "''https://10.1.2.3/h''"]
    by (simp add: Let_def example_live)
qed

text \<open>
  C9: whatever is delivered, every endpoint's circuit record stays consistent (closed below the threshold,
  otherwise at the threshold with its opening time).
\<close>

theorem delivery_keeps_circuits:
  assumes "engine_ports E verdict vw sched ok" and "ok w" and "0 < failureThreshold (eng_circuitCfg E)"
    and "\<And>t i. circuit_wf (failureThreshold (eng_circuitCfg E)) (v_circuits (vw w) t i)"
  shows "circuit_wf (failureThreshold (eng_circuitCfg E)) (v_circuits (vw (snd (processMessage E m w))) t i)"
proof -
  have "wp (processMessage E m) (\<lambda>r w'. circuit_wf (failureThreshold (eng_circuitCfg E)) (v_circuits (vw w') t i)) w"
    by (rule engine_ports.wp_processMessage [OF assms(1,2)]) (auto intro: delivery_step_circuits assms(3,4))
  then show ?thesis by (simp add: wp_def)
qed

theorem delivery_keeps_circuits_witness:
  "circuit_wf 5 (v_circuits (mem_view (snd (processMessage example_engine example_message (example_world ''https://8.8.8.8/h'')))) ''acme'' ''ep_1'')"
proof -
  have "failureThreshold (eng_circuitCfg example_engine) = 5"
    by (simp add: example_engine_def DEFAULT_FAILURE_THRESHOLD_def)
  moreover have "circuit_wf 5 (v_circuits (mem_view (example_world ''https://8.8.8.8/h'')) t i)" for t i
    by (simp add: mem_view_sel example_tenant newTenant_def)
  ultimately show ?thesis
    using delivery_keeps_circuits [OF example_engine_ports example_ok, where m = example_message] by simp
qed

text \<open>
  C8: attempts are numbered and bounded by the retry schedule. A delivery either leaves the delivery log
  alone and schedules the message as it is (throttled, or parked before an open circuit), or it adds one
  entry with the message's attempt number. The entry is marked as retried exactly when the same message
  was scheduled under the next number, which happens only for numbers inside the schedule; otherwise
  nothing is scheduled. An answer that asks for a retry (a time-out, 429, a server error) is retried whenever
  the number is inside the schedule, the last entry included, and dead-lettered as exhausted when it is not.
\<close>

theorem delivery_numbers_attempts:
  assumes "engine_ports E verdict vw sched ok" and "ok w" and "w' = snd (processMessage E m w)"
    and "before = v_attempts (vw w) (msg_tenant m) (msg_endpointId m, msg_messageId m)"
    and "after = v_attempts (vw w') (msg_tenant m) (msg_endpointId m, msg_messageId m)"
    and "inside \<longleftrightarrow> 0 \<le> msg_attemptNo m \<and> msg_attemptNo m < int (length (scheduleMs (eng_retry E)))"
  shows "after = before \<and> (\<exists>due. (m, due) \<in> sched w')
    \<or> (\<exists>a. after = before @ [a] \<and> att_attemptNo a = msg_attemptNo m
        \<and> (if att_outcome a = AttRetried
           then inside \<and> (\<exists>due. (m\<lparr>msg_attemptNo := msg_attemptNo m + 1, msg_status := Retrying, msg_nextAttemptAt := Some due\<rparr>, due) \<in> sched w')
           else sched w' = sched w)
        \<and> (att_status a \<noteq> Network \<and> classifyOutcome (att_status a) = OutRetryable \<longrightarrow>
             (if inside then att_outcome a = AttRetried
              else att_outcome a = AttDead \<and> (m, ExhaustedRetries) \<in># v_dlq (vw w') (msg_tenant m) (msg_endpointId m))))"
proof -
  obtain s where step: "delivery_step verdict (dp_signer (eng_deliverPorts E)) (eng_retry E) (eng_circuitCfg E) m (vw w) (vw w') s"
    and sched: "sched_effect m s (sched w) (sched w')"
    using engine_ports.wp_processMessage [OF assms(1,2), of m
        "\<lambda>r w'. \<exists>s. delivery_step verdict (dp_signer (eng_deliverPorts E)) (eng_retry E) (eng_circuitCfg E) m (vw w) (vw w') s
          \<and> sched_effect m s (sched w) (sched w')"] assms(3)
    by (auto simp: wp_def)
  have eqs: "before = log_of m (vw w)" "after = log_of m (vw w')" "inside = retries_left (eng_retry E) m"
    using assms(4-6) by (simp_all add: log_of_def retries_left_def)
  from delivery_step_numbered [OF step] show ?thesis
  proof (elim disjE exE conjE)
    fix a assume "log_of m (vw w') = log_of m (vw w) @ [a]" "entry_numbered (eng_retry E) m a (vw w') s"
    then show ?thesis
      using sched unfolding eqs
      by (intro disjI2 exI [of _ a]) (auto simp: entry_numbered_def sched_effect_def next_message_def split: option.splits)
  qed (use sched eqs in \<open>auto simp: sched_effect_def\<close>)
qed

text \<open>The endpoint of the example never answers.\<close>

definition failing_world :: mem_world where
  "failing_world = (example_world ''https://8.8.8.8/h'')\<lparr>mw_default := ScTimeout\<rparr>"

lemma failing_ok: "mem_ok failing_world"
  using example_ok [of "''https://8.8.8.8/h''"] by (simp add: failing_world_def mem_ok_def tenant_of_def)

lemma failing_log:
  "map (\<lambda>a. (att_endpointId a, att_attemptNo a, att_status a))
     (attempts_of (tenant_of (snd (processMessage example_engine example_message failing_world)) ''acme'') ''msg_1'') = [(''ep_1'', 0, Timeout)]"
proof -
  have policy: "pr_allowed (defaultUrlPolicy_check example_url_parse default_url_options ''https://8.8.8.8/h'')" by code_simp
  note store = mem_store_defs mem_getEndpoint_def mem_getCircuit_def mem_putMessage_def mem_putCircuit_def mem_appendAttempt_def
    with_tenant_def tenant_of_def attempts_of_def newTenant_def
  note run = bind_io_def seq_io_def TestClock_now_def Let_def
  show ?thesis
    by (simp add: example_engine_def failing_world_def example_world_def mem_start_def example_message_def example_endpoint_def
        processMessage_def circuit_gate_def initialCircuit_def canAttempt_def store run,
      simp add: deliverOnce_def policy default_policy_port_def MockReceiver_def receiver_post_def receiver_answer_def run,
      simp add: settle_def settle_retryable_def record_attempt_def nextDelayMs_def fullJitter_def seededRng_next_def noopTelemetry_def
        MemoryScheduler_def mem_scheduleRetry_def attempt_of_def DEFAULT_SCHEDULE_MS_def store run)
qed

theorem delivery_numbers_attempts_witness:
  "\<exists>due. (example_message\<lparr>msg_attemptNo := 1, msg_status := Retrying, msg_nextAttemptAt := Some due\<rparr>, due)
     \<in> mem_sched (snd (processMessage example_engine example_message failing_world))"
proof -
  let ?w' = "snd (processMessage example_engine example_message failing_world)"
  obtain a where a: "attempts_of (tenant_of ?w' ''acme'') ''msg_1'' = [a]" "att_endpointId a = ''ep_1''" "att_attemptNo a = 0" "att_status a = Timeout"
    using failing_log by (auto simp: map_eq_Cons_conv)
  have m: "msg_tenant example_message = ''acme''" "msg_endpointId example_message = ''ep_1''" "msg_messageId example_message = ''msg_1''"
    "msg_attemptNo example_message = 0" by (simp_all add: example_message_def)
  have after: "v_attempts (mem_view ?w') ''acme'' (''ep_1'', ''msg_1'') = [a]" by (simp add: mem_view_def a)
  have before: "v_attempts (mem_view failing_world) ''acme'' (''ep_1'', ''msg_1'') = []"
    by (simp add: mem_view_def failing_world_def example_world_def tenant_of_def newTenant_def attempts_of_def)
  have "length (scheduleMs (eng_retry example_engine)) = 8" by (simp add: example_engine_def DEFAULT_SCHEDULE_MS_def)
  with delivery_numbers_attempts [OF example_engine_ports failing_ok refl refl refl refl, where m = example_message] a(4)
  show ?thesis unfolding m before after by (auto split: if_splits)
qed

text \<open>
  C5: every POST of the engine verifies: the body and the headers that \<open>deliverOnce\<close> sends, with the
  content type and the signature headers merged, are accepted by \<open>verify\<close> under each secret the endpoint
  has, so a receiver that still uses the old secret during a rotation loses nothing.
\<close>

theorem posted_delivery_verifies:
  assumes "secret \<in> set (ep_secrets e)" and "msg_messageId m \<noteq> []" and "\<And>key content. hmac key content \<noteq> []"
    and "\<bar>timestamp_seconds signedAt\<bar> \<le> 8640000000000" and "\<bar>\<lfloor>now / 1000\<rfloor> - timestamp_seconds signedAt\<bar> \<le> 300"
    and "json_parse (payload_text (msg_payload m)) = Some j"
  shows "verify hmac json_parse frac_str now
           (spread [(''content-type'', ''application/json'')]
              (createSigner hmac (ep_secrets e) (msg_messageId m) (payload_text (msg_payload m)) signedAt))
           (payload_text (msg_payload m)) secret = Inr j"
proof -
  let ?hs = "createSigner hmac (ep_secrets e) (msg_messageId m) (payload_text (msg_payload m)) signedAt"
  have "header_of (lowercaseHeaders (spread [(''content-type'', ''application/json'')] ?hs)) k = header_of (lowercaseHeaders ?hs) k"
    if "k \<noteq> ''content-type''" for k
    using that by (simp add: createSigner_def Signer_headers_def spread_def lowercaseHeaders_def header_of_def to_lower_def lower_char_def)
  then have "verify hmac json_parse frac_str now (spread [(''content-type'', ''application/json'')] ?hs) (payload_text (msg_payload m)) secret
      = verify hmac json_parse frac_str now ?hs (payload_text (msg_payload m)) secret"
    by (intro verify_headers_cong) simp_all
  with verify_signed [OF assms(1-5)] assms(6) show ?thesis by simp
qed

theorem posted_delivery_verifies_witness:
  "verify example_hmac (\<lambda>s. if s = ''1'' then Some (JNum ''1'') else None) (\<lambda>_. []) 90000
     (spread [(''content-type'', ''application/json'')]
        (createSigner example_hmac (ep_secrets (example_endpoint ''https://8.8.8.8/h'')) (msg_messageId example_message)
           (payload_text (msg_payload example_message)) 60000))
     (payload_text (msg_payload example_message)) ''whsec_b2xk'' = Inr (JNum ''1'')"
proof -
  have "timestamp_seconds 60000 = 60" "\<lfloor>90000 / 1000 :: rat\<rfloor> = 90"
    by (simp_all add: timestamp_seconds_def date_time_def)
  then show ?thesis
    by (intro posted_delivery_verifies)
       (simp_all add: example_hmac_nonempty example_endpoint_def example_message_def payload_text_def)
qed

section \<open>Accepting events\<close>

text \<open>
  C6: accepting a new event returns a receipt, and for every enabled endpoint of the tenant that
  subscribes to the event type exactly one pending message is handed to the transport, and it is stored
  (as long as the random identifiers drawn for one event do not repeat); the receipt and the stored event
  carry their number; nothing is delivered and no other tenant's message is touched.
\<close>

theorem send_fans_out:
  assumes "engine_ports E verdict vw sched ok" and "ok w" and "acceptable E event"
    and "v_events (vw w) (ev_tenant event) (idem_key E event) = None"
  shows "\<exists>ms r. fst (send E event w) = Inr r
    \<and> rc_messageCount r = card (recipients (vw w) event) \<and> length ms = card (recipients (vw w) event)
    \<and> msg_endpointId ` set ms = ep_endpointId ` recipients (vw w) event \<and> distinct (map msg_endpointId ms)
    \<and> (\<forall>m \<in> set ms. msg_tenant m = ev_tenant event \<and> msg_status m = Pending \<and> msg_payload m = ev_payload event
         \<and> msg_eventId m = rc_eventId r)
    \<and> v_queue (vw (snd (send E event w))) = v_queue (vw w) @ ms
    \<and> (distinct (map msg_messageId ms) \<longrightarrow>
         (\<forall>m \<in> set ms. v_messages (vw (snd (send E event w))) (msg_tenant m) (msg_messageId m) = Some m))
    \<and> v_events (vw (snd (send E event w))) (ev_tenant event) (idem_key E event) = Some (rc_eventId r, rc_messageCount r)
    \<and> v_posts (vw (snd (send E event w))) = v_posts (vw w)
    \<and> (\<forall>t i. t \<noteq> ev_tenant event \<longrightarrow> v_messages (vw (snd (send E event w))) t i = v_messages (vw w) t i)
    \<and> sched (snd (send E event w)) = sched w"
proof -
  have "wp (send E event) (\<lambda>res w'. \<exists>ms r. res = Inr r \<and> accepted_as E event (vw w) (vw w') ms r \<and> sched w' = sched w) w"
    by (rule engine_ports.wp_send_new [OF assms]) blast
  then obtain ms r where r: "fst (send E event w) = Inr r" "sched (snd (send E event w)) = sched w"
    and acc: "accepted_as E event (vw w) (vw (snd (send E event w))) ms r"
    by (auto simp: wp_def)
  then show ?thesis using accepted_as_fans_out [OF acc] by blast
qed

definition example_event_paid :: send_event where
  "example_event_paid =
     \<lparr>ev_type = ''order.paid'', ev_tenant = ''acme'', ev_payload = Some (JNum ''1''), ev_idempotencyKey = Some ''k'', ev_metadata = None\<rparr>"

lemma example_acceptable: "acceptable example_engine example_event_paid"
  by (simp add: acceptable_def example_event_paid_def example_engine_def DEFAULT_MAX_PAYLOAD_BYTES_def utf8_length_def)

theorem send_fans_out_witness:
  "\<exists>ms. v_queue (mem_view (snd (send example_engine example_event_paid (example_world ''https://8.8.8.8/h'')))) = ms
     \<and> map msg_endpointId ms = [''ep_1'']"
proof -
  let ?w = "example_world ''https://8.8.8.8/h''"
  have e: "v_endpoints (mem_view ?w) ''acme'' = [''ep_1'' \<mapsto> example_endpoint ''https://8.8.8.8/h'']"
    by (rule ext) (simp add: mem_view_sel example_tenant)
  have "subscribes (example_endpoint ''https://8.8.8.8/h'') ''order.paid''" by code_simp
  then have rec: "recipients (mem_view ?w) example_event_paid = {example_endpoint ''https://8.8.8.8/h''}"
    using e by (auto simp: recipients_def example_event_paid_def example_endpoint_def)
  have "v_events (mem_view ?w) (ev_tenant example_event_paid) (idem_key example_engine example_event_paid) = None"
    by (simp add: mem_view_def example_tenant newTenant_def)
  from send_fans_out [OF example_engine_ports example_ok example_acceptable this] obtain ms where
    "length ms = 1" "msg_endpointId ` set ms = {''ep_1''}" "v_queue (mem_view (snd (send example_engine example_event_paid ?w))) = v_queue (mem_view ?w) @ ms"
    unfolding rec by (auto simp: example_endpoint_def)
  moreover have "v_queue (mem_view ?w) = []" by (simp add: mem_view_def example_world_def mem_start_def)
  ultimately show ?thesis by (cases ms) auto
qed

text \<open>
  C7: acceptance is idempotent: once an event was accepted, sending any acceptable event of the same
  tenant with the same idempotency key, at any later time at which that record is still there, returns
  the first receipt and changes nothing in the store, the queue or the schedule.
\<close>

theorem send_idempotent:
  assumes "engine_ports E verdict vw sched ok" and "ok w" and "acceptable E event"
    and "v_events (vw w) (ev_tenant event) (idem_key E event) = None"
    and "ok w2" and "v_events (vw w2) = v_events (vw (snd (send E event w)))"
    and "acceptable E event'" and "ev_tenant event' = ev_tenant event" and "idem_key E event' = idem_key E event"
  shows "fst (send E event' w2) = fst (send E event w)
    \<and> vw (snd (send E event' w2)) = vw w2 \<and> sched (snd (send E event' w2)) = sched w2"
proof -
  have "wp (send E event) (\<lambda>res w'. \<exists>ms r. res = Inr r \<and> accepted_as E event (vw w) (vw w') ms r) w"
    by (rule engine_ports.wp_send_new [OF assms(1-4)]) blast
  then obtain ms r where r: "fst (send E event w) = Inr r"
    and acc: "accepted_as E event (vw w) (vw (snd (send E event w))) ms r"
    by (auto simp: wp_def)
  from accepted_as_fans_out [OF acc] accepted_as_receipt [OF acc]
  have "v_events (vw w2) (ev_tenant event') (idem_key E event') = Some (rc_eventId r, rc_messageCount r)" "rc_accepted r"
    using assms(6,8,9) by simp_all
  then have "wp (send E event') (\<lambda>res w'. res = Inr r \<and> vw w' = vw w2 \<and> sched w' = sched w2) w2"
    by (intro engine_ports.wp_send_duplicate [OF assms(1,5,7)]) auto
  with r show ?thesis by (simp add: wp_def)
qed

theorem send_idempotent_witness:
  "fst (send example_engine example_event_paid (snd (send example_engine example_event_paid (example_world ''https://8.8.8.8/h''))))
   = fst (send example_engine example_event_paid (example_world ''https://8.8.8.8/h''))"
proof -
  let ?w = "example_world ''https://8.8.8.8/h''"
  have new: "v_events (mem_view ?w) (ev_tenant example_event_paid) (idem_key example_engine example_event_paid) = None"
    by (simp add: mem_view_def example_tenant newTenant_def)
  have "wp (send example_engine example_event_paid) (\<lambda>_ w'. mem_ok w') ?w"
    by (rule engine_ports.wp_send_new [OF example_engine_ports example_ok example_acceptable new])
  then have "mem_ok (snd (send example_engine example_event_paid ?w))" by (simp add: wp_def)
  from send_idempotent [OF example_engine_ports example_ok example_acceptable new this refl example_acceptable refl refl]
  show ?thesis by simp
qed

text \<open>
  C10: \<open>send\<close> refuses an event without a type, without a tenant, without a payload or with a payload over
  the size limit by throwing, and then nothing at all has happened; any other event is accepted.
\<close>

theorem send_validates:
  assumes "engine_ports E verdict vw sched ok" and "ok w"
  shows "if acceptable E event then \<exists>r. fst (send E event w) = Inr r \<and> rc_accepted r
    else \<exists>err. send E event w = (Inl err, w)"
proof (cases "acceptable E event")
  case True
  have "wp (send E event) (\<lambda>res w'. \<exists>r. res = Inr r \<and> rc_accepted r) w"
  proof (cases "v_events (vw w) (ev_tenant event) (idem_key E event)")
    case None
    then show ?thesis
      by (rule engine_ports.wp_send_new [OF assms True]) (auto dest: accepted_as_receipt)
  next
    case (Some x)
    then show ?thesis
      by (cases x) (auto intro: engine_ports.wp_send_duplicate [OF assms True])
  qed
  with True show ?thesis by (simp add: wp_def)
next
  case False
  then show ?thesis using send_refused by auto
qed

theorem send_validates_witness:
  "(\<exists>r. fst (send example_engine example_event_paid (example_world ''https://8.8.8.8/h'')) = Inr r \<and> rc_accepted r)
   \<and> (\<exists>err. send example_engine (example_event_paid\<lparr>ev_type := []\<rparr>) (example_world ''https://8.8.8.8/h'')
        = (Inl err, example_world ''https://8.8.8.8/h''))"
  using send_validates [OF example_engine_ports example_ok, where event = example_event_paid]
    send_validates [OF example_engine_ports example_ok, where event = "example_event_paid\<lparr>ev_type := []\<rparr>"]
  by (simp add: example_acceptable) (simp add: acceptable_def)

section \<open>The in-memory delivery loop\<close>

text \<open>
  C40: \<open>MemoryTransport.drain\<close> with the engine as its handler always returns: it takes the queued messages
  one after the other and delivers each exactly once, reports their number, and leaves an empty queue and
  a well-formed store. When no message is queued twice, each of them is then delivered, dead-lettered or
  scheduled for a retry.
\<close>

theorem drain_returns:
  assumes "mem_ok w" and "mw_subscribed w" and "h = processMessage (mem_engine entropy hmac url_parse sha None None None)"
    and "w' = fold (handle_next h) (mw_queue w) w"
  shows "drain h w = Some (Inr (length (mw_queue w)), w') \<and> mw_queue w' = [] \<and> mem_ok w'
    \<and> (distinct (map (\<lambda>m. (msg_tenant m, msg_messageId m)) (mw_queue w)) \<longrightarrow> (\<forall>m \<in> set (mw_queue w). safe_in m w'))"
  using drain_loop_handles [OF assms(1), of entropy hmac url_parse sha] handled_safe [OF assms(1), of "mw_queue w"] assms(2)
  unfolding assms(3,4) by (simp add: drain_def)

theorem drain_returns_witness:
  "\<exists>w'. drain (processMessage example_engine) ((example_world ''https://8.8.8.8/h'')\<lparr>mw_queue := [example_message], mw_subscribed := True\<rparr>)
     = Some (Inr 1, w') \<and> safe_in example_message w'"
proof -
  let ?w = "(example_world ''https://8.8.8.8/h'')\<lparr>mw_queue := [example_message], mw_subscribed := True\<rparr>"
  have "mem_ok ?w" "mw_subscribed ?w"
    using example_ok [of "''https://8.8.8.8/h''"] by (simp_all add: mem_ok_def)
  from drain_returns [OF this example_engine_def [THEN arg_cong, of processMessage] refl] show ?thesis by simp
qed

section \<open>The portal\<close>

definition empty_body :: request_body where
  "empty_body =
     \<lparr>bd_type = None, bd_payload = None, bd_idempotencyKey = None, bd_metadata = None, bd_url = None, bd_eventTypes = None,
      bd_description = None, bd_rateLimit = None, bd_disabled = None, bd_tenant = None, bd_endpointId = None\<rparr>"

definition default_router :: router_options where
  "default_router = \<lparr>ro_basePath = None, ro_resolveTenant = None\<rparr>"

definition example_request :: "string \<Rightarrow> string \<Rightarrow> string \<Rightarrow> request_body \<Rightarrow> request" where
  "example_request m tenant path body =
     \<lparr>rq_method = m, rq_pathname = path, rq_query = (\<lambda>_. None),
      rq_header = (\<lambda>h. if h = ''x-anyhook-tenant'' then Some tenant else None), rq_json = Inr body\<rparr>"

text \<open>
  C11: whatever request a tenant makes, on any route and with any outcome, the portal answers with a
  response, and the request changes nothing of any other tenant, POSTs nothing and enqueues only messages
  of that tenant, provided that a PATCH does not carry a \<open>tenant\<close> member in its body; the bodies of all other requests are arbitrary.
\<close>

theorem portal_tenant_isolation:
  assumes "engine_ports E verdict vw sched ok" and "ok w"
    and "resolve_tenant opts req = Some tenant" and "patch_names_no_tenant req tenant"
  shows "(\<exists>r. fst (handle frac_str E opts req w) = Inr r)
    \<and> tenant_frame tenant (vw w) (vw (snd (handle frac_str E opts req w)))
    \<and> sched (snd (handle frac_str E opts req w)) = sched w"
  using engine_ports.wp_handle_inside [OF assms(1,2), of opts req tenant frac_str] assms(3,4) by (auto simp: wp_def)

theorem portal_tenant_isolation_witness:
  "tenant_frame ''acme'' (mem_view (example_world ''https://8.8.8.8/h''))
     (mem_view (snd (handle (\<lambda>_. []) example_engine default_router (example_request ''POST'' ''acme'' ''/v1/events'' (empty_body\<lparr>bd_type := Some ''order.paid'', bd_payload := Some (JNum ''1''), bd_tenant := Some ''other''\<rparr>))
        (example_world ''https://8.8.8.8/h''))))"
proof -
  let ?req = "example_request ''POST'' ''acme'' ''/v1/events'' (empty_body\<lparr>bd_type := Some ''order.paid'', bd_payload := Some (JNum ''1''), bd_tenant := Some ''other''\<rparr>)"
  have "resolve_tenant default_router ?req = Some ''acme''" "patch_names_no_tenant ?req ''acme''"
    by (simp_all add: resolve_tenant_def default_router_def example_request_def patch_names_no_tenant_def upper_char_def)
  from portal_tenant_isolation [OF example_engine_ports example_ok this] show ?thesis by blast
qed

text \<open>
  C12: the \<open>tenant\<close> member of a PATCH body overrides the authenticated tenant: a request authenticated as
  \<open>mallory\<close> changes the URL of an endpoint of \<open>acme\<close>, to which the next deliveries of \<open>acme\<close> will go.
\<close>

theorem portal_patch_crosses_tenants:
  "let body = empty_body\<lparr>bd_url := Some ''https://evil.example/x'', bd_tenant := Some ''acme''\<rparr>;
       req = example_request ''PATCH'' ''mallory'' ''/v1/endpoints/ep_1'' body;
       w = example_world ''https://8.8.8.8/h'';
       out = handle (\<lambda>_. []) example_engine default_router req w
   in resolve_tenant default_router req = Some ''mallory''
      \<and> map_option rs_status (case fst out of Inr r \<Rightarrow> Some r | Inl _ \<Rightarrow> None) = Some 200
      \<and> map_option ep_url (v_endpoints (mem_view (snd out)) ''acme'' ''ep_1'') = Some ''https://evil.example/x''"
proof -
  let ?body = "empty_body\<lparr>bd_url := Some ''https://evil.example/x'', bd_tenant := Some ''acme''\<rparr>"
  let ?req = "example_request ''PATCH'' ''mallory'' ''/v1/endpoints/ep_1'' ?body"
  let ?w = "example_world ''https://8.8.8.8/h''"
  have path: "path_segments default_router ?req = [''endpoints'', ''ep_1'']" "starts_with (rq_pathname ?req) (base_path default_router @ ''/'')"
    using path_segments_resource [of ?req default_router "''endpoints''" "''ep_1''"]
    by (simp_all add: example_request_def base_path_def default_router_def)
  have tenant: "resolve_tenant default_router ?req = Some ''mallory''"
    by (simp add: resolve_tenant_def default_router_def example_request_def)
  have e: "v_endpoints (mem_view ?w) ''acme'' ''ep_1'' = Some (example_endpoint ''https://8.8.8.8/h'')"
    by (simp add: mem_view_sel example_tenant)
  let ?p = "\<lparr>pa_url = Some ''https://evil.example/x'', pa_eventTypes = None, pa_disabled = None\<rparr>"
  let ?new = "apply_patch ?p (example_endpoint ''https://8.8.8.8/h'')"
  have up: "mem_calls (ss_updateEndpoint (eng_state example_engine) ''acme'' ''ep_1'' ?p) ?w (Inr ?new) (put_endpoint ?new (mem_view ?w))"
    unfolding example_engine_def using mem_state.updateEndpoint_call [OF example_ok e] by simp
  have h: "handle (\<lambda>_. []) example_engine default_router ?req ?w
      = catch_io (route_patch (\<lambda>_. []) example_engine ?req ''mallory'' ''ep_1'') (\<lambda>err. return_io (error_response err)) ?w"
    using path tenant by (simp add: handle_def route_def example_request_def upper_char_def)
  have "rq_json ?req = Inr ?body" by (simp add: example_request_def)
  then have r: "fst (handle (\<lambda>_. []) example_engine default_router ?req ?w) = Inr (jsonRes (public_endpoint_json (\<lambda>_. []) (redact ?new)) 200)"
    "mem_view (snd (handle (\<lambda>_. []) example_engine default_router ?req ?w)) = put_endpoint ?new (mem_view ?w)"
    using up unfolding h
    by (simp_all add: route_patch_def read_json_def endpoints_update_def catch_io_def bind_io_def calls_def empty_body_def)
  show ?thesis
    unfolding Let_def r using tenant
    by (simp add: jsonRes_def put_endpoint_def apply_patch_def example_endpoint_def)
qed

text \<open>
  C13: the portal's answers about endpoints do not depend on signing secrets. Between two stores whose
  endpoints differ in nothing but their secrets, \<open>GET /endpoints/:id\<close> and \<open>PATCH /endpoints/:id\<close> give the
  same response, and \<open>GET /endpoints\<close> lists the same objects (in an order of the store's own). What is
  shown of an endpoint is written out member by member; a tenant that has no such endpoint gets 404, and
  reading changes nothing.
\<close>

theorem portal_hides_secrets:
  assumes "engine_ports E verdict vw sched ok" and "ok w" and "ok w'" and "same_but_secrets (vw w) (vw w')"
    and "resolve_tenant opts req = Some tenant" and "tenant \<noteq> []" and "CHR ''/'' \<notin> set i" and "i \<noteq> []"
  shows "(rq_pathname req = base_path opts @ ''/endpoints/'' @ i \<and> map upper_char (rq_method req) = ''GET'' \<longrightarrow>
        fst (handle frac_str E opts req w) = fst (handle frac_str E opts req w')
        \<and> fst (handle frac_str E opts req w) = Inr (case v_endpoints (vw w) tenant i of
             None \<Rightarrow> jsonRes (error_json ''endpoint not found'') 404
           | Some e \<Rightarrow> jsonRes (shown_endpoint frac_str e) 200)
        \<and> vw (snd (handle frac_str E opts req w)) = vw w)
    \<and> (rq_pathname req = base_path opts @ ''/endpoints/'' @ i \<and> map upper_char (rq_method req) = ''PATCH'' \<longrightarrow>
        fst (handle frac_str E opts req w) = fst (handle frac_str E opts req w'))
    \<and> (rq_pathname req = base_path opts @ ''/endpoints'' \<and> map upper_char (rq_method req) = ''GET'' \<longrightarrow>
        (\<exists>ps ps'. fst (handle frac_str E opts req w) = Inr (jsonRes (JArr ps) 200)
           \<and> fst (handle frac_str E opts req w') = Inr (jsonRes (JArr ps') 200) \<and> mset ps = mset ps'))"
    (is "(?one \<longrightarrow> ?get) \<and> (?two \<longrightarrow> ?patch) \<and> (?three \<longrightarrow> ?list)")
proof (intro conjI impI)
  have run: "fst (handle frac_str E opts req u) = (case fst (route frac_str E req tenant (map upper_char (rq_method req)) (path_segments opts req) u) of
        Inl err \<Rightarrow> Inr (error_response err) | Inr x \<Rightarrow> Inr x)
      \<and> snd (handle frac_str E opts req u) = snd (route frac_str E req tenant (map upper_char (rq_method req)) (path_segments opts req) u)"
    if "starts_with (rq_pathname req) (base_path opts @ ''/'')" for u
    using that assms(5,6) by (simp add: handle_def catch_io_def split: sum.splits)
  note path = path_segments_resource [of req opts "''endpoints''" i] path_segments_collection [of req opts "''endpoints''"]
  { assume req: ?one
    have get: "fst (route_get frac_str E tenant i u) = (case v_endpoints (vw u) tenant i of
          None \<Rightarrow> Inl (PortalHttpError 404 ''endpoint not found'') | Some e \<Rightarrow> Inr (jsonRes (shown_endpoint frac_str e) 200))
        \<and> vw (snd (route_get frac_str E tenant i u)) = vw u" if "ok u" for u
    proof -
      have "wp (route_get frac_str E tenant i) (\<lambda>r u'. r = (case v_endpoints (vw u) tenant i of
          None \<Rightarrow> Inl (PortalHttpError 404 ''endpoint not found'') | Some e \<Rightarrow> Inr (jsonRes (shown_endpoint frac_str e) 200)) \<and> vw u' = vw u) u"
        by (rule engine_ports.wp_route_get [OF assms(1) that]) simp
      then show ?thesis by (simp add: wp_def)
    qed
    have h: "route frac_str E req tenant (map upper_char (rq_method req)) (path_segments opts req) = route_get frac_str E tenant i"
      "starts_with (rq_pathname req) (base_path opts @ ''/'')"
      using req path(1,2) assms(7,8) by (simp_all add: route_def)
    from run [OF h(2)] get [OF assms(2)] engine_ports.route_get_hides [OF assms(1-4), of frac_str tenant i]
    show "fst (handle frac_str E opts req w) = fst (handle frac_str E opts req w')"
      "fst (handle frac_str E opts req w) = Inr (case v_endpoints (vw w) tenant i of
         None \<Rightarrow> jsonRes (error_json ''endpoint not found'') 404 | Some e \<Rightarrow> jsonRes (shown_endpoint frac_str e) 200)"
      "vw (snd (handle frac_str E opts req w)) = vw w"
      unfolding h(1) by (simp_all split: option.splits) }
  { assume req: ?two
    have h: "route frac_str E req tenant (map upper_char (rq_method req)) (path_segments opts req) = route_patch frac_str E req tenant i"
      "starts_with (rq_pathname req) (base_path opts @ ''/'')"
      using req path(1,2) assms(7,8) by (simp_all add: route_def)
    from run [OF h(2)] engine_ports.route_patch_hides [OF assms(1-4), of frac_str req tenant i] show ?patch
      unfolding h(1) by simp }
  { assume req: ?three
    have h: "route frac_str E req tenant (map upper_char (rq_method req)) (path_segments opts req) = route_list frac_str E tenant"
      "starts_with (rq_pathname req) (base_path opts @ ''/'')"
      using req path(3,4) by (simp_all add: route_def)
    from run [OF h(2)] engine_ports.route_list_hides [OF assms(1-4), of frac_str tenant] show ?list
      unfolding h(1) by fastforce }
qed

text \<open>The example store with other secrets.\<close>

definition rotated_world :: mem_world where
  "rotated_world = (example_world ''https://8.8.8.8/h'')\<lparr>mw_tenants :=
     [(''acme'', newTenant\<lparr>td_endpoints := [(''ep_1'', (example_endpoint ''https://8.8.8.8/h'')\<lparr>ep_secrets := [''other'']\<rparr>)]\<rparr>)]\<rparr>"

lemma rotated_ok: "mem_ok rotated_world"
  by (simp add: rotated_world_def mem_ok_def tenant_of_def tenant_ok_def newTenant_def example_endpoint_def)

lemma rotated_same: "same_but_secrets (mem_view (example_world ''https://8.8.8.8/h'')) (mem_view rotated_world)"
  by (simp add: same_but_secrets_def mem_view_sel rotated_world_def example_world_def tenant_of_def)

theorem portal_hides_secrets_witness:
  "let answer = (\<lambda>m path w. fst (handle (\<lambda>_. []) example_engine default_router (example_request m ''acme'' path empty_body) w))
   in answer ''GET'' ''/v1/endpoints/ep_1'' rotated_world = answer ''GET'' ''/v1/endpoints/ep_1'' (example_world ''https://8.8.8.8/h'')
    \<and> answer ''PATCH'' ''/v1/endpoints/ep_1'' rotated_world = answer ''PATCH'' ''/v1/endpoints/ep_1'' (example_world ''https://8.8.8.8/h'')
    \<and> (\<exists>ps. answer ''GET'' ''/v1/endpoints'' rotated_world = Inr (jsonRes (JArr ps) 200))"
proof -
  note hides = portal_hides_secrets [OF example_engine_ports example_ok rotated_ok rotated_same, where tenant = "''acme''" and i = "''ep_1''"
      and opts = default_router and frac_str = "\<lambda>_. []"]
  note req = example_request_def default_router_def base_path_def resolve_tenant_def upper_char_def
  from hides [of "example_request ''GET'' ''acme'' ''/v1/endpoints/ep_1'' empty_body"]
    hides [of "example_request ''PATCH'' ''acme'' ''/v1/endpoints/ep_1'' empty_body"]
    hides [of "example_request ''GET'' ''acme'' ''/v1/endpoints'' empty_body"]
  show ?thesis by (simp add: req Let_def) blast
qed







text \<open>
  C15: a bad ingest request is refused before anything happens, whatever the adapter: a body that is no
  JSON and a body without a type are answered with 400; a body without a payload is answered with 500, as
  an internal error.
\<close>

theorem portal_refuses_bad_events:
  assumes "rq_pathname req = base_path opts @ ''/events''" and "map upper_char (rq_method req) = ''POST''"
    and "resolve_tenant opts req = Some tenant" and "tenant \<noteq> []"
  shows "(rq_json req = Inl (SyntaxError text) \<longrightarrow>
            handle frac_str E opts req w = (Inr (jsonRes (error_json ''invalid JSON body'') 400), w))
    \<and> (rq_json req = Inr body \<and> (bd_type body = None \<or> bd_type body = Some []) \<longrightarrow>
            handle frac_str E opts req w = (Inr (jsonRes (error_json ''type is required'') 400), w))
    \<and> (rq_json req = Inr body \<and> bd_type body = Some (c # ty) \<and> bd_payload body = None \<longrightarrow>
            (\<exists>r. handle frac_str E opts req w = (Inr r, w) \<and> rs_status r = 500))"
proof -
  have path: "path_segments opts req = [''events'']" "starts_with (rq_pathname req) (base_path opts @ ''/'')"
    using path_segments_collection [of req opts "''events''"] assms(1) by simp_all
  have h: "handle frac_str E opts req w
      = catch_io (route_events E req tenant) (\<lambda>err. return_io (error_response err)) w"
    using path assms(2-4) by (simp add: handle_def route_def)
  have "\<not> contains (to_lower ''Buffer.byteLength'') ''not found''" by code_simp
  then show ?thesis
    unfolding h route_events_def read_json_def using assms(4)
    by (auto simp: catch_io_def send_def jsonRes_def)
qed

theorem portal_refuses_bad_events_witness:
  "handle (\<lambda>_. []) example_engine default_router (example_request ''POST'' ''acme'' ''/v1/events'' empty_body)
     (example_world ''https://8.8.8.8/h'')
   = (Inr (jsonRes (error_json ''type is required'') 400), example_world ''https://8.8.8.8/h'')"
  using portal_refuses_bad_events [of "example_request ''POST'' ''acme'' ''/v1/events'' empty_body" default_router "''acme''" "[]"
      "\<lambda>_. []" example_engine "example_world ''https://8.8.8.8/h''" empty_body]
  by (simp add: example_request_def default_router_def base_path_def resolve_tenant_def upper_char_def empty_body_def)

end
